theory Spec2Isabelle
  imports Main "HOL-Library.Sublist"
begin

section \<open>JavaScript strings\<close>

text \<open>
  Strings are \<^typ>\<open>string\<close>, one \<^typ>\<open>char\<close> per code unit: the texts covered are
  those whose code units lie below 256, where a code unit is the character of that
  number (Basic Latin and Latin-1 Supplement). The functions below are the
  \<^verbatim>\<open>String.prototype\<close> methods that \<^verbatim>\<open>geminiService.ts\<close> calls, on such texts.
\<close>

text \<open>\<^verbatim>\<open>s.indexOf(p)\<close>: the index of the first occurrence, \<open>None\<close> for -1.\<close>

fun indexOf :: "string \<Rightarrow> string \<Rightarrow> nat option" where
  "indexOf [] p = (if p = [] then Some 0 else None)"
| "indexOf (c # cs) p =
     (if prefix p (c # cs) then Some 0 else map_option Suc (indexOf cs p))"

text \<open>\<^verbatim>\<open>s.includes(p)\<close>.\<close>

definition includesStr :: "string \<Rightarrow> string \<Rightarrow> bool" where
  "includesStr s p = (indexOf s p \<noteq> None)"

text \<open>
  The upper-case form of one character: the letters a to z and the Latin-1 letters
  U+00E0 to U+00FE (the division sign U+00F7 is no letter) move down by 32, and the
  sharp s U+00DF becomes ``SS''. Two letters have their capital beyond code unit 255, the
  micro sign U+00B5 (U+039C) and y with diaeresis U+00FF (U+0178): a \<^typ>\<open>char\<close>
  cannot hold it and they are left as they are, so for a text with one of them the
  upper-case form here differs from the program's in that letter.
\<close>

definition toUpperCaseChar :: "char \<Rightarrow> string" where
  "toUpperCaseChar c =
     (let n = (of_char c :: nat)
      in if n = 223 then ''SS''
         else if (97 \<le> n \<and> n \<le> 122) \<or> (224 \<le> n \<and> n \<le> 254 \<and> n \<noteq> 247)
           then [char_of (n - 32)]
         else [c])"

text \<open>\<^verbatim>\<open>s.toUpperCase()\<close>.\<close>

definition toUpperCase :: "string \<Rightarrow> string" where
  "toUpperCase s = concat (map toUpperCaseChar s)"

text \<open>
  The lower-case form of one character: the letters A to Z and the Latin-1 capitals
  U+00C0 to U+00DE (the multiplication sign U+00D7 is no letter) move up by 32.
\<close>

definition toLowerCaseChar :: "char \<Rightarrow> char" where
  "toLowerCaseChar c =
     (let n = (of_char c :: nat)
      in if (65 \<le> n \<and> n \<le> 90) \<or> (192 \<le> n \<and> n \<le> 222 \<and> n \<noteq> 215)
           then char_of (n + 32)
         else c)"

text \<open>\<^verbatim>\<open>s.toLowerCase()\<close>.\<close>

definition toLowerCase :: "string \<Rightarrow> string" where
  "toLowerCase s = map toLowerCaseChar s"

text \<open>
  The characters that \<^verbatim>\<open>trim\<close> strips and \<^verbatim>\<open>\s\<close> matches, white space and line
  terminators: tab, line feed, vertical tab, form feed, carriage return, space and the
  no-break space U+00A0.
\<close>

definition isWhiteSpace :: "char \<Rightarrow> bool" where
  "isWhiteSpace c =
     (c = CHR 0x09 \<or> c = CHR 0x0A \<or> c = CHR 0x0B \<or> c = CHR 0x0C \<or> c = CHR 0x0D
      \<or> c = CHR '' '' \<or> c = CHR 0xA0)"

text \<open>\<^verbatim>\<open>s.trim()\<close>.\<close>

definition trim :: "string \<Rightarrow> string" where
  "trim s = rev (dropWhile isWhiteSpace (rev (dropWhile isWhiteSpace s)))"

text \<open>
  The replacement text of \<^verbatim>\<open>s.replace(p, r)\<close> for a string pattern \<open>p\<close>: in \<open>r\<close>,
  \<^verbatim>\<open>$$\<close> stands for a dollar sign, \<^verbatim>\<open>$&\<close> for the matched text, \<^verbatim>\<open>$`\<close> for the
  text before the match and \<^verbatim>\<open>$'\<close> for the text after it. A string pattern has no
  capture groups, so every other use of \<^verbatim>\<open>$\<close> is literal.
\<close>

fun getSubstitution :: "string \<Rightarrow> string \<Rightarrow> string \<Rightarrow> string \<Rightarrow> string" where
  "getSubstitution m b a [] = []"
| "getSubstitution m b a [c] = [c]"
| "getSubstitution m b a (c # d # r) =
     (if c = CHR ''$'' then
        (if d = CHR ''$'' then CHR ''$'' # getSubstitution m b a r
         else if d = CHR ''&'' then m @ getSubstitution m b a r
         else if d = CHR 0x60 then b @ getSubstitution m b a r
         else if d = CHR 0x27 then a @ getSubstitution m b a r
         else c # getSubstitution m b a (d # r))
      else c # getSubstitution m b a (d # r))"

text \<open>\<^verbatim>\<open>s.replace(p, r)\<close> with a string pattern: only the first occurrence is replaced.\<close>

definition replace :: "string \<Rightarrow> string \<Rightarrow> string \<Rightarrow> string" where
  "replace s p r =
     (case indexOf s p of
        None \<Rightarrow> s
      | Some i \<Rightarrow>
          take i s
          @ getSubstitution p (take i s) (drop (i + length p) s) r
          @ drop (i + length p) s)"

text \<open>\<^verbatim>\<open>s.replace(/\s+/g, '-')\<close>: every maximal run of white space becomes one hyphen.\<close>

function replaceWhiteSpaceRuns :: "string \<Rightarrow> string" where
  "replaceWhiteSpaceRuns [] = []"
| "replaceWhiteSpaceRuns (c # cs) =
     (if isWhiteSpace c then CHR ''-'' # replaceWhiteSpaceRuns (dropWhile isWhiteSpace cs)
      else c # replaceWhiteSpaceRuns cs)"
  by pat_completeness auto
termination
  by (relation "measure length") (auto simp: length_dropWhile_le less_Suc_eq_le)

text \<open>\<^verbatim>\<open>s.split(c)[0]\<close> and \<^verbatim>\<open>s.split(c)[1]\<close> (the latter \<^verbatim>\<open>undefined\<close> without a \<open>c\<close>).\<close>

definition splitFirst :: "char \<Rightarrow> string \<Rightarrow> string" where
  "splitFirst c s = takeWhile (\<lambda>x. x \<noteq> c) s"

definition splitSecond :: "char \<Rightarrow> string \<Rightarrow> string option" where
  "splitSecond c s =
     (case dropWhile (\<lambda>x. x \<noteq> c) s of
        [] \<Rightarrow> None
      | _ # rest \<Rightarrow> Some (takeWhile (\<lambda>x. x \<noteq> c) rest))"

text \<open>
  \<^verbatim>\<open>s.match(/:(.*?);/)?.[1]\<close>: the text between the first colon that is followed, on
  the same line, by a semicolon, and that semicolon.
\<close>

definition isLineTerminator :: "char \<Rightarrow> bool" where
  "isLineTerminator c = (c = CHR 0x0A \<or> c = CHR 0x0D)"

fun matchMimeType :: "string \<Rightarrow> string option" where
  "matchMimeType [] = None"
| "matchMimeType (c # cs) =
     (if c = CHR '':'' then
        (let cap = takeWhile (\<lambda>x. x \<noteq> CHR '';'' \<and> \<not> isLineTerminator x) cs
         in case drop (length cap) cs of
              [] \<Rightarrow> matchMimeType cs
            | d # _ \<Rightarrow> if d = CHR '';'' then Some cap else matchMimeType cs)
      else matchMimeType cs)"

text \<open>
  An optional string (\<^verbatim>\<open>undefined\<close> or \<^verbatim>\<open>null\<close> is \<open>None\<close>) is truthy when it is there
  and not empty; \<^verbatim>\<open>x || d\<close> is \<open>orDefault x d\<close>.
\<close>

definition truthy :: "string option \<Rightarrow> bool" where
  "truthy x = (case x of None \<Rightarrow> False | Some s \<Rightarrow> s \<noteq> [])"

definition orDefault :: "string option \<Rightarrow> string \<Rightarrow> string" where
  "orDefault x d = (case x of None \<Rightarrow> d | Some s \<Rightarrow> if s \<noteq> [] then s else d)"

text \<open>A number inside a template literal: its decimal digits.\<close>

fun showNat :: "nat \<Rightarrow> string" where
  "showNat n =
     (if n < 10 then [char_of (48 + n)]
      else showNat (n div 10) @ [char_of (48 + n mod 10)])"

section \<open>Errors and the retry controller\<close>

text \<open>
  What \<^verbatim>\<open>runWithRetry\<close> reads of a thrown value: \<^verbatim>\<open>e.status\<close> (when it is a number)
  and \<^verbatim>\<open>e.message\<close> (when it is a string).
\<close>

record jserror =
  status :: "int option"
  message :: "string option"

text \<open>\<^verbatim>\<open>new Error(m)\<close>.\<close>

definition Error :: "string \<Rightarrow> jserror" where
  "Error m = \<lparr>status = None, message = Some m\<rparr>"

text \<open>
  What a run leaves behind, in order: an invocation of the wrapped operation, a message
  handed to \<^verbatim>\<open>onStatusUpdate\<close>, a \<^verbatim>\<open>delay(ms)\<close>, and a request \<open>'r\<close> that the
  wrapped operation sent to the remote service.
\<close>

datatype 'r event = Invoked | Status string | Waited nat | Remote 'r

text \<open>\<^verbatim>\<open>if (onStatusUpdate) onStatusUpdate(msg)\<close>; the flag says whether a sink was passed.\<close>

definition notify :: "bool \<Rightarrow> string \<Rightarrow> 'r event list" where
  "notify onStatusUpdate msg = (if onStatusUpdate then [Status msg] else [])"

definition isRateLimit :: "jserror \<Rightarrow> bool" where
  "isRateLimit e =
     (status e = Some 429
      \<or> (case message e of None \<Rightarrow> False | Some m \<Rightarrow> includesStr m ''429'')
      \<or> (case message e of None \<Rightarrow> False | Some m \<Rightarrow> includesStr (toLowerCase m) ''quota''))"

definition isServerOverload :: "jserror \<Rightarrow> bool" where
  "isServerOverload e =
     (status e = Some 503
      \<or> (case message e of None \<Rightarrow> False | Some m \<Rightarrow> includesStr m ''503''))"

definition retryMessage :: "nat \<Rightarrow> nat \<Rightarrow> string" where
  "retryMessage attempt retries =
     ''High traffic. Retrying in 10s... (Attempt '' @ showNat attempt @ ''/''
     @ showNat retries @ '')''"

text \<open>The body of the transient branch: status update, fixed wait, status update.\<close>

definition backoff :: "bool \<Rightarrow> nat \<Rightarrow> nat \<Rightarrow> 'r event list" where
  "backoff onStatusUpdate attempt retries =
     notify onStatusUpdate (retryMessage attempt retries)
     @ [Waited 10000]
     @ notify onStatusUpdate ''Resuming processing...''"

text \<open>
  The wrapped operation \<open>fn\<close> runs against the state \<open>'w\<close> of everything outside the
  program (the remote service): it returns its value or the error it threw, the new state
  and the requests it sent. \<^verbatim>\<open>runWithRetry\<close> is the loop entered with the counter
  \<open>attempt\<close>; the counter grows with every failure and the loop leaves once it exceeds
  \<open>retries\<close>, so the loop ends.
\<close>

function runWithRetryFrom ::
  "nat \<Rightarrow> ('w \<Rightarrow> (jserror + 'a) \<times> 'w \<times> 'r list) \<Rightarrow> bool \<Rightarrow> nat \<Rightarrow> 'w
   \<Rightarrow> (jserror + 'a) \<times> 'w \<times> 'r event list" where
  "runWithRetryFrom attempt fn onStatusUpdate retries w =
     (case fn w of
        (Inr v, w1, rs) \<Rightarrow> (Inr v, w1, Invoked # map Remote rs)
      | (Inl e, w1, rs) \<Rightarrow>
          if attempt + 1 > retries then (Inl e, w1, Invoked # map Remote rs)
          else if isRateLimit e \<or> isServerOverload e then
            (case runWithRetryFrom (attempt + 1) fn onStatusUpdate retries w1 of
               (res, w2, tr) \<Rightarrow>
                 (res, w2,
                  Invoked # map Remote rs @ backoff onStatusUpdate (attempt + 1) retries @ tr))
          else (Inl e, w1, Invoked # map Remote rs))"
  by pat_completeness auto
termination
  by (relation "measure (\<lambda>(attempt, fn, onStatusUpdate, retries, w). retries - attempt)") auto

definition runWithRetry ::
  "('w \<Rightarrow> (jserror + 'a) \<times> 'w \<times> 'r list) \<Rightarrow> bool \<Rightarrow> nat \<Rightarrow> 'w
   \<Rightarrow> (jserror + 'a) \<times> 'w \<times> 'r event list" where
  "runWithRetry fn onStatusUpdate retries w = runWithRetryFrom 0 fn onStatusUpdate retries w"

section \<open>Files, request parts and the two remote models\<close>

text \<open>
  A \<^verbatim>\<open>File\<close> as \<^verbatim>\<open>fileToGenerativePart\<close> sees it: the data URL that the
  \<^verbatim>\<open>FileReader\<close> yields, \<open>None\<close> when the reader fires \<^verbatim>\<open>onerror\<close>, and the
  file's \<^verbatim>\<open>type\<close>.
\<close>

record jsfile =
  readAsDataURL :: "string option"
  fileType :: string

text \<open>
  A part of a request: \<^verbatim>\<open>{ text }\<close> or \<^verbatim>\<open>{ inlineData: { data, mimeType } }\<close>, where
  \<^verbatim>\<open>data\<close> is \<^verbatim>\<open>undefined\<close> when the data URL has no comma.
\<close>

datatype part = TextPart string | InlineData "string option" string

text \<open>The reader rejects with its event, which has neither a status nor a message.\<close>

definition readerError :: jserror where
  "readerError = \<lparr>status = None, message = None\<rparr>"

definition fileToGenerativePart :: "jsfile \<Rightarrow> jserror + part" where
  "fileToGenerativePart f =
     (case readAsDataURL f of
        None \<Rightarrow> Inl readerError
      | Some base64String \<Rightarrow> Inr (InlineData (splitSecond CHR '','' base64String) (fileType f)))"

definition base64ToGenerativePart :: "string \<Rightarrow> part" where
  "base64ToGenerativePart base64DataUrl =
     InlineData (splitSecond CHR '','' base64DataUrl)
       (orDefault (matchMimeType base64DataUrl) ''image/png'')"

datatype imageSize = Size1K | Size2K | Size4K

text \<open>
  The request to the generator model: \<^verbatim>\<open>contents.parts\<close> and the \<^verbatim>\<open>imageConfig\<close>; the
  model name and the safety settings are the same in every request.
\<close>

record generatorRequest =
  contents :: "part list"
  imageSize :: imageSize
  aspectRatio :: string

datatype request = AnalyzerRequest "part list" | GeneratorRequest generatorRequest

text \<open>
  A part of a response, read only through \<^verbatim>\<open>part.inlineData\<close> and
  \<^verbatim>\<open>part.inlineData.data\<close>; a candidate with its \<^verbatim>\<open>content?.parts\<close>; a response with
  its \<^verbatim>\<open>candidates\<close> (none is \<open>[]\<close>) and its \<^verbatim>\<open>text\<close>.
\<close>

datatype responsePart = TextOut string | InlineOut "string option"

record candidate =
  contentParts :: "responsePart list option"

record generatorResponse =
  candidates :: "candidate list"
  responseText :: "string option"

text \<open>
  The value of \<^verbatim>\<open>JSON.parse\<close> as the analysis reads it: \<^verbatim>\<open>null\<close>, or a value with its
  \<^verbatim>\<open>description\<close> and \<^verbatim>\<open>filename\<close> properties (\<open>None\<close> when the property is missing).
\<close>

datatype json = JsonNull | JsonValue "string option" "string option"

text \<open>
  Everything the service calls and does not define: the two remote models, each a
  function of the credential, the request and the state of the world that answers with a
  response or throws, and \<^verbatim>\<open>JSON.parse\<close>.
\<close>

record 'w environment =
  analyzerModel :: "string \<Rightarrow> part list \<Rightarrow> 'w \<Rightarrow> (jserror + string option) \<times> 'w"
  generatorModel :: "string \<Rightarrow> generatorRequest \<Rightarrow> 'w \<Rightarrow> (jserror + generatorResponse) \<times> 'w"
  jsonParse :: "string \<Rightarrow> jserror + json"

section \<open>The analysis adapter\<close>

record analysis =
  description :: string
  filename :: string

definition ANALYSIS_PROMPT :: string where
  \<open>ANALYSIS_PROMPT = ''Analyze this product image.\<newline>      \<newline>      1. VISUAL DESCRIPTION: Write a concise paragraph describing the product's visual identity (logos, text, materials, colors, construction) to preserve in editing.\<newline>      2. FILENAME: Generate a filename in this format: "Brand-Design-Color-Category". Example: "Nike-AirMax90-Red-Sneakers". Use "Unknown" if brand is not visible.\<newline>      \<newline>      Return the result as a valid JSON object:\<newline>      {\<newline>        "description": "...",\<newline>        "filename": "..."\<newline>      }''\<close>

text \<open>Reading a property of \<^verbatim>\<open>null\<close> throws a \<^verbatim>\<open>TypeError\<close>.\<close>

definition nullPropertyError :: jserror where
  "nullPropertyError = Error ''Cannot read properties of null (reading 'description')''"

text \<open>One run of the operation that \<^verbatim>\<open>analyzeProductFeatures\<close> hands to the retry loop.\<close>

definition analyzeAttempt ::
  "'w environment \<Rightarrow> jsfile \<Rightarrow> string \<Rightarrow> 'w \<Rightarrow> (jserror + analysis) \<times> 'w \<times> request list" where
  "analyzeAttempt env f key w =
     (case fileToGenerativePart f of
        Inl e \<Rightarrow> (Inl e, w, [])
      | Inr imagePart \<Rightarrow>
          (let ps = [imagePart, TextPart ANALYSIS_PROMPT]
           in case analyzerModel env key ps w of
                (Inl e, w1) \<Rightarrow> (Inl e, w1, [AnalyzerRequest ps])
              | (Inr response, w1) \<Rightarrow>
                  (case jsonParse env (orDefault response ''{}'') of
                     Inl e \<Rightarrow> (Inl e, w1, [AnalyzerRequest ps])
                   | Inr JsonNull \<Rightarrow> (Inl nullPropertyError, w1, [AnalyzerRequest ps])
                   | Inr (JsonValue d n) \<Rightarrow>
                       (Inr \<lparr>description = orDefault d '''',
                             filename = orDefault n ''processed-product''\<rparr>,
                        w1, [AnalyzerRequest ps]))))"

definition analyzeProductFeatures ::
  "'w environment \<Rightarrow> jsfile \<Rightarrow> string option \<Rightarrow> bool \<Rightarrow> 'w
   \<Rightarrow> analysis \<times> 'w \<times> request event list" where
  "analyzeProductFeatures env f key onStatusUpdate w =
     (if \<not> truthy key then (\<lparr>description = '''', filename = ''product''\<rparr>, w, [])
      else
        (case runWithRetry (analyzeAttempt env f (the key)) onStatusUpdate 10 w of
           (Inr r, w1, tr) \<Rightarrow>
             (r, w1, notify onStatusUpdate ''Analyzing product identity...'' @ tr)
         | (Inl e, w1, tr) \<Rightarrow>
             (\<lparr>description = '''', filename = ''processed-product''\<rparr>, w1,
              notify onStatusUpdate ''Analyzing product identity...'' @ tr)))"

section \<open>The generation adapter\<close>

text \<open>The loop over \<^verbatim>\<open>responseParts\<close>: the first part with non-empty inline data.\<close>

fun firstInlineData :: "responsePart list \<Rightarrow> string option" where
  "firstInlineData [] = None"
| "firstInlineData (TextOut t # ps) = firstInlineData ps"
| "firstInlineData (InlineOut d # ps) =
     (if truthy d then Some (the d) else firstInlineData ps)"

text \<open>What \<^verbatim>\<open>callGeminiGenerator\<close> makes of a response.\<close>

definition extractImage :: "generatorResponse \<Rightarrow> jserror + string" where
  "extractImage response =
     (case candidates response of
        [] \<Rightarrow> Inl (Error ''No candidates returned from the model.'')
      | c # _ \<Rightarrow>
          (case firstInlineData (case contentParts c of None \<Rightarrow> [] | Some ps \<Rightarrow> ps) of
             Some d \<Rightarrow> Inr (''data:image/png;base64,'' @ d)
           | None \<Rightarrow>
               if truthy (responseText response)
               then Inl (Error (''Model returned text instead of image: ''
                                @ take 150 (the (responseText response)) @ ''...''))
               else Inl (Error ''No image generated.'')))"

definition generateAttempt ::
  "'w environment \<Rightarrow> part list \<Rightarrow> string \<Rightarrow> imageSize \<Rightarrow> string \<Rightarrow> 'w
   \<Rightarrow> (jserror + string) \<times> 'w \<times> request list" where
  "generateAttempt env ps key sz ratio w =
     (let req = \<lparr>contents = ps, imageSize = sz, aspectRatio = ratio\<rparr>
      in case generatorModel env key req w of
           (Inl e, w1) \<Rightarrow> (Inl e, w1, [GeneratorRequest req])
         | (Inr response, w1) \<Rightarrow> (extractImage response, w1, [GeneratorRequest req]))"

definition callGeminiGenerator ::
  "'w environment \<Rightarrow> part list \<Rightarrow> string option \<Rightarrow> imageSize \<Rightarrow> bool \<Rightarrow> string \<Rightarrow> 'w
   \<Rightarrow> (jserror + string) \<times> 'w \<times> request event list" where
  "callGeminiGenerator env ps key sz onStatusUpdate ratio w =
     (if \<not> truthy key then (Inl (Error ''API Key not provided.''), w, [])
      else runWithRetry (generateAttempt env ps (the key) sz ratio) onStatusUpdate 10 w)"

section \<open>The strategy dispatcher\<close>

datatype PresetType = GHOST_MANNEQUIN | LIFESTYLE | ANGLES | BG_REMOVE_REPAIR

text \<open>The \<^verbatim>\<open>id\<close>s of \<^verbatim>\<open>PRESETS\<close> in \<^verbatim>\<open>constants.tsx\<close>, the only field the service reads.\<close>

definition PRESETS :: "PresetType list" where
  "PRESETS = [GHOST_MANNEQUIN, ANGLES, BG_REMOVE_REPAIR, LIFESTYLE]"

text \<open>Of a \<^verbatim>\<open>SourceImage\<close> the service reads \<^verbatim>\<open>file\<close> and \<^verbatim>\<open>label\<close>.\<close>

record SourceImage =
  imageFile :: jsfile
  label :: string

record ProcessedImage =
  url :: string
  filename :: string

text \<open>
  The state that \<^verbatim>\<open>handleProcess\<close> reads in the application component
  (\<^verbatim>\<open>selectedPreset\<close> through its \<^verbatim>\<open>id\<close>).
\<close>

record appState =
  apiKey :: string
  sourceImages :: "SourceImage list"
  selectedPreset :: "PresetType option"
  customPrompt :: string
  imageQuality :: imageSize
  referenceImage :: "string option"
  selectedAngles :: "string list"
  bodyType :: string
  lifestyleRatio :: string
  isPortrait :: bool
  lifestyleEnv :: string
  lifestyleContext :: string

text \<open>
  The parameters of \<^verbatim>\<open>processImagesWithGemini\<close>; \<^verbatim>\<open>onStatusUpdate\<close> says whether a
  status sink was passed.
\<close>

record runArguments =
  sourceImages :: "SourceImage list"
  presetId :: PresetType
  customPrompt :: string
  apiKey :: "string option"
  imageQuality :: imageSize
  onStatusUpdate :: bool
  referenceImageBase64 :: "string option"
  targetAngles :: "string list option"
  bodyType :: "string option"
  targetAspectRatio :: string
  environment :: "string option"
  additionalContext :: "string option"

text \<open>
  \<^verbatim>\<open>xs.map(async (x, idx) => ...)\<close> followed by \<^verbatim>\<open>Promise.all\<close>. Every unit runs to
  its end whatever the others do. The units are run here one after the other in index
  order, each against the state the one before left; the environment may answer each
  call as it likes, so every assignment of answers to calls is covered, and only the
  order of the events of different units in the trace is fixed by this choice.
  \<^verbatim>\<open>Promise.all\<close> keeps the results in index order and rejects when a unit rejects,
  here with the error of the rejected unit of least index.
\<close>

fun mapAsync ::
  "('x \<Rightarrow> nat \<Rightarrow> 'w \<Rightarrow> (jserror + 'b) \<times> 'w \<times> 'e list) \<Rightarrow> 'x list \<Rightarrow> nat \<Rightarrow> 'w
   \<Rightarrow> (jserror + 'b) list \<times> 'w \<times> 'e list" where
  "mapAsync f [] idx w = ([], w, [])"
| "mapAsync f (x # xs) idx w =
     (case f x idx w of
        (r, w1, t1) \<Rightarrow>
          (case mapAsync f xs (idx + 1) w1 of
             (rs, w2, t2) \<Rightarrow> (r # rs, w2, t1 @ t2)))"

fun Promise_all :: "(jserror + 'b) list \<Rightarrow> jserror + 'b list" where
  "Promise_all [] = Inr []"
| "Promise_all (Inl e # rs) = Inl e"
| "Promise_all (Inr v # rs) =
     (case Promise_all rs of Inl e \<Rightarrow> Inl e | Inr vs \<Rightarrow> Inr (v # vs))"

definition useReferenceImage :: "runArguments \<Rightarrow> bool" where
  "useReferenceImage a = (truthy (referenceImageBase64 a) \<and> presetId a \<noteq> BG_REMOVE_REPAIR)"

definition selectedBodyType :: "runArguments \<Rightarrow> string" where
  "selectedBodyType a = orDefault (runArguments.bodyType a) ''Men''"

definition strictBodyInstruction :: "string \<Rightarrow> string" where
  "strictBodyInstruction sel =
     ''\<newline>\<newline>CRITICAL REQUIREMENT: The target body type for this generation is strict: ''
     @ toUpperCase sel
     @ ''. \<newline>If the prompt implies a human figure, model, or mannequin, it MUST match the ''
     @ sel
     @ '' anatomy and proportions. Do not generate any other gender or age group.''"

subsection \<open>Case 1: one unit per source image\<close>

definition augmentedPrompt :: "string \<Rightarrow> string \<Rightarrow> string \<Rightarrow> string" where
  "augmentedPrompt prompt sel d =
     replace prompt ''<BodyType>'' sel @ ''\<newline>'' @ strictBodyInstruction sel
     @ ''\<newline>\<newline>IMPORTANT - PRESERVE THESE DETECTED PRODUCT DETAILS:\<newline>'' @ d"

definition ghostRequestParts :: "runArguments \<Rightarrow> part \<Rightarrow> string \<Rightarrow> part list" where
  "ghostRequestParts a imgPart d =
     (if useReferenceImage a \<and> truthy (referenceImageBase64 a)
      then [TextPart ''INPUT 1: STYLE REFERENCE IMAGE. Use the lighting, background style, and mood from this image. DO NOT use the object in this image.'',
            base64ToGenerativePart (the (referenceImageBase64 a))]
      else [])
     @ [TextPart ''INPUT 2: PRODUCT IMAGE. This is the object to be processed.'',
        imgPart,
        TextPart (''TASK: '' @ augmentedPrompt (runArguments.customPrompt a) (selectedBodyType a) d)]"

definition ghostUnit ::
  "'w environment \<Rightarrow> runArguments \<Rightarrow> SourceImage \<Rightarrow> nat \<Rightarrow> 'w
   \<Rightarrow> (jserror + ProcessedImage) \<times> 'w \<times> request event list" where
  "ghostUnit env a img idx w =
     (let t1 = notify (onStatusUpdate a)
                 (''Analyzing image '' @ showNat (idx + 1) @ ''/''
                  @ showNat (length (runArguments.sourceImages a)) @ ''...'')
      in case analyzeProductFeatures env (imageFile img) (runArguments.apiKey a)
                (onStatusUpdate a) w of
           (an, w1, t2) \<Rightarrow>
             (let t3 = notify (onStatusUpdate a)
                         (''Generating image '' @ showNat (idx + 1) @ ''/''
                          @ showNat (length (runArguments.sourceImages a)) @ ''...'')
              in case fileToGenerativePart (imageFile img) of
                   Inl e \<Rightarrow> (Inl e, w1, t1 @ t2 @ t3)
                 | Inr imgPart \<Rightarrow>
                     (case callGeminiGenerator env (ghostRequestParts a imgPart (description an))
                             (runArguments.apiKey a) (runArguments.imageQuality a)
                             (onStatusUpdate a) ''3:4'' w1 of
                        (Inl e, w2, t4) \<Rightarrow> (Inl e, w2, t1 @ t2 @ t3 @ t4)
                      | (Inr u, w2, t4) \<Rightarrow>
                          (Inr \<lparr>url = u, filename = analysis.filename an\<rparr>, w2,
                           t1 @ t2 @ t3 @ t4))))"

subsection \<open>Cases 2 and 3: the shared context\<close>

text \<open>\<^verbatim>\<open>sourceImages.find(i => i.label === 'Front View') || sourceImages[0]\<close>.\<close>

definition primaryImg :: "SourceImage list \<Rightarrow> SourceImage option" where
  "primaryImg imgs =
     (case find (\<lambda>i. label i = ''Front View'') imgs of
        Some i \<Rightarrow> Some i
      | None \<Rightarrow> (case imgs of [] \<Rightarrow> None | i # _ \<Rightarrow> Some i))"

text \<open>Reading \<^verbatim>\<open>primaryImg.file\<close> when there is no image throws a \<^verbatim>\<open>TypeError\<close>.\<close>

definition undefinedFileError :: jserror where
  "undefinedFileError = Error ''Cannot read properties of undefined (reading 'file')''"

text \<open>The loop that pushes each image's viewpoint label and content.\<close>

fun viewpointParts :: "SourceImage list \<Rightarrow> jserror + part list" where
  "viewpointParts [] = Inr []"
| "viewpointParts (img # imgs) =
     (case fileToGenerativePart (imageFile img) of
        Inl e \<Rightarrow> Inl e
      | Inr p \<Rightarrow>
          (case viewpointParts imgs of
             Inl e \<Rightarrow> Inl e
           | Inr ps \<Rightarrow> Inr (TextPart (''Viewpoint: '' @ label img) # p # ps)))"

definition contextParts :: "runArguments \<Rightarrow> (jserror + part list) \<times> request event list" where
  "contextParts a =
     (let withRef = useReferenceImage a \<and> truthy (referenceImageBase64 a);
          t = (if withRef then notify (onStatusUpdate a) ''Processing style reference...''
               else []);
          refParts =
            (if withRef
             then [TextPart ''========================================\<newline>PART 1: STYLE REFERENCE\<newline>Use the following image ONLY for background style, lighting, and color grading. DO NOT generate the object found in this image.\<newline>========================================'',
                   base64ToGenerativePart (the (referenceImageBase64 a))]
             else [])
      in case viewpointParts (runArguments.sourceImages a) of
           Inl e \<Rightarrow> (Inl e, t)
         | Inr vs \<Rightarrow>
             (Inr (refParts
                   @ [TextPart ''========================================\<newline>PART 2: SOURCE PRODUCT IMAGES\<newline>The following images define the object you must generate. Preserve the identity, logos, and geometry of this object.\<newline>========================================'']
                   @ vs),
              t))"

subsection \<open>Case 2: one unit per angle\<close>

definition DEFAULT_ANGLES :: "string list" where
  "DEFAULT_ANGLES = [''Front View'', ''Side View'', ''3/4 Perspective View'']"

definition anglesToGenerate :: "string list option \<Rightarrow> string list" where
  "anglesToGenerate angles =
     (case angles of
        None \<Rightarrow> DEFAULT_ANGLES
      | Some xs \<Rightarrow> if length xs > 0 then xs else DEFAULT_ANGLES)"

definition angleInstruction :: "string \<Rightarrow> string" where
  "angleInstruction angle =
     (if angle = ''Combined Front and Back View Side-by-Side'' \<or> angle = ''Front & Back Composite''
      then ''Create a single composite image showing both the Front View and Back View of the product side-by-side. Ensure both sides are clearly visible, same size, and evenly lit on a white background.''
      else angle)"

definition anglePrompt :: "string \<Rightarrow> string \<Rightarrow> string" where
  "anglePrompt promptWithBodyType angle =
     (if includesStr promptWithBodyType ''{{ANGLE}}''
      then replace promptWithBodyType ''{{ANGLE}}'' (angleInstruction angle)
      else ''Generate view: '' @ angleInstruction angle @ ''. '' @ promptWithBodyType)"

definition anglePromptWithAnalysis :: "string \<Rightarrow> string \<Rightarrow> string \<Rightarrow> string \<Rightarrow> string" where
  "anglePromptWithAnalysis prompt sel angle d =
     anglePrompt (replace prompt ''<BodyType>'' sel) angle @ ''\<newline>''
     @ strictBodyInstruction sel
     @ ''\<newline>\<newline>IMPORTANT - PRESERVE THESE DETECTED PRODUCT DETAILS:\<newline>'' @ d"

text \<open>\<^verbatim>\<open>angle.split(' ')[0].toLowerCase().replace(/\s+/g, '-')\<close>.\<close>

definition angleSuffix :: "string \<Rightarrow> string" where
  "angleSuffix angle = replaceWhiteSpaceRuns (toLowerCase (splitFirst CHR '' '' angle))"

definition angleUnit ::
  "'w environment \<Rightarrow> runArguments \<Rightarrow> part list \<Rightarrow> analysis \<Rightarrow> string \<Rightarrow> nat \<Rightarrow> 'w
   \<Rightarrow> (jserror + ProcessedImage) \<times> 'w \<times> request event list" where
  "angleUnit env a ctx an angle idx w =
     (let requestParts =
            ctx @ [TextPart (''TASK: ''
                     @ anglePromptWithAnalysis (runArguments.customPrompt a)
                         (selectedBodyType a) angle (description an))];
          t1 = notify (onStatusUpdate a) (''Generating View: '' @ angle @ ''...'')
      in case callGeminiGenerator env requestParts (runArguments.apiKey a)
                (runArguments.imageQuality a) (onStatusUpdate a) ''3:4'' w of
           (Inl e, w1, t2) \<Rightarrow> (Inl e, w1, t1 @ t2)
         | (Inr u, w1, t2) \<Rightarrow>
             (Inr \<lparr>url = u, filename = analysis.filename an @ ''-'' @ angleSuffix angle\<rparr>,
              w1, t1 @ t2))"

subsection \<open>Case 3: one composite\<close>

text \<open>\<^verbatim>\<open>customPrompt.replace('{{PROMPT}}', '').trim() || customPrompt\<close>.\<close>

definition strippedPrompt :: "string \<Rightarrow> string" where
  "strippedPrompt prompt =
     (let stripped = trim (replace prompt ''{{PROMPT}}'' '''')
      in if stripped \<noteq> [] then stripped else prompt)"

text \<open>What the two \<^verbatim>\<open>cleanPrompt += ...\<close> append, each when its option is given.\<close>

definition sceneAddenda :: "runArguments \<Rightarrow> string" where
  "sceneAddenda a =
     (if truthy (environment a)
      then ''\<newline>\<newline>ENVIRONMENT SETTING: Place the product in an ''
           @ the (environment a) @ '' setting.''
      else [])
     @ (if truthy (additionalContext a)
        then ''\<newline>\<newline>SPECIFIC SCENE DETAILS: '' @ the (additionalContext a)
        else [])"

definition cleanPrompt :: "runArguments \<Rightarrow> string" where
  "cleanPrompt a =
     replace (strippedPrompt (runArguments.customPrompt a)) ''<BodyType>'' (selectedBodyType a)
     @ sceneAddenda a"

definition finalPromptWithAnalysis :: "runArguments \<Rightarrow> string \<Rightarrow> string" where
  "finalPromptWithAnalysis a d =
     (if presetId a = LIFESTYLE
      then ''COMPOSITE TASK: '' @ cleanPrompt a @ ''\<newline>''
           @ strictBodyInstruction (selectedBodyType a)
           @ ''\<newline>\<newline>STRICT REQUIREMENT: The object in the input image is the SOURCE OF TRUTH. Do not regenerate the geometry, text, or logos. You are a compositor, not a designer. Maintain these exact details:\<newline>''
           @ d
      else cleanPrompt a
           @ ''\<newline>\<newline>IMPORTANT - PRESERVE THESE DETECTED PRODUCT DETAILS:\<newline>'' @ d)"

definition singleGeneration ::
  "'w environment \<Rightarrow> runArguments \<Rightarrow> part list \<Rightarrow> analysis \<Rightarrow> 'w
   \<Rightarrow> (jserror + ProcessedImage list) \<times> 'w \<times> request event list" where
  "singleGeneration env a ctx an w =
     (let requestParts = ctx @ [TextPart (''TASK: '' @ finalPromptWithAnalysis a (description an))];
          t1 = notify (onStatusUpdate a) ''Generating final high-quality asset...''
      in case callGeminiGenerator env requestParts (runArguments.apiKey a)
                (runArguments.imageQuality a) (onStatusUpdate a) (targetAspectRatio a) w of
           (Inl e, w1, t2) \<Rightarrow> (Inl e, w1, t1 @ t2)
         | (Inr u, w1, t2) \<Rightarrow>
             (Inr [\<lparr>url = u, filename = analysis.filename an\<rparr>], w1, t1 @ t2))"

subsection \<open>The run operation\<close>

definition multiImage ::
  "'w environment \<Rightarrow> runArguments \<Rightarrow> 'w
   \<Rightarrow> (jserror + ProcessedImage list) \<times> 'w \<times> request event list" where
  "multiImage env a w =
     (let t0 = notify (onStatusUpdate a) ''Analyzing primary product features...''
      in case primaryImg (runArguments.sourceImages a) of
           None \<Rightarrow> (Inl undefinedFileError, w, t0)
         | Some p \<Rightarrow>
             (case analyzeProductFeatures env (imageFile p) (runArguments.apiKey a)
                     (onStatusUpdate a) w of
                (an, w1, t1) \<Rightarrow>
                  (case contextParts a of
                     (Inl e, t2) \<Rightarrow> (Inl e, w1, t0 @ t1 @ t2)
                   | (Inr ctx, t2) \<Rightarrow>
                       if presetId a = ANGLES then
                         (case mapAsync (angleUnit env a ctx an)
                                 (anglesToGenerate (targetAngles a)) 0 w1 of
                            (rs, w2, t3) \<Rightarrow> (Promise_all rs, w2, t0 @ t1 @ t2 @ t3))
                       else
                         (case singleGeneration env a ctx an w1 of
                            (r, w2, t3) \<Rightarrow> (r, w2, t0 @ t1 @ t2 @ t3)))))"

definition processImagesWithGemini ::
  "'w environment \<Rightarrow> runArguments \<Rightarrow> 'w
   \<Rightarrow> (jserror + ProcessedImage list) \<times> 'w \<times> request event list" where
  "processImagesWithGemini env a w =
     (case find (\<lambda>p. p = presetId a) PRESETS of
        None \<Rightarrow> (Inl (Error ''Invalid preset selected''), w, [])
      | Some preset \<Rightarrow>
          if presetId a = GHOST_MANNEQUIN then
            (case mapAsync (ghostUnit env a) (runArguments.sourceImages a) 0 w of
               (rs, w1, tr) \<Rightarrow> (Promise_all rs, w1, tr))
          else multiImage env a w)"

section \<open>The caller: \<^verbatim>\<open>handleProcess\<close>\<close>

text \<open>The block that calculates the aspect ratio string for the API.\<close>

definition resolveAspectRatio :: "PresetType \<Rightarrow> string \<Rightarrow> bool \<Rightarrow> string" where
  "resolveAspectRatio preset ratio portrait =
     (if preset = LIFESTYLE then
        (if ratio = ''1:1'' then ''1:1''
         else if ratio = ''4:3'' then (if portrait then ''3:4'' else ''4:3'')
         else if ratio = ''16:9'' then (if portrait then ''9:16'' else ''16:9'')
         else ''1:1'')
      else ''1:1'')"

text \<open>
  \<^verbatim>\<open>handleProcess\<close> up to the result of the run it starts: \<open>None\<close> when it returns
  before starting one. What it writes to the component's state is left out.
\<close>

definition handleProcess ::
  "'w environment \<Rightarrow> appState \<Rightarrow> 'w
   \<Rightarrow> ((jserror + ProcessedImage list) \<times> 'w \<times> request event list) option" where
  "handleProcess env st w =
     (if appState.apiKey st = [] then None
      else if length (appState.sourceImages st) = 0 \<or> selectedPreset st = None then None
      else Some (processImagesWithGemini env
             \<lparr>sourceImages = appState.sourceImages st,
              presetId = the (selectedPreset st),
              customPrompt = appState.customPrompt st,
              apiKey = Some (appState.apiKey st),
              imageQuality = appState.imageQuality st,
              onStatusUpdate = True,
              referenceImageBase64 = referenceImage st,
              targetAngles = Some (selectedAngles st),
              bodyType = Some (appState.bodyType st),
              targetAspectRatio =
                resolveAspectRatio (the (selectedPreset st)) (lifestyleRatio st) (isPortrait st),
              environment = Some (lifestyleEnv st),
              additionalContext = Some (lifestyleContext st)\<rparr> w))"

section \<open>Vocabulary of the properties\<close>

text \<open>The kinds of event in a trace.\<close>

definition isRemote :: "'r event \<Rightarrow> bool" where
  "isRemote ev = (case ev of Remote _ \<Rightarrow> True | _ \<Rightarrow> False)"

definition isWait :: "'r event \<Rightarrow> bool" where
  "isWait ev = (case ev of Waited _ \<Rightarrow> True | _ \<Rightarrow> False)"

text \<open>The test of the transient branch of \<^verbatim>\<open>runWithRetry\<close>.\<close>

definition isTransient :: "jserror \<Rightarrow> bool" where
  "isTransient e = (isRateLimit e \<or> isServerOverload e)"

text \<open>The state an invocation of the wrapped operation leaves.\<close>

definition nextWorld :: "('w \<Rightarrow> (jserror + 'a) \<times> 'w \<times> 'r list) \<Rightarrow> 'w \<Rightarrow> 'w" where
  "nextWorld fn w = fst (snd (fn w))"

text \<open>An operation that fails on every invocation with an error of the transient class.\<close>

definition alwaysTransient :: "('w \<Rightarrow> (jserror + 'a) \<times> 'w \<times> 'r list) \<Rightarrow> bool" where
  "alwaysTransient fn = (\<forall>w. \<exists>e. fst (fn w) = Inl e \<and> isTransient e)"

section \<open>Concrete operations and environments\<close>

text \<open>
  An operation that fails once, with the message of an exhausted quota as a provider
  writes it, and succeeds from then on.
\<close>

definition quotaError :: jserror where
  "quotaError = \<lparr>status = None, message = Some ''Quota exceeded''\<rparr>"

definition fnQuotaOnce :: "nat \<Rightarrow> (jserror + bool) \<times> nat \<times> string list" where
  "fnQuotaOnce w = (if w = 0 then (Inl quotaError, 1, []) else (Inr True, Suc w, []))"

text \<open>An operation that always fails with the error of a missing candidate.\<close>

definition fnNoCandidates :: "nat \<Rightarrow> (jserror + bool) \<times> nat \<times> string list" where
  "fnNoCandidates w = (Inl (Error ''No candidates returned from the model.''), Suc w, [])"



text \<open>A generator model that answers every request with the response \<open>r\<close>.\<close>

definition alwaysAnswers :: "'w environment \<Rightarrow> generatorResponse \<Rightarrow> bool" where
  "alwaysAnswers env r = (\<forall>k req w. fst (generatorModel env k req w) = Inr r)"

text \<open>Source images whose files the reader can read.\<close>

definition readable :: "SourceImage list \<Rightarrow> bool" where
  "readable imgs = list_all (\<lambda>img. readAsDataURL (imageFile img) \<noteq> None) imgs"

text \<open>The generator requests of a trace, in order.\<close>

fun generatorRequests :: "request event list \<Rightarrow> generatorRequest list" where
  "generatorRequests [] = []"
| "generatorRequests (Remote (GeneratorRequest r) # evs) = r # generatorRequests evs"
| "generatorRequests (_ # evs) = generatorRequests evs"

text \<open>
  The number of generation units of a run: one for each source image, one for each
  angle, or the one composite.
\<close>

definition generationUnits :: "runArguments \<Rightarrow> nat" where
  "generationUnits a =
     (if presetId a = GHOST_MANNEQUIN then length (runArguments.sourceImages a)
      else if presetId a = ANGLES then length (anglesToGenerate (targetAngles a))
      else 1)"

text \<open>Responses of the generator model: one inline image, or text alone.\<close>

definition imageResponse :: "string \<Rightarrow> generatorResponse" where
  "imageResponse d =
     \<lparr>candidates = [\<lparr>contentParts = Some [InlineOut (Some d)]\<rparr>], responseText = None\<rparr>"


text \<open>Two answers of the analyzer model and \<^verbatim>\<open>JSON.parse\<close> on the texts used here.\<close>

definition jsonRed :: string where
  \<open>jsonRed = ''{"description":"red shoe","filename":"Acme-Runner-Red-Sneakers"}''\<close>

definition jsonBlue :: string where
  \<open>jsonBlue = ''{"description":"blue hat","filename":"Acme-Cap-Blue-Hats"}''\<close>

definition parseFixture :: "string \<Rightarrow> jserror + json" where
  "parseFixture text =
     (if text = ''{}'' then Inr (JsonValue None None)
      else if text = jsonRed
        then Inr (JsonValue (Some ''red shoe'') (Some ''Acme-Runner-Red-Sneakers''))
      else if text = jsonBlue
        then Inr (JsonValue (Some ''blue hat'') (Some ''Acme-Cap-Blue-Hats''))
      else Inl (Error ''Unexpected token''))"

text \<open>
  Environments over a counter of remote calls. In \<open>envAlways r\<close> the analyzer answers
  without text and the generator always with \<open>r\<close>; in \<open>envQuotaThenImage\<close> the
  generator answers the first call with text alone and every later call with an image;
  in \<open>envByImage\<close> the analyzer describes the image it is shown and the generator
  answers with an image.
\<close>

definition envAlways :: "generatorResponse \<Rightarrow> nat environment" where
  "envAlways r =
     \<lparr>analyzerModel = (\<lambda>k ps w. (Inr None, Suc w)),
      generatorModel = (\<lambda>k req w. (Inr r, Suc w)),
      jsonParse = parseFixture\<rparr>"


definition envByImage :: "nat environment" where
  "envByImage =
     \<lparr>analyzerModel =
        (\<lambda>k ps w. case ps of
                     InlineData (Some d) m # _ \<Rightarrow>
                       if d = ''QUFB'' then (Inr (Some jsonRed), Suc w)
                       else (Inr (Some jsonBlue), Suc w)
                   | _ \<Rightarrow> (Inr None, Suc w)),
      generatorModel = (\<lambda>k req w. (Inr (imageResponse ''QUJD''), Suc w)),
      jsonParse = parseFixture\<rparr>"

text \<open>Two source images and the arguments of a run over them.\<close>

definition imageA :: SourceImage where
  "imageA =
     \<lparr>imageFile = \<lparr>readAsDataURL = Some ''data:image/png;base64,QUFB'', fileType = ''image/png''\<rparr>,
      label = ''Front View''\<rparr>"

definition imageB :: SourceImage where
  "imageB =
     \<lparr>imageFile = \<lparr>readAsDataURL = Some ''data:image/png;base64,QkJC'', fileType = ''image/png''\<rparr>,
      label = ''Back View''\<rparr>"

definition sampleRun :: "PresetType \<Rightarrow> SourceImage list \<Rightarrow> string \<Rightarrow> runArguments" where
  "sampleRun preset imgs prompt =
     \<lparr>sourceImages = imgs, presetId = preset, customPrompt = prompt, apiKey = Some ''key'',
      imageQuality = Size1K, onStatusUpdate = False, referenceImageBase64 = None,
      targetAngles = None, bodyType = None, targetAspectRatio = ''1:1'',
      environment = None, additionalContext = None\<rparr>"

text \<open>
  An environment whose analyzer meets every request with the same outcome \<open>x\<close>, an
  error or a text, and whose generator answers with an image.
\<close>

definition envAnalyzer :: "jserror + string option \<Rightarrow> nat environment" where
  "envAnalyzer x =
     \<lparr>analyzerModel = (\<lambda>k ps w. (x, Suc w)),
      generatorModel = (\<lambda>k req w. (Inr (imageResponse ''QUJD''), Suc w)),
      jsonParse = parseFixture\<rparr>"

definition serviceUnavailable :: jserror where
  "serviceUnavailable = \<lparr>status = Some 503, message = Some ''Service Unavailable''\<rparr>"

text \<open>
  An operation that fails on every invocation and counts its invocations: with status
  503 on the even ones, with the message of an exhausted quota on the odd ones.
\<close>

definition fnBusy :: "nat \<Rightarrow> (jserror + bool) \<times> nat \<times> string list" where
  "fnBusy w =
     (if even w then Inl serviceUnavailable else Inl (Error ''You exceeded your current quota''),
      Suc w, [])"


text \<open>The text of the task a generator request ends with.\<close>

definition taskOf :: "generatorRequest \<Rightarrow> part" where
  "taskOf r = last (contents r)"

text \<open>A state of the application component with a credential and one source image.\<close>

definition sampleState :: "PresetType \<Rightarrow> string \<Rightarrow> bool \<Rightarrow> appState" where
  "sampleState preset ratio portrait =
     \<lparr>appState.apiKey = ''key'', appState.sourceImages = [imageA],
      selectedPreset = Some preset, appState.customPrompt = ''Show it'',
      appState.imageQuality = Size1K, referenceImage = None,
      selectedAngles = [''Front View'', ''Side View''], appState.bodyType = ''Men'',
      lifestyleRatio = ratio, isPortrait = portrait, lifestyleEnv = ''Outdoor'',
      lifestyleContext = ''''\<rparr>"




section \<open>Texts beyond ASCII\<close>

text \<open>
  The no-break space is white space for \<^verbatim>\<open>trim\<close> and for \<^verbatim>\<open>\s\<close>, and the Latin-1
  letters change case (the multiplication and the division sign do not).
\<close>

lemma latin1_texts:
  "trim ([CHR 0xA0] @ ''<BodyType> x <BodyType>'' @ [CHR 0xA0, CHR 0x0A])
     = ''<BodyType> x <BodyType>''
   \<and> angleSuffix (''Top'' @ [CHR 0xA0] @ ''Down View'') = ''top-down''
   \<and> toLowerCase [CHR 0xC9, CHR 0xD7, CHR 0xDE] = [CHR 0xE9, CHR 0xD7, CHR 0xFE]
   \<and> toUpperCase [CHR 0xE9, CHR 0xF7, CHR 0xDF] = [CHR 0xC9, CHR 0xF7] @ ''SS''"
  by code_simp

section \<open>The retry controller\<close>

declare runWithRetryFrom.simps [simp del]

declare showNat.simps [simp del]

lemma isRemote_simps [simp]:
  "isRemote Invoked = False" "isRemote (Status m) = False" "isRemote (Waited n) = False"
  "isRemote (Remote r) = True"
  by (simp_all add: isRemote_def)

lemma isWait_simps [simp]:
  "isWait Invoked = False" "isWait (Status m) = False" "isWait (Waited n) = True"
  "isWait (Remote r) = False"
  by (simp_all add: isWait_def)

lemma filter_not_remote_map [simp]: "filter (\<lambda>ev. \<not> isRemote ev) (map Remote rs) = []"
  by (induction rs) auto

lemma backoff_not_remote [simp]: "filter (\<lambda>ev. \<not> isRemote ev) (backoff s k n) = backoff s k n"
  by (auto simp: backoff_def notify_def)

text \<open>One round of the loop, by the outcome of the invocation.\<close>

lemma retry_step_transient:
  assumes "fst (fn w) = Inl e" "isTransient e" "attempt < retries"
  shows "runWithRetryFrom attempt fn s retries w =
     (case runWithRetryFrom (Suc attempt) fn s retries (nextWorld fn w) of
        (res, w2, tr) \<Rightarrow>
          (res, w2,
           Invoked # map Remote (snd (snd (fn w))) @ backoff s (Suc attempt) retries @ tr))"
  using assms
  by (subst runWithRetryFrom.simps)
     (auto simp: nextWorld_def isTransient_def split: prod.splits sum.splits)

lemma retry_step_exhausted:
  assumes "fn w = (Inl e, w1, rs)" "retries \<le> attempt"
  shows "runWithRetryFrom attempt fn s retries w = (Inl e, w1, Invoked # map Remote rs)"
  using assms by (subst runWithRetryFrom.simps) auto

lemma retry_step_terminal:
  assumes "fn w = (Inl e, w1, rs)" "\<not> isTransient e"
  shows "runWithRetryFrom attempt fn s retries w = (Inl e, w1, Invoked # map Remote rs)"
  using assms by (subst runWithRetryFrom.simps) (auto simp: isTransient_def)

lemma retry_step_success:
  assumes "fn w = (Inr v, w1, rs)"
  shows "runWithRetryFrom attempt fn s retries w = (Inr v, w1, Invoked # map Remote rs)"
  using assms by (subst runWithRetryFrom.simps) auto

text \<open>
  Against an operation that always fails transiently the loop started with the counter
  at \<open>attempt\<close> makes \<open>retries - attempt\<close> rounds and one last invocation.
\<close>

lemma transient_run:
  assumes "alwaysTransient fn"
  shows "d = retries - attempt \<Longrightarrow> attempt \<le> retries \<Longrightarrow>
    (case runWithRetryFrom attempt fn s retries w of (res, w', tr) \<Rightarrow>
       res = fst (fn ((nextWorld fn ^^ d) w)) \<and>
       w' = (nextWorld fn ^^ Suc d) w \<and>
       filter (\<lambda>ev. \<not> isRemote ev) tr =
         concat (map (\<lambda>k. Invoked # backoff s k retries) [Suc attempt..<Suc retries])
         @ [Invoked])"
proof (induction d arbitrary: attempt w)
  case 0
  then have eq: "attempt = retries" by simp
  obtain r w1 rs where f: "fn w = (r, w1, rs)" by (cases "fn w") auto
  from assms obtain e where "fst (fn w) = Inl e" unfolding alwaysTransient_def by blast
  with f have f': "fn w = (Inl e, w1, rs)" by simp
  have "runWithRetryFrom attempt fn s retries w = (Inl e, w1, Invoked # map Remote rs)"
    using f' eq by (intro retry_step_exhausted) auto
  then show ?case using eq f' 0
    by (simp add: nextWorld_def)
next
  case (Suc d)
  then have lt: "attempt < retries" and d: "d = retries - Suc attempt" by auto
  from assms obtain e where e: "fst (fn w) = Inl e" "isTransient e"
    unfolding alwaysTransient_def by blast
  have ih: "case runWithRetryFrom (Suc attempt) fn s retries (nextWorld fn w) of
      (res, w', tr) \<Rightarrow>
       res = fst (fn ((nextWorld fn ^^ d) (nextWorld fn w))) \<and>
       w' = (nextWorld fn ^^ Suc d) (nextWorld fn w) \<and>
       filter (\<lambda>ev. \<not> isRemote ev) tr =
         concat (map (\<lambda>k. Invoked # backoff s k retries) [Suc (Suc attempt)..<Suc retries])
         @ [Invoked]"
    using Suc.IH[OF d, of "nextWorld fn w"] lt by simp
  have up: "[Suc attempt..<Suc retries] = Suc attempt # [Suc (Suc attempt)..<Suc retries]"
    using lt by (simp add: upt_conv_Cons)
  have step: "runWithRetryFrom attempt fn s retries w =
     (case runWithRetryFrom (Suc attempt) fn s retries (nextWorld fn w) of
        (res, w2, tr) \<Rightarrow>
          (res, w2,
           Invoked # map Remote (snd (snd (fn w))) @ backoff s (Suc attempt) retries @ tr))"
    using e lt by (rule retry_step_transient)
  show ?case
    using ih unfolding step up
    by (auto simp: funpow_swap1 split: prod.splits)
qed

lemma filter_through_not_remote:
  assumes "\<And>ev. P ev \<Longrightarrow> \<not> isRemote ev"
  shows "filter P tr = filter P (filter (\<lambda>ev. \<not> isRemote ev) tr)"
  using assms by (induction tr) auto

lemma invoked_count_rounds:
  "length (filter (\<lambda>ev. ev = Invoked)
     (concat (map (\<lambda>k. Invoked # backoff s k n) ks) @ [Invoked]))
   = Suc (length ks)"
  by (induction ks) (auto simp: backoff_def notify_def)

lemma waits_rounds:
  "filter isWait (concat (map (\<lambda>k. Invoked # backoff s k n) ks) @ [Invoked])
   = replicate (length ks) (Waited 10000)"
  by (induction ks) (auto simp: backoff_def notify_def)

lemma runWithRetryFrom_events:
  "d = retries - attempt \<Longrightarrow>
   ev \<in> set (snd (snd (runWithRetryFrom attempt fn s retries w))) \<Longrightarrow>
     ev = Invoked \<or> (\<exists>m. ev = Status m) \<or> ev = Waited 10000
     \<or> (\<exists>w' r. ev = Remote r \<and> r \<in> set (snd (snd (fn w'))))"
proof (induction d arbitrary: attempt w)
  case 0
  obtain res w1 rs where f: "fn w = (res, w1, rs)" by (cases "fn w") auto
  from 0 have ex: "retries \<le> attempt" by simp
  have "runWithRetryFrom attempt fn s retries w = (res, w1, Invoked # map Remote rs)"
  proof (cases res)
    case (Inr v) then show ?thesis using f by (simp add: retry_step_success)
  next
    case (Inl e) then show ?thesis using f ex by (simp add: retry_step_exhausted)
  qed
  with 0(2) consider "ev = Invoked" | r where "ev = Remote r" "r \<in> set rs" by auto
  then show ?case
  proof cases
    case 2
    then have "r \<in> set (snd (snd (fn w)))" using f by simp
    with 2 show ?thesis by blast
  qed simp
next
  case (Suc d)
  obtain res w1 rs where f: "fn w = (res, w1, rs)" by (cases "fn w") auto
  from Suc have lt: "attempt < retries" and d: "d = retries - Suc attempt" by auto
  have own: "ev \<in> set (Invoked # map Remote rs) \<Longrightarrow> ?case"
  proof -
    assume "ev \<in> set (Invoked # map Remote rs)"
    then consider "ev = Invoked" | r where "ev = Remote r" "r \<in> set rs" by auto
    then show ?case
    proof cases
      case 2
      then have "r \<in> set (snd (snd (fn w)))" using f by simp
      with 2 show ?thesis by blast
    qed simp
  qed
  show ?case
  proof (cases res)
    case (Inr v)
    then have "runWithRetryFrom attempt fn s retries w = (Inr v, w1, Invoked # map Remote rs)"
      using f by (simp add: retry_step_success)
    with Suc(3) own show ?thesis by simp
  next
    case (Inl e)
    show ?thesis
    proof (cases "isTransient e")
      case False
      then have "runWithRetryFrom attempt fn s retries w = (Inl e, w1, Invoked # map Remote rs)"
        using f Inl by (simp add: retry_step_terminal)
      with Suc(3) own show ?thesis by simp
    next
      case True
      have fe: "fst (fn w) = Inl e" using f Inl by simp
      obtain res' w2 tr where
        r: "runWithRetryFrom (Suc attempt) fn s retries (nextWorld fn w) = (res', w2, tr)"
        by (cases "runWithRetryFrom (Suc attempt) fn s retries (nextWorld fn w)") auto
      have "runWithRetryFrom attempt fn s retries w =
          (res', w2, Invoked # map Remote rs @ backoff s (Suc attempt) retries @ tr)"
        using retry_step_transient[where fn=fn and w=w and e=e and attempt=attempt
            and retries=retries and s=s] fe True lt r f
        by simp
      with Suc(3) have "ev \<in> set (Invoked # map Remote rs)
          \<or> ev \<in> set (backoff s (Suc attempt) retries) \<or> ev \<in> set tr"
        by auto
      then show ?thesis
      proof (elim disjE)
        assume "ev \<in> set tr"
        then have "ev \<in> set (snd (snd (runWithRetryFrom (Suc attempt) fn s retries
            (nextWorld fn w))))"
          using r by simp
        with Suc.IH[OF d] show ?thesis by blast
      next
        assume "ev \<in> set (Invoked # map Remote rs)"
        then show ?thesis by (rule own)
      qed (auto simp: backoff_def notify_def split: if_splits)
    qed
  qed
qed

lemma runWithRetry_events:
  assumes "ev \<in> set (snd (snd (runWithRetry fn s retries w)))"
  shows "ev = Invoked \<or> (\<exists>m. ev = Status m) \<or> ev = Waited 10000
     \<or> (\<exists>w' r. ev = Remote r \<and> r \<in> set (snd (snd (fn w'))))"
proof -
  from assms have "ev \<in> set (snd (snd (runWithRetryFrom 0 fn s retries w)))"
    by (simp add: runWithRetry_def)
  then show ?thesis by (rule runWithRetryFrom_events[OF refl])
qed

lemma includesStr_sublist: "includesStr s p \<longleftrightarrow> sublist p s"
  unfolding includesStr_def
  by (induction s) (auto simp: sublist_Cons_right)

lemma includesStr_toLowerCase_quota:
  assumes "includesStr m ''quota''"
  shows "includesStr (toLowerCase m) ''quota''"
proof -
  from assms obtain xs ys where "m = xs @ ''quota'' @ ys"
    by (auto simp: includesStr_sublist sublist_def)
  then have "toLowerCase m = toLowerCase xs @ toLowerCase ''quota'' @ toLowerCase ys"
    by (simp add: toLowerCase_def)
  moreover have "toLowerCase ''quota'' = ''quota''" by code_simp
  ultimately show ?thesis
    unfolding includesStr_sublist sublist_def by metis
qed

text \<open>The errors that the claim names are of the class that the loop retries.\<close>

lemma named_class_transient:
  assumes "status e = Some 429 \<or> status e = Some 503
     \<or> (\<exists>m. message e = Some m
          \<and> (includesStr m ''429'' \<or> includesStr m ''503'' \<or> includesStr m ''quota''))"
  shows "isTransient e"
  using assms includesStr_toLowerCase_quota
  by (auto simp: isTransient_def isRateLimit_def isServerOverload_def)

lemma rounds_explicit:
  "concat (map (\<lambda>k. Invoked # backoff sink k retries) ks)
   = concat (map (\<lambda>k. Invoked
        # (if sink
           then [Status (''High traffic. Retrying in 10s... (Attempt '' @ showNat k @ ''/''
                         @ showNat retries @ '')'')]
           else [])
        @ [Waited 10000]
        @ (if sink then [Status ''Resuming processing...''] else [])) ks)"
  by (simp add: backoff_def notify_def retryMessage_def)

text \<open>
  Claim C1. An operation that fails on every invocation with an error of the class the
  claim names (its status is 429 or 503, or its message has ``429'', ``503'' or ``quota''
  in it) is invoked exactly \<open>retries + 1\<close> times, eleven times with the default of
  ten retries. Between two invocations the loop waits once, for 10000 ms, so it waits
  exactly \<open>retries\<close> times. When a status sink was passed, the wait of round \<open>k\<close>
  is preceded by the message ``High traffic. Retrying in 10s... (Attempt k/retries)'' and
  followed by ``Resuming processing...''; without a sink there is no message. Apart from
  the requests of the operation itself the trace is exactly these rounds, from 1 to
  \<open>retries\<close>, and the last invocation. The loop then rethrows the error of that
  last invocation. And whatever the class of an error, once the counter has reached
  \<open>retries\<close> the next failure is rethrown at once.
\<close>

theorem runWithRetry_transient_bound:
  "((\<forall>w. \<exists>e. fst (fn w) = Inl e
          \<and> (status e = Some 429 \<or> status e = Some 503
             \<or> (\<exists>m. message e = Some m
                  \<and> (includesStr m ''429'' \<or> includesStr m ''503''
                     \<or> includesStr m ''quota''))))
     \<longrightarrow>
     (case runWithRetry fn sink retries w of
        (res, w', tr) \<Rightarrow>
          res = fst (fn ((nextWorld fn ^^ retries) w))
          \<and> (\<exists>e. res = Inl e)
          \<and> w' = (nextWorld fn ^^ Suc retries) w
          \<and> length (filter (\<lambda>ev. ev = Invoked) tr) = retries + 1
          \<and> filter isWait tr = replicate retries (Waited 10000)
          \<and> filter (\<lambda>ev. \<not> isRemote ev) tr
              = concat (map (\<lambda>k. Invoked
                    # (if sink
                       then [Status (''High traffic. Retrying in 10s... (Attempt ''
                                     @ showNat k @ ''/'' @ showNat retries @ '')'')]
                       else [])
                    @ [Waited 10000]
                    @ (if sink then [Status ''Resuming processing...''] else []))
                  [1..<Suc retries])
                @ [Invoked]))
   \<and> (\<forall>attempt e w1 rs. retries \<le> attempt \<and> fn w = (Inl e, w1, rs)
        \<longrightarrow> runWithRetryFrom attempt fn sink retries w
            = (Inl e, w1, Invoked # map Remote rs))"
proof (intro conjI impI allI)
  assume named: "\<forall>w. \<exists>e. fst (fn w) = Inl e
          \<and> (status e = Some 429 \<or> status e = Some 503
             \<or> (\<exists>m. message e = Some m
                  \<and> (includesStr m ''429'' \<or> includesStr m ''503''
                     \<or> includesStr m ''quota'')))"
  have at: "alwaysTransient fn"
    unfolding alwaysTransient_def
  proof
    fix w
    from named obtain e where e: "fst (fn w) = Inl e"
      and c: "status e = Some 429 \<or> status e = Some 503
             \<or> (\<exists>m. message e = Some m
                  \<and> (includesStr m ''429'' \<or> includesStr m ''503''
                     \<or> includesStr m ''quota''))"
      by blast
    from c have "isTransient e" by (rule named_class_transient)
    with e show "\<exists>e. fst (fn w) = Inl e \<and> isTransient e" by blast
  qed
  obtain res w' tr where run: "runWithRetryFrom 0 fn sink retries w = (res, w', tr)"
    by (cases "runWithRetryFrom 0 fn sink retries w") auto
  have main: "res = fst (fn ((nextWorld fn ^^ retries) w))
      \<and> w' = (nextWorld fn ^^ Suc retries) w
      \<and> filter (\<lambda>ev. \<not> isRemote ev) tr
          = concat (map (\<lambda>k. Invoked # backoff sink k retries) [Suc 0..<Suc retries])
            @ [Invoked]"
    using transient_run[OF at, where d=retries and retries=retries and attempt=0
        and s=sink and w=w] run
    by simp
  from at obtain e where "fst (fn ((nextWorld fn ^^ retries) w)) = Inl e"
    unfolding alwaysTransient_def by blast
  with main have err: "\<exists>e. res = Inl e" by simp
  have nr: "filter (\<lambda>ev. \<not> isRemote ev) tr
      = concat (map (\<lambda>k. Invoked # backoff sink k retries) [Suc 0..<Suc retries])
        @ [Invoked]"
    using main by blast
  have f1: "filter (\<lambda>ev. ev = Invoked) tr
      = filter (\<lambda>ev. ev = Invoked) (filter (\<lambda>ev. \<not> isRemote ev) tr)"
    by (rule filter_through_not_remote) auto
  have "length (filter (\<lambda>ev. ev = Invoked) tr)
      = length (filter (\<lambda>ev. ev = Invoked) (filter (\<lambda>ev. \<not> isRemote ev) tr))"
    by (rule arg_cong[OF f1])
  also have "\<dots> = Suc (length [Suc 0..<Suc retries])"
    unfolding nr by (rule invoked_count_rounds)
  finally have inv: "length (filter (\<lambda>ev. ev = Invoked) tr) = retries + 1"
    by simp
  have "filter isWait tr = filter isWait (filter (\<lambda>ev. \<not> isRemote ev) tr)"
    by (rule filter_through_not_remote) (auto simp: isWait_def isRemote_def split: event.splits)
  also have "\<dots> = replicate (length [Suc 0..<Suc retries]) (Waited 10000)"
    unfolding nr by (rule waits_rounds)
  finally have waits: "filter isWait tr = replicate retries (Waited 10000)"
    by simp
  have one: "[1..<Suc retries] = [Suc 0..<Suc retries]" by simp
  have nr': "filter (\<lambda>ev. \<not> isRemote ev) tr
      = concat (map (\<lambda>k. Invoked
                    # (if sink
                       then [Status (''High traffic. Retrying in 10s... (Attempt ''
                                     @ showNat k @ ''/'' @ showNat retries @ '')'')]
                       else [])
                    @ [Waited 10000]
                    @ (if sink then [Status ''Resuming processing...''] else []))
                  [1..<Suc retries])
                @ [Invoked]"
    unfolding nr one rounds_explicit ..
  show "case runWithRetry fn sink retries w of
        (res, w', tr) \<Rightarrow>
          res = fst (fn ((nextWorld fn ^^ retries) w))
          \<and> (\<exists>e. res = Inl e)
          \<and> w' = (nextWorld fn ^^ Suc retries) w
          \<and> length (filter (\<lambda>ev. ev = Invoked) tr) = retries + 1
          \<and> filter isWait tr = replicate retries (Waited 10000)
          \<and> filter (\<lambda>ev. \<not> isRemote ev) tr
              = concat (map (\<lambda>k. Invoked
                    # (if sink
                       then [Status (''High traffic. Retrying in 10s... (Attempt ''
                                     @ showNat k @ ''/'' @ showNat retries @ '')'')]
                       else [])
                    @ [Waited 10000]
                    @ (if sink then [Status ''Resuming processing...''] else []))
                  [1..<Suc retries])
                @ [Invoked]"
    unfolding runWithRetry_def run using main err inv waits nr' by simp
next
  fix attempt e w1 rs
  assume "retries \<le> attempt \<and> fn w = (Inl e, w1, rs)"
  then show "runWithRetryFrom attempt fn sink retries w = (Inl e, w1, Invoked # map Remote rs)"
    by (intro retry_step_exhausted) auto
qed


theorem runWithRetry_transient_bound_witness:
  "(\<forall>w. \<exists>e. fst (fnBusy w) = Inl e
          \<and> (status e = Some 429 \<or> status e = Some 503
             \<or> (\<exists>m. message e = Some m
                  \<and> (includesStr m ''429'' \<or> includesStr m ''503''
                     \<or> includesStr m ''quota''))))
   \<and> fst (fnBusy 0) = Inl serviceUnavailable
   \<and> status serviceUnavailable = Some 503
   \<and> fst (fnBusy 1) = Inl (Error ''You exceeded your current quota'')
   \<and> includesStr ''You exceeded your current quota'' ''quota''
   \<and> runWithRetry fnBusy True 10 0
       = (Inl serviceUnavailable, 11,
          [Invoked, Status ''High traffic. Retrying in 10s... (Attempt 1/10)'',
           Waited 10000, Status ''Resuming processing...'',
           Invoked, Status ''High traffic. Retrying in 10s... (Attempt 2/10)'',
           Waited 10000, Status ''Resuming processing...'',
           Invoked, Status ''High traffic. Retrying in 10s... (Attempt 3/10)'',
           Waited 10000, Status ''Resuming processing...'',
           Invoked, Status ''High traffic. Retrying in 10s... (Attempt 4/10)'',
           Waited 10000, Status ''Resuming processing...'',
           Invoked, Status ''High traffic. Retrying in 10s... (Attempt 5/10)'',
           Waited 10000, Status ''Resuming processing...'',
           Invoked, Status ''High traffic. Retrying in 10s... (Attempt 6/10)'',
           Waited 10000, Status ''Resuming processing...'',
           Invoked, Status ''High traffic. Retrying in 10s... (Attempt 7/10)'',
           Waited 10000, Status ''Resuming processing...'',
           Invoked, Status ''High traffic. Retrying in 10s... (Attempt 8/10)'',
           Waited 10000, Status ''Resuming processing...'',
           Invoked, Status ''High traffic. Retrying in 10s... (Attempt 9/10)'',
           Waited 10000, Status ''Resuming processing...'',
           Invoked, Status ''High traffic. Retrying in 10s... (Attempt 10/10)'',
           Waited 10000, Status ''Resuming processing...'',
           Invoked])
   \<and> length (filter (\<lambda>ev. ev = Invoked) (snd (snd (runWithRetry fnBusy True 10 0)))) = 11
   \<and> filter isWait (snd (snd (runWithRetry fnBusy True 10 0))) = replicate 10 (Waited 10000)
   \<and> runWithRetry fnBusy False 2 0
       = (Inl serviceUnavailable, 3, [Invoked, Waited 10000, Invoked, Waited 10000, Invoked])
   \<and> (10::nat) \<le> 10
   \<and> fnBusy 10 = (Inl serviceUnavailable, 11, [])
   \<and> runWithRetryFrom 10 fnBusy True 10 10 = (Inl serviceUnavailable, 11, [Invoked])"
proof -
  have q: "includesStr ''You exceeded your current quota'' ''quota''" by code_simp
  have s: "status serviceUnavailable = Some 503" by (simp add: serviceUnavailable_def)
  have f0: "fst (fnBusy 0) = Inl serviceUnavailable"
    and f1: "fst (fnBusy 1) = Inl (Error ''You exceeded your current quota'')"
    and f10: "fnBusy 10 = (Inl serviceUnavailable, 11, [])"
    by (simp_all add: fnBusy_def)
  have h: "\<forall>w. \<exists>e. fst (fnBusy w) = Inl e
          \<and> (status e = Some 429 \<or> status e = Some 503
             \<or> (\<exists>m. message e = Some m
                  \<and> (includesStr m ''429'' \<or> includesStr m ''503''
                     \<or> includesStr m ''quota'')))"
    using q s by (auto simp: fnBusy_def Error_def)
  have nw: "\<And>k w. (nextWorld fnBusy ^^ k) w = w + k"
  proof -
    fix k w show "(nextWorld fnBusy ^^ k) w = w + k"
      by (induction k) (auto simp: nextWorld_def fnBusy_def)
  qed
  have r2: "runWithRetry fnBusy False 2 0
       = (Inl serviceUnavailable, 3, [Invoked, Waited 10000, Invoked, Waited 10000, Invoked])"
    by code_simp
  have ups: "[1..<Suc 10] = [1, 2, 3, 4, 5, 6, 7, 8, 9, 10]" by code_simp
  have sn: "showNat (Suc 0) = ''1''" "showNat 1 = ''1''" "showNat 2 = ''2''" "showNat 3 = ''3''" "showNat 4 = ''4''"
    "showNat 5 = ''5''" "showNat 6 = ''6''" "showNat 7 = ''7''" "showNat 8 = ''8''"
    "showNat 9 = ''9''" "showNat 10 = ''10''"
    by code_simp+
  obtain res w' tr where run: "runWithRetry fnBusy True 10 0 = (res, w', tr)"
    by (cases "runWithRetry fnBusy True 10 0") auto
  have nr: "filter (\<lambda>ev. \<not> isRemote ev) tr = tr"
  proof -
    have "\<And>ev. ev \<in> set tr \<Longrightarrow> \<not> isRemote ev"
    proof -
      fix ev assume "ev \<in> set tr"
      then have "ev \<in> set (snd (snd (runWithRetry fnBusy True 10 0)))" using run by simp
      from runWithRetry_events[OF this] show "\<not> isRemote ev"
        by (auto simp: fnBusy_def)
    qed
    then show ?thesis by (simp add: filter_id_conv)
  qed
  from runWithRetry_transient_bound [where fn=fnBusy and sink=True and retries=10 and w=0] h
  have c: "res = fst (fnBusy ((nextWorld fnBusy ^^ 10) 0))"
    "w' = (nextWorld fnBusy ^^ Suc 10) 0"
    "length (filter (\<lambda>ev. ev = Invoked) tr) = 10 + 1"
    "filter isWait tr = replicate 10 (Waited 10000)"
    "filter (\<lambda>ev. \<not> isRemote ev) tr
       = concat (map (\<lambda>k. Invoked
                    # (if True
                       then [Status (''High traffic. Retrying in 10s... (Attempt ''
                                     @ showNat k @ ''/'' @ showNat 10 @ '')'')]
                       else [])
                    @ [Waited 10000]
                    @ (if True then [Status ''Resuming processing...''] else []))
                  [1..<Suc 10])
                @ [Invoked]"
    unfolding run by simp_all
  have full: "runWithRetry fnBusy True 10 0
       = (Inl serviceUnavailable, 11,
          [Invoked, Status ''High traffic. Retrying in 10s... (Attempt 1/10)'',
           Waited 10000, Status ''Resuming processing...'',
           Invoked, Status ''High traffic. Retrying in 10s... (Attempt 2/10)'',
           Waited 10000, Status ''Resuming processing...'',
           Invoked, Status ''High traffic. Retrying in 10s... (Attempt 3/10)'',
           Waited 10000, Status ''Resuming processing...'',
           Invoked, Status ''High traffic. Retrying in 10s... (Attempt 4/10)'',
           Waited 10000, Status ''Resuming processing...'',
           Invoked, Status ''High traffic. Retrying in 10s... (Attempt 5/10)'',
           Waited 10000, Status ''Resuming processing...'',
           Invoked, Status ''High traffic. Retrying in 10s... (Attempt 6/10)'',
           Waited 10000, Status ''Resuming processing...'',
           Invoked, Status ''High traffic. Retrying in 10s... (Attempt 7/10)'',
           Waited 10000, Status ''Resuming processing...'',
           Invoked, Status ''High traffic. Retrying in 10s... (Attempt 8/10)'',
           Waited 10000, Status ''Resuming processing...'',
           Invoked, Status ''High traffic. Retrying in 10s... (Attempt 9/10)'',
           Waited 10000, Status ''Resuming processing...'',
           Invoked, Status ''High traffic. Retrying in 10s... (Attempt 10/10)'',
           Waited 10000, Status ''Resuming processing...'',
           Invoked])"
    unfolding run using c(1,2,5) unfolding nr nw ups by (simp add: sn f10)
  from runWithRetry_transient_bound [where fn=fnBusy and sink=True and retries=10 and w=10] f10
  have ex: "runWithRetryFrom 10 fnBusy True 10 10 = (Inl serviceUnavailable, 11, [Invoked])"
    by simp
  show ?thesis
    using h q s f0 f1 f10 full c(3,4) r2 ex unfolding run by simp
qed

text \<open>
  Claim C4, as the code has it. An error is terminal when its status is neither 429 nor
  503 and its message has neither ``429'' nor ``503'' in it nor, in any letter case,
  ``quota''. When the wrapped operation fails with such an error, at whatever value of
  the counter, the loop rethrows it at once: the trace is the one invocation and the
  requests that invocation sent, with no wait, no status message and no second
  invocation.
\<close>

theorem runWithRetry_terminal_immediate:
  assumes "status e \<noteq> Some 429" and "status e \<noteq> Some 503"
    and "\<forall>m. message e = Some m \<longrightarrow>
           \<not> includesStr m ''429'' \<and> \<not> includesStr m ''503''
           \<and> \<not> includesStr (toLowerCase m) ''quota''"
    and "fn w = (Inl e, w1, rs)"
  shows "runWithRetryFrom attempt fn sink retries w = (Inl e, w1, Invoked # map Remote rs)
       \<and> runWithRetry fn sink retries w = (Inl e, w1, Invoked # map Remote rs)"
proof -
  have "\<not> isTransient e"
    using assms(1-3)
    by (auto simp: isTransient_def isRateLimit_def isServerOverload_def split: option.splits)
  then show ?thesis
    unfolding runWithRetry_def using assms(4) by (simp add: retry_step_terminal)
qed

theorem runWithRetry_terminal_immediate_witness:
  "status (Error ''No candidates returned from the model.'') \<noteq> Some 429
   \<and> status (Error ''No candidates returned from the model.'') \<noteq> Some 503
   \<and> \<not> includesStr ''No candidates returned from the model.'' ''429''
   \<and> \<not> includesStr ''No candidates returned from the model.'' ''503''
   \<and> \<not> includesStr (toLowerCase ''No candidates returned from the model.'') ''quota''
   \<and> fnNoCandidates 0 = (Inl (Error ''No candidates returned from the model.''), 1, [])
   \<and> runWithRetry fnNoCandidates True 10 0
       = (Inl (Error ''No candidates returned from the model.''), 1, [Invoked])"
proof -
  have a: "status (Error ''No candidates returned from the model.'') \<noteq> Some 429"
    and b: "status (Error ''No candidates returned from the model.'') \<noteq> Some 503"
    by (simp_all add: Error_def)
  have c: "\<not> includesStr ''No candidates returned from the model.'' ''429''"
    and d: "\<not> includesStr ''No candidates returned from the model.'' ''503''"
    and e: "\<not> includesStr (toLowerCase ''No candidates returned from the model.'') ''quota''"
    by code_simp+
  have f: "fnNoCandidates 0 = (Inl (Error ''No candidates returned from the model.''), 1, [])"
    by (simp add: fnNoCandidates_def)
  have m: "\<forall>m. message (Error ''No candidates returned from the model.'') = Some m \<longrightarrow>
           \<not> includesStr m ''429'' \<and> \<not> includesStr m ''503''
           \<and> \<not> includesStr (toLowerCase m) ''quota''"
    using c d e by (simp add: Error_def)
  show ?thesis
    using runWithRetry_terminal_immediate
        [where e="Error ''No candidates returned from the model.''"
        and fn=fnNoCandidates and w=0 and ?w1.0=1 and rs="[]" and sink=True and retries=10
        and attempt=0] a b c d e f m
    by simp
qed

text \<open>
  Claim C4 as stated fails. The error with the message ``Quota exceeded'' and no status
  is terminal by the claim's own test (its status is neither 429 nor 503 and its message
  contains none of ``429'', ``503'' and ``quota''), yet the loop lower-cases the message
  before it looks for ``quota'': it sends a status message, waits and invokes the
  operation again.
\<close>

theorem terminal_class_as_stated_counterexample:
  "status quotaError \<noteq> Some 429 \<and> status quotaError \<noteq> Some 503
   \<and> message quotaError = Some ''Quota exceeded''
   \<and> \<not> includesStr ''Quota exceeded'' ''429''
   \<and> \<not> includesStr ''Quota exceeded'' ''503''
   \<and> \<not> includesStr ''Quota exceeded'' ''quota''
   \<and> fnQuotaOnce 0 = (Inl quotaError, 1, [])
   \<and> runWithRetry fnQuotaOnce True 10 0
       = (Inr True, 2,
          [Invoked, Status ''High traffic. Retrying in 10s... (Attempt 1/10)'', Waited 10000,
           Status ''Resuming processing...'', Invoked])"
  by code_simp


text \<open>The first thing a run does is to invoke the operation.\<close>

lemma runWithRetryFrom_first:
  "\<exists>tr. snd (snd (runWithRetryFrom attempt fn s retries w))
      = Invoked # map Remote (snd (snd (fn w))) @ tr"
proof -
  obtain res w1 rs where f: "fn w = (res, w1, rs)" by (cases "fn w") auto
  show ?thesis
    by (subst runWithRetryFrom.simps) (auto simp: f split: sum.splits prod.splits)
qed




section \<open>The adapters\<close>

lemma generateAttempt_events:
  "snd (snd (generateAttempt env ps k sz ratio w))
   = [GeneratorRequest \<lparr>contents = ps, imageSize = sz, aspectRatio = ratio\<rparr>]"
  by (simp add: generateAttempt_def Let_def split: prod.splits sum.splits)

lemma analyzeAttempt_events:
  "r \<in> set (snd (snd (analyzeAttempt env f k w))) \<Longrightarrow> \<exists>ps. r = AnalyzerRequest ps"
  by (auto simp: analyzeAttempt_def Let_def split: prod.splits sum.splits json.splits)

lemma callGeminiGenerator_no_key:
  "\<not> truthy key \<Longrightarrow>
   callGeminiGenerator env ps key sz s ratio w = (Inl (Error ''API Key not provided.''), w, [])"
  by (simp add: callGeminiGenerator_def)

lemma analyzeProductFeatures_no_key:
  "\<not> truthy key \<Longrightarrow>
   analyzeProductFeatures env f key s w = (\<lparr>description = '''', filename = ''product''\<rparr>, w, [])"
  by (simp add: analyzeProductFeatures_def)

lemma callGeminiGenerator_remote:
  assumes "Remote r \<in> set (snd (snd (callGeminiGenerator env ps key sz s ratio w)))"
  shows "r = GeneratorRequest \<lparr>contents = ps, imageSize = sz, aspectRatio = ratio\<rparr>"
proof (cases "truthy key")
  case False
  with assms show ?thesis by (simp add: callGeminiGenerator_no_key)
next
  case True
  with assms have "Remote r \<in> set (snd (snd (runWithRetry
      (generateAttempt env ps (the key) sz ratio) s 10 w)))"
    by (simp add: callGeminiGenerator_def)
  from runWithRetry_events[OF this] show ?thesis
    by (auto simp: generateAttempt_events)
qed

lemma callGeminiGenerator_first:
  assumes "truthy key"
  shows "Remote (GeneratorRequest \<lparr>contents = ps, imageSize = sz, aspectRatio = ratio\<rparr>)
     \<in> set (snd (snd (callGeminiGenerator env ps key sz s ratio w)))"
proof -
  obtain tr where "snd (snd (runWithRetryFrom 0 (generateAttempt env ps (the key) sz ratio) s 10 w))
      = Invoked # map Remote (snd (snd (generateAttempt env ps (the key) sz ratio w))) @ tr"
    using runWithRetryFrom_first[of 0 "generateAttempt env ps (the key) sz ratio" s 10 w]
    by blast
  then show ?thesis
    using assms by (simp add: callGeminiGenerator_def runWithRetry_def generateAttempt_events)
qed

lemma analyzeProductFeatures_remote:
  assumes "Remote r \<in> set (snd (snd (analyzeProductFeatures env f key s w)))"
  shows "\<exists>ps. r = AnalyzerRequest ps"
proof (cases "truthy key")
  case False
  with assms show ?thesis by (simp add: analyzeProductFeatures_no_key)
next
  case True
  with assms have "Remote r \<in> set (snd (snd (runWithRetry (analyzeAttempt env f (the key)) s 10 w)))"
    by (auto simp: analyzeProductFeatures_def notify_def split: prod.splits sum.splits if_splits)
  from runWithRetry_events[OF this] show ?thesis
    by (auto dest: analyzeAttempt_events)
qed

section \<open>Units run together\<close>

lemma mapAsync_events:
  "ev \<in> set (snd (snd (mapAsync f xs i w))) \<Longrightarrow>
   \<exists>x \<in> set xs. \<exists>j w'. ev \<in> set (snd (snd (f x j w')))"
proof (induction xs arbitrary: i w)
  case Nil
  then show ?case by simp
next
  case (Cons x xs)
  obtain r w1 t1 where f: "f x i w = (r, w1, t1)" by (cases "f x i w") auto
  obtain rs w2 t2 where m: "mapAsync f xs (i + 1) w1 = (rs, w2, t2)"
    by (cases "mapAsync f xs (i + 1) w1") auto
  from Cons.prems f m have "ev \<in> set t1 \<or> ev \<in> set t2" by auto
  then show ?case
  proof
    assume "ev \<in> set t1"
    then have "ev \<in> set (snd (snd (f x i w)))" using f by simp
    then show ?thesis by auto
  next
    assume "ev \<in> set t2"
    then have "ev \<in> set (snd (snd (mapAsync f xs (i + 1) w1)))" using m by simp
    from Cons.IH[OF this] show ?thesis by auto
  qed
qed

lemma mapAsync_length: "length (fst (mapAsync f xs i w)) = length xs"
proof (induction xs arbitrary: i w)
  case Nil
  then show ?case by simp
next
  case (Cons x xs)
  obtain r w1 t1 where f: "f x i w = (r, w1, t1)" by (cases "f x i w") auto
  obtain rs w2 t2 where m: "mapAsync f xs (i + 1) w1 = (rs, w2, t2)"
    by (cases "mapAsync f xs (i + 1) w1") auto
  from Cons.IH[of "i + 1" w1] m have "length rs = length xs" by simp
  then show ?case using f m by simp
qed

lemma mapAsync_nth:
  "k < length xs \<Longrightarrow> \<exists>w'. fst (mapAsync f xs i w) ! k = fst (f (xs ! k) (i + k) w')"
proof (induction xs arbitrary: i w k)
  case Nil
  then show ?case by simp
next
  case (Cons x xs)
  obtain r w1 t1 where f: "f x i w = (r, w1, t1)" by (cases "f x i w") auto
  obtain rs w2 t2 where m: "mapAsync f xs (i + 1) w1 = (rs, w2, t2)"
    by (cases "mapAsync f xs (i + 1) w1") auto
  show ?case
  proof (cases k)
    case 0
    then show ?thesis using f m by (auto intro: exI[of _ w])
  next
    case (Suc k')
    with Cons.prems have "k' < length xs" by simp
    from Cons.IH[OF this, of "i + 1" w1] obtain w' where
      "fst (mapAsync f xs (i + 1) w1) ! k' = fst (f (xs ! k') (i + 1 + k') w')" by blast
    then show ?thesis using f m Suc by (auto intro: exI[of _ w'])
  qed
qed

lemma Promise_all_map_Inr: "Promise_all (map Inr vs) = Inr vs"
  by (induction vs) auto

lemma Promise_all_Inr: "Promise_all rs = Inr vs \<Longrightarrow> rs = map Inr vs"
proof (induction rs arbitrary: vs)
  case Nil
  then show ?case by simp
next
  case (Cons r rs)
  show ?case
  proof (cases r)
    case (Inl e)
    with Cons.prems show ?thesis by simp
  next
    case (Inr v)
    with Cons.prems obtain vs' where p: "Promise_all rs = Inr vs'" and v: "vs = v # vs'"
      by (auto split: sum.splits)
    from Cons.IH[OF p] v Inr show ?thesis by simp
  qed
qed

lemma Promise_all_all_fail:
  "rs \<noteq> [] \<Longrightarrow> \<forall>r \<in> set rs. r = Inl e \<Longrightarrow> Promise_all rs = Inl e"
  by (cases rs) auto



section \<open>The dispatcher\<close>

lemma find_preset: "find (\<lambda>p. p = x) PRESETS = Some x"
  by (cases x) (simp_all add: PRESETS_def)

lemma processImagesWithGemini_cases:
  "processImagesWithGemini env a w =
     (if presetId a = GHOST_MANNEQUIN then
        (case mapAsync (ghostUnit env a) (runArguments.sourceImages a) 0 w of
           (rs, w1, tr) \<Rightarrow> (Promise_all rs, w1, tr))
      else multiImage env a w)"
  by (simp add: processImagesWithGemini_def find_preset)

lemma readable_file:
  "readable imgs \<Longrightarrow> img \<in> set imgs \<Longrightarrow> \<exists>p. fileToGenerativePart (imageFile img) = Inr p"
  by (auto simp: readable_def list_all_iff fileToGenerativePart_def split: option.splits)

lemma readable_viewpointParts: "readable imgs \<Longrightarrow> \<exists>vs. viewpointParts imgs = Inr vs"
proof (induction imgs)
  case Nil
  then show ?case by simp
next
  case (Cons img imgs)
  then have "readable imgs" by (simp add: readable_def)
  with Cons.IH obtain vs where "viewpointParts imgs = Inr vs" by blast
  moreover obtain p where "fileToGenerativePart (imageFile img) = Inr p"
    using readable_file[OF Cons.prems, of img] by auto
  ultimately show ?case by simp
qed

lemma readable_contextParts:
  "readable (runArguments.sourceImages a) \<Longrightarrow> \<exists>ctx t. contextParts a = (Inr ctx, t)"
  using readable_viewpointParts[of "runArguments.sourceImages a"]
  by (auto simp: contextParts_def Let_def)

lemma primaryImg_some: "imgs \<noteq> [] \<Longrightarrow> \<exists>p. primaryImg imgs = Some p \<and> p \<in> set imgs"
  by (cases imgs) (auto simp: primaryImg_def split: option.splits dest: find_Some_iff[THEN iffD1] simp: find_Some_iff in_set_conv_nth)

lemma anglesToGenerate_nonempty: "anglesToGenerate x \<noteq> []"
  by (auto simp: anglesToGenerate_def DEFAULT_ANGLES_def split: option.splits)


lemma mapAsync_all_fail:
  assumes "\<And>x i w. x \<in> set xs \<Longrightarrow> fst (f x i w) = Inl e" "xs \<noteq> []"
  shows "Promise_all (fst (mapAsync f xs i w)) = Inl e"
proof (rule Promise_all_all_fail)
  show "fst (mapAsync f xs i w) \<noteq> []"
    using mapAsync_length[of f xs i w] assms(2) by auto
  show "\<forall>r \<in> set (fst (mapAsync f xs i w)). r = Inl e"
  proof
    fix r assume "r \<in> set (fst (mapAsync f xs i w))"
    then obtain k where k: "k < length xs" "fst (mapAsync f xs i w) ! k = r"
      by (auto simp: in_set_conv_nth mapAsync_length)
    from mapAsync_nth[OF k(1), of f i w] obtain w' where
      "fst (mapAsync f xs i w) ! k = fst (f (xs ! k) (i + k) w')" by blast
    with k assms(1)[of "xs ! k"] show "r = Inl e" by simp
  qed
qed

lemma ghostUnit_generator_error:
  assumes "\<And>ps w. fst (callGeminiGenerator env ps (runArguments.apiKey a)
      (runArguments.imageQuality a) (onStatusUpdate a) ''3:4'' w) = Inl e"
    and "readable (runArguments.sourceImages a)" "img \<in> set (runArguments.sourceImages a)"
  shows "fst (ghostUnit env a img idx w) = Inl e"
proof -
  obtain p where p: "fileToGenerativePart (imageFile img) = Inr p"
    using readable_file[OF assms(2,3)] by blast
  obtain an w1 t2 where an: "analyzeProductFeatures env (imageFile img) (runArguments.apiKey a)
      (onStatusUpdate a) w = (an, w1, t2)"
    by (cases "analyzeProductFeatures env (imageFile img) (runArguments.apiKey a)
      (onStatusUpdate a) w") auto
  obtain r w2 t4 where g: "callGeminiGenerator env (ghostRequestParts a p (description an))
      (runArguments.apiKey a) (runArguments.imageQuality a) (onStatusUpdate a) ''3:4'' w1
      = (r, w2, t4)"
    by (cases "callGeminiGenerator env (ghostRequestParts a p (description an))
      (runArguments.apiKey a) (runArguments.imageQuality a) (onStatusUpdate a) ''3:4'' w1") auto
  with assms(1)[of "ghostRequestParts a p (description an)" w1] have "r = Inl e" by simp
  with p an g show ?thesis by (simp add: ghostUnit_def Let_def)
qed

lemma angleUnit_generator_error:
  assumes "\<And>ps w. fst (callGeminiGenerator env ps (runArguments.apiKey a)
      (runArguments.imageQuality a) (onStatusUpdate a) ''3:4'' w) = Inl e"
  shows "fst (angleUnit env a ctx an angle idx w) = Inl e"
proof -
  let ?ps = "ctx @ [TextPart (''TASK: ''
                     @ anglePromptWithAnalysis (runArguments.customPrompt a)
                         (selectedBodyType a) angle (description an))]"
  obtain r w2 t4 where g: "callGeminiGenerator env ?ps
      (runArguments.apiKey a) (runArguments.imageQuality a) (onStatusUpdate a) ''3:4'' w
      = (r, w2, t4)"
    by (cases "callGeminiGenerator env ?ps
      (runArguments.apiKey a) (runArguments.imageQuality a) (onStatusUpdate a) ''3:4'' w") auto
  with assms[of ?ps w] have "r = Inl e" by simp
  with g show ?thesis by (simp add: angleUnit_def Let_def)
qed

lemma singleGeneration_generator_error:
  assumes "\<And>ps w. fst (callGeminiGenerator env ps (runArguments.apiKey a)
      (runArguments.imageQuality a) (onStatusUpdate a) (targetAspectRatio a) w) = Inl e"
  shows "fst (singleGeneration env a ctx an w) = Inl e"
proof -
  let ?ps = "ctx @ [TextPart (''TASK: '' @ finalPromptWithAnalysis a (description an))]"
  obtain r w2 t4 where g: "callGeminiGenerator env ?ps
      (runArguments.apiKey a) (runArguments.imageQuality a) (onStatusUpdate a)
      (targetAspectRatio a) w = (r, w2, t4)"
    by (cases "callGeminiGenerator env ?ps
      (runArguments.apiKey a) (runArguments.imageQuality a) (onStatusUpdate a)
      (targetAspectRatio a) w") auto
  with assms[of ?ps w] have "r = Inl e" by simp
  with g show ?thesis by (simp add: singleGeneration_def Let_def)
qed

text \<open>
  When every call of the generation adapter fails with the same error, a run over
  readable source images, at least one, fails with that error.
\<close>

lemma run_generator_error:
  assumes gen: "\<And>ps ratio w. fst (callGeminiGenerator env ps (runArguments.apiKey a)
      (runArguments.imageQuality a) (onStatusUpdate a) ratio w) = Inl e"
    and "readable (runArguments.sourceImages a)" "runArguments.sourceImages a \<noteq> []"
  shows "fst (processImagesWithGemini env a w) = Inl e"
proof (cases "presetId a = GHOST_MANNEQUIN")
  case True
  have "Promise_all (fst (mapAsync (ghostUnit env a) (runArguments.sourceImages a) 0 w)) = Inl e"
    using assms by (intro mapAsync_all_fail ghostUnit_generator_error) auto
  with True show ?thesis
    by (simp add: processImagesWithGemini_cases case_prod_beta)
next
  case False
  obtain p where p: "primaryImg (runArguments.sourceImages a) = Some p"
    using primaryImg_some[OF assms(3)] by blast
  obtain an w1 t1 where an: "analyzeProductFeatures env (imageFile p) (runArguments.apiKey a)
      (onStatusUpdate a) w = (an, w1, t1)"
    by (cases "analyzeProductFeatures env (imageFile p) (runArguments.apiKey a)
      (onStatusUpdate a) w") auto
  obtain ctx t2 where ctx: "contextParts a = (Inr ctx, t2)"
    using readable_contextParts[OF assms(2)] by blast
  show ?thesis
  proof (cases "presetId a = ANGLES")
    case True
    have "Promise_all (fst (mapAsync (angleUnit env a ctx an)
        (anglesToGenerate (targetAngles a)) 0 w1)) = Inl e"
      using gen by (intro mapAsync_all_fail angleUnit_generator_error)
        (auto simp: anglesToGenerate_nonempty)
    with True False p an ctx show ?thesis
      by (simp add: processImagesWithGemini_cases multiImage_def Let_def case_prod_beta)
  next
    case notAngles: False
    have "fst (singleGeneration env a ctx an w1) = Inl e"
      using gen by (intro singleGeneration_generator_error) auto
    with notAngles False p an ctx show ?thesis
      by (simp add: processImagesWithGemini_cases multiImage_def Let_def case_prod_beta)
  qed
qed





lemma callGeminiGenerator_settled:
  assumes "truthy key"
    and "generatorModel env (the key) \<lparr>contents = ps, imageSize = sz, aspectRatio = ratio\<rparr> w
         = (Inr r, w1)"
    and "extractImage r = Inr u \<or> (extractImage r = Inl e \<and> \<not> isTransient e)"
  shows "callGeminiGenerator env ps key sz sink ratio w
       = (extractImage r, w1,
          [Invoked, Remote (GeneratorRequest \<lparr>contents = ps, imageSize = sz, aspectRatio = ratio\<rparr>)])"
proof -
  have g: "generateAttempt env ps (the key) sz ratio w
      = (extractImage r, w1,
         [GeneratorRequest \<lparr>contents = ps, imageSize = sz, aspectRatio = ratio\<rparr>])"
    using assms(2) by (simp add: generateAttempt_def)
  from assms(3) show ?thesis
  proof
    assume u: "extractImage r = Inr u"
    with g show ?thesis using assms(1)
      by (simp add: callGeminiGenerator_def runWithRetry_def
          retry_step_success[where v=u and ?w1.0=w1])
  next
    assume e: "extractImage r = Inl e \<and> \<not> isTransient e"
    with g show ?thesis using assms(1)
      by (simp add: callGeminiGenerator_def runWithRetry_def
          retry_step_terminal[where e=e and ?w1.0=w1])
  qed
qed







section \<open>A run without a credential\<close>

lemma notify_status: "ev \<in> set (notify s m) \<Longrightarrow> \<exists>m'. ev = Status m'"
  by (auto simp: notify_def split: if_splits)

lemma notify_not_remote: "Remote r \<notin> set (notify s m)"
  by (simp add: notify_def)

lemma mapAsync_world:
  assumes "\<And>x i w. fst (snd (f x i w)) = w"
  shows "fst (snd (mapAsync f xs i w)) = w"
proof (induction xs arbitrary: i w)
  case Nil
  then show ?case by simp
next
  case (Cons x xs)
  obtain r w1 t1 where f: "f x i w = (r, w1, t1)" by (cases "f x i w") auto
  with assms[of x i w] have w1: "w1 = w" by simp
  obtain rs w2 t2 where m: "mapAsync f xs (i + 1) w1 = (rs, w2, t2)"
    by (cases "mapAsync f xs (i + 1) w1") auto
  with Cons.IH[of "i + 1" w1] have "w2 = w1" by simp
  with f m w1 show ?case by simp
qed

lemma ghostUnit_no_key:
  assumes "\<not> truthy (runArguments.apiKey a)"
  shows "fst (snd (ghostUnit env a img idx w)) = w"
    and "ev \<in> set (snd (snd (ghostUnit env a img idx w))) \<Longrightarrow> \<exists>m. ev = Status m"
  using assms
  by (auto simp: ghostUnit_def Let_def analyzeProductFeatures_no_key callGeminiGenerator_no_key
      split: sum.splits dest: notify_status)

lemma angleUnit_no_key:
  assumes "\<not> truthy (runArguments.apiKey a)"
  shows "fst (snd (angleUnit env a ctx an angle idx w)) = w"
    and "ev \<in> set (snd (snd (angleUnit env a ctx an angle idx w))) \<Longrightarrow> \<exists>m. ev = Status m"
  using assms
  by (auto simp: angleUnit_def Let_def callGeminiGenerator_no_key dest: notify_status)

lemma singleGeneration_no_key:
  assumes "\<not> truthy (runArguments.apiKey a)"
  shows "fst (snd (singleGeneration env a ctx an w)) = w"
    and "ev \<in> set (snd (snd (singleGeneration env a ctx an w))) \<Longrightarrow> \<exists>m. ev = Status m"
  using assms
  by (auto simp: singleGeneration_def Let_def callGeminiGenerator_no_key dest: notify_status)

lemma contextParts_status:
  "ev \<in> set (snd (contextParts a)) \<Longrightarrow> \<exists>m. ev = Status m"
  by (auto simp: contextParts_def Let_def split: sum.splits if_splits dest: notify_status)

lemma contextParts_not_remote: "Remote r \<notin> set (snd (contextParts a))"
  using contextParts_status[of "Remote r" a] by auto

lemma multiImage_no_key:
  assumes "\<not> truthy (runArguments.apiKey a)"
  shows "fst (snd (multiImage env a w)) = w"
    and "ev \<in> set (snd (snd (multiImage env a w))) \<Longrightarrow> \<exists>m. ev = Status m"
proof -
  let ?t0 = "notify (onStatusUpdate a) ''Analyzing primary product features...''"
  show "fst (snd (multiImage env a w)) = w"
  proof (cases "primaryImg (runArguments.sourceImages a)")
    case None
    then show ?thesis by (simp add: multiImage_def Let_def)
  next
    case (Some p)
    obtain c t2 where c: "contextParts a = (c, t2)" by (cases "contextParts a") auto
    show ?thesis
    proof (cases c)
      case (Inl e)
      with Some c assms show ?thesis
        by (simp add: multiImage_def Let_def analyzeProductFeatures_no_key)
    next
      case (Inr ctx)
      with Some c assms show ?thesis
        using mapAsync_world[of "angleUnit env a ctx \<lparr>description = '''', filename = ''product''\<rparr>"
            "anglesToGenerate (targetAngles a)" 0 w, OF angleUnit_no_key(1)[OF assms]]
          singleGeneration_no_key(1)[OF assms, of env ctx
            "\<lparr>description = '''', filename = ''product''\<rparr>" w]
        by (simp add: multiImage_def Let_def analyzeProductFeatures_no_key case_prod_beta)
    qed
  qed
  assume ev: "ev \<in> set (snd (snd (multiImage env a w)))"
  show "\<exists>m. ev = Status m"
  proof (cases "primaryImg (runArguments.sourceImages a)")
    case None
    with ev show ?thesis by (auto simp: multiImage_def Let_def dest: notify_status)
  next
    case (Some p)
    obtain c t2 where c: "contextParts a = (c, t2)" by (cases "contextParts a") auto
    have t2: "ev \<in> set t2 \<Longrightarrow> \<exists>m. ev = Status m"
      using contextParts_status[of ev a] c by simp
    show ?thesis
    proof (cases c)
      case (Inl e)
      with Some c assms ev t2 show ?thesis
        by (auto simp: multiImage_def Let_def analyzeProductFeatures_no_key dest: notify_status)
    next
      case (Inr ctx)
      let ?an = "\<lparr>description = '''', filename = ''product''\<rparr>"
      from Inr Some c assms ev
      have "ev \<in> set ?t0 \<or> ev \<in> set t2
          \<or> ev \<in> set (snd (snd (mapAsync (angleUnit env a ctx ?an)
                (anglesToGenerate (targetAngles a)) 0 w)))
          \<or> ev \<in> set (snd (snd (singleGeneration env a ctx ?an w)))"
        by (auto simp: multiImage_def Let_def analyzeProductFeatures_no_key case_prod_beta
            split: if_splits)
      then show ?thesis
        using t2 singleGeneration_no_key(2)[OF assms] angleUnit_no_key(2)[OF assms]
        by (auto dest: notify_status dest!: mapAsync_events)
    qed
  qed
qed

lemma run_no_key:
  assumes "\<not> truthy (runArguments.apiKey a)"
  shows "fst (snd (processImagesWithGemini env a w)) = w"
    and "ev \<in> set (snd (snd (processImagesWithGemini env a w))) \<Longrightarrow> \<exists>m. ev = Status m"
proof -
  show "fst (snd (processImagesWithGemini env a w)) = w"
    using multiImage_no_key(1)[OF assms, of env w]
      mapAsync_world[of "ghostUnit env a" "runArguments.sourceImages a" 0 w,
        OF ghostUnit_no_key(1)[OF assms]]
    by (simp add: processImagesWithGemini_cases case_prod_beta)
  assume "ev \<in> set (snd (snd (processImagesWithGemini env a w)))"
  then have "ev \<in> set (snd (snd (mapAsync (ghostUnit env a) (runArguments.sourceImages a) 0 w)))
      \<or> ev \<in> set (snd (snd (multiImage env a w)))"
    by (auto simp: processImagesWithGemini_cases case_prod_beta split: if_splits)
  then show "\<exists>m. ev = Status m"
    using multiImage_no_key(2)[OF assms, of ev env w] ghostUnit_no_key(2)[OF assms, of ev env]
    by (auto dest!: mapAsync_events)
qed

text \<open>
  Claim C6, as the code has it. A run whose credential is absent or empty makes no
  remote call and never enters the retry loop: its trace holds status messages only and
  the state of the world is left as it was. The analysis adapter answers with its
  defaults and the generation adapter throws ``API Key not provided.'' before any
  request; when there is at least one source image and the files can be read, the run
  rejects with that error.
\<close>

theorem run_without_credential:
  assumes "\<not> truthy (runArguments.apiKey a)"
  shows "(\<forall>ev \<in> set (snd (snd (processImagesWithGemini env a w))). \<exists>m. ev = Status m)
       \<and> fst (snd (processImagesWithGemini env a w)) = w
       \<and> (runArguments.sourceImages a \<noteq> [] \<and> readable (runArguments.sourceImages a)
          \<longrightarrow> fst (processImagesWithGemini env a w) = Inl (Error ''API Key not provided.''))"
proof (intro conjI impI ballI)
  fix ev assume "ev \<in> set (snd (snd (processImagesWithGemini env a w)))"
  then show "\<exists>m. ev = Status m" by (rule run_no_key(2)[OF assms])
next
  show "fst (snd (processImagesWithGemini env a w)) = w" by (rule run_no_key(1)[OF assms])
next
  assume "runArguments.sourceImages a \<noteq> [] \<and> readable (runArguments.sourceImages a)"
  then show "fst (processImagesWithGemini env a w) = Inl (Error ''API Key not provided.'')"
    using assms by (intro run_generator_error) (auto simp: callGeminiGenerator_no_key)
qed



theorem run_without_credential_witness:
  "\<not> truthy (runArguments.apiKey
        ((sampleRun ANGLES [imageA, imageB] ''Show it'')
           \<lparr>runArguments.apiKey := Some [], onStatusUpdate := True\<rparr>))
   \<and> snd (snd (processImagesWithGemini (envAlways (imageResponse ''QUJD''))
        ((sampleRun ANGLES [imageA, imageB] ''Show it'')
           \<lparr>runArguments.apiKey := Some [], onStatusUpdate := True\<rparr>) 0))
       = [Status ''Analyzing primary product features...'',
          Status ''Generating View: Front View...'',
          Status ''Generating View: Side View...'',
          Status ''Generating View: 3/4 Perspective View...'']
   \<and> fst (snd (processImagesWithGemini (envAlways (imageResponse ''QUJD''))
        ((sampleRun ANGLES [imageA, imageB] ''Show it'')
           \<lparr>runArguments.apiKey := Some [], onStatusUpdate := True\<rparr>) 0)) = 0
   \<and> runArguments.sourceImages
        ((sampleRun ANGLES [imageA, imageB] ''Show it'')
           \<lparr>runArguments.apiKey := Some [], onStatusUpdate := True\<rparr>) \<noteq> []
   \<and> readable (runArguments.sourceImages
        ((sampleRun ANGLES [imageA, imageB] ''Show it'')
           \<lparr>runArguments.apiKey := Some [], onStatusUpdate := True\<rparr>))
   \<and> fst (processImagesWithGemini (envAlways (imageResponse ''QUJD''))
        ((sampleRun ANGLES [imageA, imageB] ''Show it'')
           \<lparr>runArguments.apiKey := Some [], onStatusUpdate := True\<rparr>) 0)
       = Inl (Error ''API Key not provided.'')"
proof -
  let ?a = "(sampleRun ANGLES [imageA, imageB] ''Show it'')
           \<lparr>runArguments.apiKey := Some [], onStatusUpdate := True\<rparr>"
  have k: "\<not> truthy (runArguments.apiKey ?a)" by (simp add: sampleRun_def truthy_def)
  have s: "runArguments.sourceImages ?a \<noteq> []" by (simp add: sampleRun_def)
  have r: "readable (runArguments.sourceImages ?a)"
    by (simp add: sampleRun_def readable_def imageA_def imageB_def)
  have t: "snd (snd (processImagesWithGemini (envAlways (imageResponse ''QUJD'')) ?a 0))
       = [Status ''Analyzing primary product features...'',
          Status ''Generating View: Front View...'',
          Status ''Generating View: Side View...'',
          Status ''Generating View: 3/4 Perspective View...'']"
    by code_simp
  show ?thesis
    using run_without_credential[OF k, of "envAlways (imageResponse ''QUJD'')" 0] k s r t
    by simp
qed

text \<open>
  Claim C6 as stated fails for a run that has nothing to do: with no source image the
  per-image strategy starts no unit, nothing throws, and the run resolves with the empty
  list although the credential is absent.
\<close>

theorem run_without_credential_counterexample:
  "\<not> truthy (runArguments.apiKey
        ((sampleRun GHOST_MANNEQUIN [] ''Show it'')\<lparr>runArguments.apiKey := None\<rparr>))
   \<and> processImagesWithGemini (envAlways (imageResponse ''QUJD''))
        ((sampleRun GHOST_MANNEQUIN [] ''Show it'')\<lparr>runArguments.apiKey := None\<rparr>) 0
       = (Inr [], 0, [])"
  by code_simp




section \<open>The analysis never fails a run\<close>

lemma ghostUnit_generates:
  assumes "truthy (runArguments.apiKey a)" "fileToGenerativePart (imageFile img) = Inr p"
  shows "\<exists>r. Remote (GeneratorRequest r) \<in> set (snd (snd (ghostUnit env a img idx w)))"
proof -
  obtain an w1 t2 where an: "analyzeProductFeatures env (imageFile img) (runArguments.apiKey a)
      (onStatusUpdate a) w = (an, w1, t2)"
    by (cases "analyzeProductFeatures env (imageFile img) (runArguments.apiKey a)
      (onStatusUpdate a) w") auto
  let ?ps = "ghostRequestParts a p (description an)"
  obtain r w2 t4 where g: "callGeminiGenerator env ?ps
      (runArguments.apiKey a) (runArguments.imageQuality a) (onStatusUpdate a) ''3:4'' w1
      = (r, w2, t4)"
    by (cases "callGeminiGenerator env ?ps
      (runArguments.apiKey a) (runArguments.imageQuality a) (onStatusUpdate a) ''3:4'' w1") auto
  have "Remote (GeneratorRequest \<lparr>contents = ?ps, imageSize = runArguments.imageQuality a,
      aspectRatio = ''3:4''\<rparr>) \<in> set t4"
    using callGeminiGenerator_first[OF assms(1), of ?ps "runArguments.imageQuality a" "''3:4''"
        env "onStatusUpdate a" w1] g by simp
  then show ?thesis
    using assms(2) an g by (cases r) (auto simp: ghostUnit_def Let_def)
qed

lemma angleUnit_generates:
  assumes "truthy (runArguments.apiKey a)"
  shows "\<exists>r. Remote (GeneratorRequest r) \<in> set (snd (snd (angleUnit env a ctx an angle idx w)))"
proof -
  let ?ps = "ctx @ [TextPart (''TASK: ''
                     @ anglePromptWithAnalysis (runArguments.customPrompt a)
                         (selectedBodyType a) angle (description an))]"
  obtain r w2 t4 where g: "callGeminiGenerator env ?ps
      (runArguments.apiKey a) (runArguments.imageQuality a) (onStatusUpdate a) ''3:4'' w
      = (r, w2, t4)"
    by (cases "callGeminiGenerator env ?ps
      (runArguments.apiKey a) (runArguments.imageQuality a) (onStatusUpdate a) ''3:4'' w") auto
  have "Remote (GeneratorRequest \<lparr>contents = ?ps, imageSize = runArguments.imageQuality a,
      aspectRatio = ''3:4''\<rparr>) \<in> set t4"
    using callGeminiGenerator_first[OF assms(1), of ?ps "runArguments.imageQuality a" "''3:4''"
        env "onStatusUpdate a" w] g by simp
  then show ?thesis
    using g by (cases r) (auto simp: angleUnit_def Let_def)
qed

lemma singleGeneration_generates:
  assumes "truthy (runArguments.apiKey a)"
  shows "\<exists>r. Remote (GeneratorRequest r) \<in> set (snd (snd (singleGeneration env a ctx an w)))"
proof -
  let ?ps = "ctx @ [TextPart (''TASK: '' @ finalPromptWithAnalysis a (description an))]"
  obtain r w2 t4 where g: "callGeminiGenerator env ?ps
      (runArguments.apiKey a) (runArguments.imageQuality a) (onStatusUpdate a)
      (targetAspectRatio a) w = (r, w2, t4)"
    by (cases "callGeminiGenerator env ?ps
      (runArguments.apiKey a) (runArguments.imageQuality a) (onStatusUpdate a)
      (targetAspectRatio a) w") auto
  have "Remote (GeneratorRequest \<lparr>contents = ?ps, imageSize = runArguments.imageQuality a,
      aspectRatio = targetAspectRatio a\<rparr>) \<in> set t4"
    using callGeminiGenerator_first[OF assms(1), of ?ps "runArguments.imageQuality a"
        "targetAspectRatio a" env "onStatusUpdate a" w] g by simp
  then show ?thesis
    using g by (cases r) (auto simp: singleGeneration_def Let_def)
qed

lemma generatorRequests_append [simp]:
  "generatorRequests (t1 @ t2) = generatorRequests t1 @ generatorRequests t2"
  by (induction t1 rule: generatorRequests.induct) auto

lemma generatorRequests_notify [simp]: "generatorRequests (notify s m) = []"
  by (simp add: notify_def)

lemma generatorRequests_none:
  "(\<And>r. Remote (GeneratorRequest r) \<notin> set tr) \<Longrightarrow> generatorRequests tr = []"
  by (induction tr rule: generatorRequests.induct) auto

lemma generatorRequests_mem:
  "Remote (GeneratorRequest r) \<in> set tr \<Longrightarrow> generatorRequests tr \<noteq> []"
  by (induction tr rule: generatorRequests.induct) auto

lemma generatorRequests_analysis [simp]:
  "generatorRequests (snd (snd (analyzeProductFeatures env f key s w))) = []"
proof (rule generatorRequests_none)
  fix r
  show "Remote (GeneratorRequest r) \<notin> set (snd (snd (analyzeProductFeatures env f key s w)))"
    using analyzeProductFeatures_remote[of "GeneratorRequest r" env f key s w] by auto
qed

lemma generatorRequests_contextParts [simp]: "generatorRequests (snd (contextParts a)) = []"
  by (rule generatorRequests_none) (rule contextParts_not_remote)

lemma mapAsync_requests_lower:
  assumes "\<And>x i w. x \<in> set xs \<Longrightarrow> generatorRequests (snd (snd (f x i w))) \<noteq> []"
  shows "length xs \<le> length (generatorRequests (snd (snd (mapAsync f xs i w))))"
  using assms
proof (induction xs arbitrary: i w)
  case Nil
  then show ?case by simp
next
  case (Cons x xs)
  obtain r w1 t1 where f: "f x i w = (r, w1, t1)" by (cases "f x i w") auto
  obtain rs w2 t2 where m: "mapAsync f xs (i + 1) w1 = (rs, w2, t2)"
    by (cases "mapAsync f xs (i + 1) w1") auto
  have "generatorRequests t1 \<noteq> []" using Cons.prems[of x i w] f by simp
  then have "1 \<le> length (generatorRequests t1)" by (cases "generatorRequests t1") auto
  moreover have "length xs \<le> length (generatorRequests t2)"
    using Cons.IH[of "i + 1" w1] Cons.prems m by simp
  ultimately show ?case using f m by simp
qed

lemma mapAsync_requests_exact:
  assumes "\<And>x i w. x \<in> set xs \<Longrightarrow> length (generatorRequests (snd (snd (f x i w)))) = 1"
  shows "length (generatorRequests (snd (snd (mapAsync f xs i w)))) = length xs"
  using assms
proof (induction xs arbitrary: i w)
  case Nil
  then show ?case by simp
next
  case (Cons x xs)
  obtain r w1 t1 where f: "f x i w = (r, w1, t1)" by (cases "f x i w") auto
  obtain rs w2 t2 where m: "mapAsync f xs (i + 1) w1 = (rs, w2, t2)"
    by (cases "mapAsync f xs (i + 1) w1") auto
  have "length (generatorRequests t1) = 1" using Cons.prems[of x i w] f by simp
  moreover have "length (generatorRequests t2) = length xs"
    using Cons.IH[of "i + 1" w1] Cons.prems m by simp
  ultimately show ?case using f m by simp
qed

lemma mapAsync_all_succeed:
  assumes "\<And>x i w. x \<in> set xs \<Longrightarrow> \<exists>v. fst (f x i w) = Inr v \<and> P v"
  shows "\<exists>vs. Promise_all (fst (mapAsync f xs i w)) = Inr vs \<and> length vs = length xs
     \<and> (\<forall>v \<in> set vs. P v)"
  using assms
proof (induction xs arbitrary: i w)
  case Nil
  then show ?case by simp
next
  case (Cons x xs)
  obtain r w1 t1 where f: "f x i w = (r, w1, t1)" by (cases "f x i w") auto
  obtain rs w2 t2 where m: "mapAsync f xs (i + 1) w1 = (rs, w2, t2)"
    by (cases "mapAsync f xs (i + 1) w1") auto
  from Cons.prems[of x i w] f obtain v where v: "r = Inr v" "P v" by auto
  from Cons.IH[of "i + 1" w1] Cons.prems m obtain vs where
    vs: "Promise_all rs = Inr vs" "length vs = length xs" "\<forall>v \<in> set vs. P v"
    by auto
  show ?case using f m v vs by simp
qed

lemma Promise_all_Inl: "Promise_all rs = Inl e \<Longrightarrow> Inl e \<in> set rs"
proof (induction rs)
  case Nil
  then show ?case by simp
next
  case (Cons r rs)
  then show ?case by (cases r) (auto split: sum.splits)
qed

lemma mapAsync_error_source:
  assumes "Promise_all (fst (mapAsync f xs i w)) = Inl e"
  shows "\<exists>x \<in> set xs. \<exists>j w'. fst (f x j w') = Inl e"
proof -
  from Promise_all_Inl[OF assms] obtain k where
    k: "k < length xs" "fst (mapAsync f xs i w) ! k = Inl e"
    by (auto simp: in_set_conv_nth mapAsync_length)
  from mapAsync_nth[OF k(1), of f i w] obtain w' where
    "fst (mapAsync f xs i w) ! k = fst (f (xs ! k) (i + k) w')" by blast
  with k have "fst (f (xs ! k) (i + k) w') = Inl e" by simp
  with k(1) show ?thesis by (metis nth_mem)
qed

text \<open>An error of a unit is an error of its call of the generation adapter.\<close>

lemma ghostUnit_error_source:
  assumes "fileToGenerativePart (imageFile img) = Inr p"
    and "fst (ghostUnit env a img idx w) = Inl e"
  shows "\<exists>ps w'. fst (callGeminiGenerator env ps (runArguments.apiKey a)
      (runArguments.imageQuality a) (onStatusUpdate a) ''3:4'' w') = Inl e"
proof -
  obtain an w1 t2 where an: "analyzeProductFeatures env (imageFile img) (runArguments.apiKey a)
      (onStatusUpdate a) w = (an, w1, t2)"
    by (cases "analyzeProductFeatures env (imageFile img) (runArguments.apiKey a)
      (onStatusUpdate a) w") auto
  let ?ps = "ghostRequestParts a p (description an)"
  obtain r w2 t4 where g: "callGeminiGenerator env ?ps
      (runArguments.apiKey a) (runArguments.imageQuality a) (onStatusUpdate a) ''3:4'' w1
      = (r, w2, t4)"
    by (cases "callGeminiGenerator env ?ps
      (runArguments.apiKey a) (runArguments.imageQuality a) (onStatusUpdate a) ''3:4'' w1") auto
  from assms an g have "r = Inl e"
    by (cases r) (auto simp: ghostUnit_def Let_def)
  with g have "fst (callGeminiGenerator env ?ps
      (runArguments.apiKey a) (runArguments.imageQuality a) (onStatusUpdate a) ''3:4'' w1) = Inl e"
    by simp
  then show ?thesis by blast
qed

lemma angleUnit_error_source:
  assumes "fst (angleUnit env a ctx an angle idx w) = Inl e"
  shows "\<exists>ps w'. fst (callGeminiGenerator env ps (runArguments.apiKey a)
      (runArguments.imageQuality a) (onStatusUpdate a) ''3:4'' w') = Inl e"
proof -
  let ?ps = "ctx @ [TextPart (''TASK: ''
                     @ anglePromptWithAnalysis (runArguments.customPrompt a)
                         (selectedBodyType a) angle (description an))]"
  obtain r w2 t4 where g: "callGeminiGenerator env ?ps
      (runArguments.apiKey a) (runArguments.imageQuality a) (onStatusUpdate a) ''3:4'' w
      = (r, w2, t4)"
    by (cases "callGeminiGenerator env ?ps
      (runArguments.apiKey a) (runArguments.imageQuality a) (onStatusUpdate a) ''3:4'' w") auto
  from assms g have "r = Inl e"
    by (cases r) (auto simp: angleUnit_def Let_def)
  with g have "fst (callGeminiGenerator env ?ps
      (runArguments.apiKey a) (runArguments.imageQuality a) (onStatusUpdate a) ''3:4'' w) = Inl e"
    by simp
  then show ?thesis by blast
qed

lemma singleGeneration_error_source:
  assumes "fst (singleGeneration env a ctx an w) = Inl e"
  shows "\<exists>ps w'. fst (callGeminiGenerator env ps (runArguments.apiKey a)
      (runArguments.imageQuality a) (onStatusUpdate a) (targetAspectRatio a) w') = Inl e"
proof -
  let ?ps = "ctx @ [TextPart (''TASK: '' @ finalPromptWithAnalysis a (description an))]"
  obtain r w2 t4 where g: "callGeminiGenerator env ?ps
      (runArguments.apiKey a) (runArguments.imageQuality a) (onStatusUpdate a)
      (targetAspectRatio a) w = (r, w2, t4)"
    by (cases "callGeminiGenerator env ?ps
      (runArguments.apiKey a) (runArguments.imageQuality a) (onStatusUpdate a)
      (targetAspectRatio a) w") auto
  from assms g have "r = Inl e"
    by (cases r) (auto simp: singleGeneration_def Let_def)
  with g have "fst (callGeminiGenerator env ?ps
      (runArguments.apiKey a) (runArguments.imageQuality a) (onStatusUpdate a)
      (targetAspectRatio a) w) = Inl e"
    by simp
  then show ?thesis by blast
qed

text \<open>
  A run over readable source images, at least one, fails only with an error of the
  generation adapter: the analysis has no way to fail it.
\<close>

lemma run_error_source:
  assumes "readable (runArguments.sourceImages a)" "runArguments.sourceImages a \<noteq> []"
    and "fst (processImagesWithGemini env a w) = Inl e"
  shows "\<exists>ps ratio w'. fst (callGeminiGenerator env ps (runArguments.apiKey a)
      (runArguments.imageQuality a) (onStatusUpdate a) ratio w') = Inl e"
proof (cases "presetId a = GHOST_MANNEQUIN")
  case True
  with assms(3) have "Promise_all (fst (mapAsync (ghostUnit env a)
      (runArguments.sourceImages a) 0 w)) = Inl e"
    by (simp add: processImagesWithGemini_cases case_prod_beta)
  from mapAsync_error_source[OF this] obtain img j w' where
    img: "img \<in> set (runArguments.sourceImages a)"
    and u: "fst (ghostUnit env a img j w') = Inl e"
    by blast
  from readable_file[OF assms(1) img] obtain p where
    "fileToGenerativePart (imageFile img) = Inr p" by blast
  from ghostUnit_error_source[OF this u] show ?thesis by blast
next
  case False
  obtain p where p: "primaryImg (runArguments.sourceImages a) = Some p"
    using primaryImg_some[OF assms(2)] by blast
  obtain an w1 t1 where an: "analyzeProductFeatures env (imageFile p) (runArguments.apiKey a)
      (onStatusUpdate a) w = (an, w1, t1)"
    by (cases "analyzeProductFeatures env (imageFile p) (runArguments.apiKey a)
      (onStatusUpdate a) w") auto
  obtain ctx t2 where ctx: "contextParts a = (Inr ctx, t2)"
    using readable_contextParts[OF assms(1)] by blast
  show ?thesis
  proof (cases "presetId a = ANGLES")
    case True
    with False p an ctx assms(3) have "Promise_all (fst (mapAsync (angleUnit env a ctx an)
        (anglesToGenerate (targetAngles a)) 0 w1)) = Inl e"
      by (simp add: processImagesWithGemini_cases multiImage_def Let_def case_prod_beta)
    from mapAsync_error_source[OF this] obtain angle j w' where
      "fst (angleUnit env a ctx an angle j w') = Inl e" by blast
    from angleUnit_error_source[OF this] show ?thesis by blast
  next
    case notAngles: False
    with False p an ctx assms(3) have "fst (singleGeneration env a ctx an w1) = Inl e"
      by (simp add: processImagesWithGemini_cases multiImage_def Let_def case_prod_beta)
    from singleGeneration_error_source[OF this] show ?thesis by blast
  qed
qed

text \<open>Every unit of a run with a credential sends a request to the generator.\<close>

lemma run_generates_each:
  assumes "truthy (runArguments.apiKey a)" "runArguments.sourceImages a \<noteq> []"
    "readable (runArguments.sourceImages a)"
  shows "generationUnits a
     \<le> length (generatorRequests (snd (snd (processImagesWithGemini env a w))))"
proof (cases "presetId a = GHOST_MANNEQUIN")
  case True
  have "length (runArguments.sourceImages a)
      \<le> length (generatorRequests (snd (snd (mapAsync (ghostUnit env a)
           (runArguments.sourceImages a) 0 w))))"
  proof (rule mapAsync_requests_lower)
    fix img i w'
    assume "img \<in> set (runArguments.sourceImages a)"
    from readable_file[OF assms(3) this] obtain p where
      "fileToGenerativePart (imageFile img) = Inr p" by blast
    from ghostUnit_generates[OF assms(1) this, of env i w'] obtain r where
      "Remote (GeneratorRequest r) \<in> set (snd (snd (ghostUnit env a img i w')))" by blast
    then show "generatorRequests (snd (snd (ghostUnit env a img i w'))) \<noteq> []"
      by (rule generatorRequests_mem)
  qed
  with True show ?thesis
    by (simp add: processImagesWithGemini_cases case_prod_beta generationUnits_def)
next
  case False
  obtain p where p: "primaryImg (runArguments.sourceImages a) = Some p"
    using primaryImg_some[OF assms(2)] by blast
  obtain an w1 t1 where an: "analyzeProductFeatures env (imageFile p) (runArguments.apiKey a)
      (onStatusUpdate a) w = (an, w1, t1)"
    by (cases "analyzeProductFeatures env (imageFile p) (runArguments.apiKey a)
      (onStatusUpdate a) w") auto
  obtain ctx t2 where ctx: "contextParts a = (Inr ctx, t2)"
    using readable_contextParts[OF assms(3)] by blast
  show ?thesis
  proof (cases "presetId a = ANGLES")
    case True
    have "length (anglesToGenerate (targetAngles a))
        \<le> length (generatorRequests (snd (snd (mapAsync (angleUnit env a ctx an)
             (anglesToGenerate (targetAngles a)) 0 w1))))"
    proof (rule mapAsync_requests_lower)
      fix angle i w'
      from angleUnit_generates[OF assms(1), of env ctx an angle i w'] obtain r where
        "Remote (GeneratorRequest r) \<in> set (snd (snd (angleUnit env a ctx an angle i w')))"
        by blast
      then show "generatorRequests (snd (snd (angleUnit env a ctx an angle i w'))) \<noteq> []"
        by (rule generatorRequests_mem)
    qed
    with True False p an ctx show ?thesis
      by (simp add: processImagesWithGemini_cases multiImage_def Let_def case_prod_beta
          generationUnits_def)
  next
    case notAngles: False
    from singleGeneration_generates[OF assms(1), of env ctx an w1] obtain r where
      "Remote (GeneratorRequest r) \<in> set (snd (snd (singleGeneration env a ctx an w1)))"
      by blast
    then have "generatorRequests (snd (snd (singleGeneration env a ctx an w1))) \<noteq> []"
      by (rule generatorRequests_mem)
    then have "1 \<le> length (generatorRequests (snd (snd (singleGeneration env a ctx an w1))))"
      by (cases "generatorRequests (snd (snd (singleGeneration env a ctx an w1)))") auto
    with notAngles False p an ctx show ?thesis
      by (simp add: processImagesWithGemini_cases multiImage_def Let_def case_prod_beta
          generationUnits_def)
  qed
qed

text \<open>A generator that answers every request with an image.\<close>

lemma callGeminiGenerator_answers:
  assumes "alwaysAnswers env r" "extractImage r = Inr u" "truthy key"
  shows "\<exists>w1. callGeminiGenerator env ps key sz s ratio w
     = (Inr u, w1,
        [Invoked, Remote (GeneratorRequest \<lparr>contents = ps, imageSize = sz, aspectRatio = ratio\<rparr>)])"
proof -
  obtain x w1 where g: "generatorModel env (the key)
      \<lparr>contents = ps, imageSize = sz, aspectRatio = ratio\<rparr> w = (x, w1)"
    by (cases "generatorModel env (the key)
      \<lparr>contents = ps, imageSize = sz, aspectRatio = ratio\<rparr> w") auto
  with assms(1) have "x = Inr r" unfolding alwaysAnswers_def by (metis fst_conv)
  with g have g': "generatorModel env (the key)
      \<lparr>contents = ps, imageSize = sz, aspectRatio = ratio\<rparr> w = (Inr r, w1)" by simp
  have "extractImage r = Inr u \<or> (extractImage r = Inl undefined \<and> \<not> isTransient undefined)"
    using assms(2) by simp
  from callGeminiGenerator_settled[OF assms(3) g' this, of s] assms(2) show ?thesis by auto
qed

lemma ghostUnit_answers:
  assumes "alwaysAnswers env r" "extractImage r = Inr u" "truthy (runArguments.apiKey a)"
    and "fileToGenerativePart (imageFile img) = Inr p"
  shows "(\<exists>v. fst (ghostUnit env a img idx w) = Inr v \<and> url v = u)
     \<and> length (generatorRequests (snd (snd (ghostUnit env a img idx w)))) = 1"
proof -
  obtain an w1 t2 where an: "analyzeProductFeatures env (imageFile img) (runArguments.apiKey a)
      (onStatusUpdate a) w = (an, w1, t2)"
    by (cases "analyzeProductFeatures env (imageFile img) (runArguments.apiKey a)
      (onStatusUpdate a) w") auto
  have t2: "generatorRequests t2 = []"
    using generatorRequests_analysis[of env "imageFile img" "runArguments.apiKey a"
        "onStatusUpdate a" w] an by simp
  let ?ps = "ghostRequestParts a p (description an)"
  from callGeminiGenerator_answers[OF assms(1-3), of ?ps "runArguments.imageQuality a"
      "onStatusUpdate a" "''3:4''" w1]
  obtain w2 where g: "callGeminiGenerator env ?ps (runArguments.apiKey a)
      (runArguments.imageQuality a) (onStatusUpdate a) ''3:4'' w1
      = (Inr u, w2, [Invoked, Remote (GeneratorRequest
           \<lparr>contents = ?ps, imageSize = runArguments.imageQuality a, aspectRatio = ''3:4''\<rparr>)])"
    by blast
  show ?thesis using an g assms(4) t2 by (simp add: ghostUnit_def Let_def)
qed

lemma angleUnit_answers:
  assumes "alwaysAnswers env r" "extractImage r = Inr u" "truthy (runArguments.apiKey a)"
  shows "(\<exists>v. fst (angleUnit env a ctx an angle idx w) = Inr v \<and> url v = u)
     \<and> length (generatorRequests (snd (snd (angleUnit env a ctx an angle idx w)))) = 1"
proof -
  let ?ps = "ctx @ [TextPart (''TASK: ''
                     @ anglePromptWithAnalysis (runArguments.customPrompt a)
                         (selectedBodyType a) angle (description an))]"
  from callGeminiGenerator_answers[OF assms(1-3), of ?ps "runArguments.imageQuality a"
      "onStatusUpdate a" "''3:4''" w]
  obtain w2 where g: "callGeminiGenerator env ?ps (runArguments.apiKey a)
      (runArguments.imageQuality a) (onStatusUpdate a) ''3:4'' w
      = (Inr u, w2, [Invoked, Remote (GeneratorRequest
           \<lparr>contents = ?ps, imageSize = runArguments.imageQuality a, aspectRatio = ''3:4''\<rparr>)])"
    by blast
  show ?thesis using g by (simp add: angleUnit_def Let_def)
qed

lemma singleGeneration_answers:
  assumes "alwaysAnswers env r" "extractImage r = Inr u" "truthy (runArguments.apiKey a)"
  shows "(\<exists>v. fst (singleGeneration env a ctx an w) = Inr [v] \<and> url v = u)
     \<and> length (generatorRequests (snd (snd (singleGeneration env a ctx an w)))) = 1"
proof -
  let ?ps = "ctx @ [TextPart (''TASK: '' @ finalPromptWithAnalysis a (description an))]"
  from callGeminiGenerator_answers[OF assms(1-3), of ?ps "runArguments.imageQuality a"
      "onStatusUpdate a" "targetAspectRatio a" w]
  obtain w2 where g: "callGeminiGenerator env ?ps (runArguments.apiKey a)
      (runArguments.imageQuality a) (onStatusUpdate a) (targetAspectRatio a) w
      = (Inr u, w2, [Invoked, Remote (GeneratorRequest
           \<lparr>contents = ?ps, imageSize = runArguments.imageQuality a,
            aspectRatio = targetAspectRatio a\<rparr>)])"
    by blast
  show ?thesis using g by (simp add: singleGeneration_def Let_def)
qed

text \<open>
  When the generator answers every request with an image, a run with a credential over
  readable source images, at least one, succeeds with one image and one request to the
  generator per unit, whatever the analyzer and \<^verbatim>\<open>JSON.parse\<close> do.
\<close>

lemma run_answers:
  assumes "alwaysAnswers env r" "extractImage r = Inr u" "truthy (runArguments.apiKey a)"
    and "runArguments.sourceImages a \<noteq> []" "readable (runArguments.sourceImages a)"
  shows "\<exists>imgs. fst (processImagesWithGemini env a w) = Inr imgs
     \<and> length imgs = generationUnits a \<and> (\<forall>img \<in> set imgs. url img = u)
     \<and> length (generatorRequests (snd (snd (processImagesWithGemini env a w))))
         = generationUnits a"
proof (cases "presetId a = GHOST_MANNEQUIN")
  case True
  let ?xs = "runArguments.sourceImages a"
  have unit: "\<And>img i w'. img \<in> set ?xs \<Longrightarrow>
      (\<exists>v. fst (ghostUnit env a img i w') = Inr v \<and> url v = u)
      \<and> length (generatorRequests (snd (snd (ghostUnit env a img i w')))) = 1"
  proof -
    fix img i w' assume "img \<in> set ?xs"
    from readable_file[OF assms(5) this] obtain p where
      "fileToGenerativePart (imageFile img) = Inr p" by blast
    from ghostUnit_answers[OF assms(1-3) this]
    show "(\<exists>v. fst (ghostUnit env a img i w') = Inr v \<and> url v = u)
      \<and> length (generatorRequests (snd (snd (ghostUnit env a img i w')))) = 1" .
  qed
  obtain vs where vs: "Promise_all (fst (mapAsync (ghostUnit env a) ?xs 0 w)) = Inr vs"
    "length vs = length ?xs" "\<forall>v \<in> set vs. url v = u"
    using mapAsync_all_succeed[of ?xs "ghostUnit env a" "\<lambda>v. url v = u" 0 w] unit by blast
  have n: "length (generatorRequests (snd (snd (mapAsync (ghostUnit env a) ?xs 0 w))))
      = length ?xs"
    using unit by (intro mapAsync_requests_exact) blast
  show ?thesis using True vs n
    by (simp add: processImagesWithGemini_cases case_prod_beta generationUnits_def)
next
  case False
  obtain p where p: "primaryImg (runArguments.sourceImages a) = Some p"
    using primaryImg_some[OF assms(4)] by blast
  obtain an w1 t1 where an: "analyzeProductFeatures env (imageFile p) (runArguments.apiKey a)
      (onStatusUpdate a) w = (an, w1, t1)"
    by (cases "analyzeProductFeatures env (imageFile p) (runArguments.apiKey a)
      (onStatusUpdate a) w") auto
  have t1: "generatorRequests t1 = []"
    using generatorRequests_analysis[of env "imageFile p" "runArguments.apiKey a"
        "onStatusUpdate a" w] an by simp
  obtain ctx t2 where ctx: "contextParts a = (Inr ctx, t2)"
    using readable_contextParts[OF assms(5)] by blast
  have t2: "generatorRequests t2 = []"
    using generatorRequests_contextParts[of a] ctx by simp
  show ?thesis
  proof (cases "presetId a = ANGLES")
    case True
    let ?xs = "anglesToGenerate (targetAngles a)"
    obtain vs where vs: "Promise_all (fst (mapAsync (angleUnit env a ctx an) ?xs 0 w1)) = Inr vs"
      "length vs = length ?xs" "\<forall>v \<in> set vs. url v = u"
      using mapAsync_all_succeed[of ?xs "angleUnit env a ctx an" "\<lambda>v. url v = u" 0 w1]
        angleUnit_answers[OF assms(1-3)] by blast
    have n: "length (generatorRequests (snd (snd (mapAsync (angleUnit env a ctx an) ?xs 0 w1))))
        = length ?xs"
      using angleUnit_answers[OF assms(1-3)] by (intro mapAsync_requests_exact) blast
    show ?thesis using True False p an ctx vs n t1 t2
      by (simp add: processImagesWithGemini_cases multiImage_def Let_def case_prod_beta
          generationUnits_def)
  next
    case notAngles: False
    from singleGeneration_answers[OF assms(1-3), of ctx an w1] obtain v where
      "fst (singleGeneration env a ctx an w1) = Inr [v]" "url v = u"
      "length (generatorRequests (snd (snd (singleGeneration env a ctx an w1)))) = 1"
      by blast
    then show ?thesis using notAngles False p an ctx t1 t2
      by (simp add: processImagesWithGemini_cases multiImage_def Let_def case_prod_beta
          generationUnits_def)
  qed
qed

lemma mapAsync_unit_events:
  "x \<in> set xs \<Longrightarrow>
   \<exists>j w'. set (snd (snd (f x j w'))) \<subseteq> set (snd (snd (mapAsync f xs i w)))"
proof (induction xs arbitrary: i w)
  case Nil
  then show ?case by simp
next
  case (Cons y ys)
  obtain r w1 t1 where f: "f y i w = (r, w1, t1)" by (cases "f y i w") auto
  obtain rs w2 t2 where m: "mapAsync f ys (i + 1) w1 = (rs, w2, t2)"
    by (cases "mapAsync f ys (i + 1) w1") auto
  show ?case
  proof (cases "x = y")
    case True
    have "set (snd (snd (f x i w))) \<subseteq> set (snd (snd (mapAsync f (y # ys) i w)))"
      using True f m by auto
    then show ?thesis by blast
  next
    case False
    with Cons.prems have "x \<in> set ys" by simp
    from Cons.IH[OF this, of "i + 1" w1] obtain j w' where
      "set (snd (snd (f x j w'))) \<subseteq> set (snd (snd (mapAsync f ys (i + 1) w1)))" by blast
    then have "set (snd (snd (f x j w'))) \<subseteq> set (snd (snd (mapAsync f (y # ys) i w)))"
      using f m by auto
    then show ?thesis by blast
  qed
qed

text \<open>The request of a unit: it holds the unit's image, or the unit's angle.\<close>

lemma ghostUnit_request:
  assumes "truthy (runArguments.apiKey a)" "fileToGenerativePart (imageFile img) = Inr p"
  shows "\<exists>r. Remote (GeneratorRequest r) \<in> set (snd (snd (ghostUnit env a img idx w)))
     \<and> p \<in> set (contents r)"
proof -
  obtain an w1 t2 where an: "analyzeProductFeatures env (imageFile img) (runArguments.apiKey a)
      (onStatusUpdate a) w = (an, w1, t2)"
    by (cases "analyzeProductFeatures env (imageFile img) (runArguments.apiKey a)
      (onStatusUpdate a) w") auto
  let ?ps = "ghostRequestParts a p (description an)"
  let ?r = "\<lparr>contents = ?ps, imageSize = runArguments.imageQuality a, aspectRatio = ''3:4''\<rparr>"
  obtain x w2 t4 where g: "callGeminiGenerator env ?ps
      (runArguments.apiKey a) (runArguments.imageQuality a) (onStatusUpdate a) ''3:4'' w1
      = (x, w2, t4)"
    by (cases "callGeminiGenerator env ?ps
      (runArguments.apiKey a) (runArguments.imageQuality a) (onStatusUpdate a) ''3:4'' w1") auto
  have "Remote (GeneratorRequest ?r) \<in> set t4"
    using callGeminiGenerator_first[OF assms(1), of ?ps "runArguments.imageQuality a" "''3:4''"
        env "onStatusUpdate a" w1] g by simp
  then have "Remote (GeneratorRequest ?r) \<in> set (snd (snd (ghostUnit env a img idx w)))"
    using assms(2) an g by (cases x) (auto simp: ghostUnit_def Let_def)
  moreover have "p \<in> set (contents ?r)" by (simp add: ghostRequestParts_def)
  ultimately show ?thesis by blast
qed

lemma angleUnit_request:
  assumes "truthy (runArguments.apiKey a)"
  shows "\<exists>r rest. Remote (GeneratorRequest r)
       \<in> set (snd (snd (angleUnit env a ctx an angle idx w)))
     \<and> taskOf r = TextPart (''TASK: ''
         @ anglePrompt (replace (runArguments.customPrompt a) ''<BodyType>''
              (selectedBodyType a)) angle
         @ ''\<newline>'' @ rest)"
proof -
  let ?ps = "ctx @ [TextPart (''TASK: ''
                     @ anglePromptWithAnalysis (runArguments.customPrompt a)
                         (selectedBodyType a) angle (description an))]"
  let ?r = "\<lparr>contents = ?ps, imageSize = runArguments.imageQuality a, aspectRatio = ''3:4''\<rparr>"
  obtain x w2 t4 where g: "callGeminiGenerator env ?ps
      (runArguments.apiKey a) (runArguments.imageQuality a) (onStatusUpdate a) ''3:4'' w
      = (x, w2, t4)"
    by (cases "callGeminiGenerator env ?ps
      (runArguments.apiKey a) (runArguments.imageQuality a) (onStatusUpdate a) ''3:4'' w") auto
  have "Remote (GeneratorRequest ?r) \<in> set t4"
    using callGeminiGenerator_first[OF assms(1), of ?ps "runArguments.imageQuality a" "''3:4''"
        env "onStatusUpdate a" w] g by simp
  then have "Remote (GeneratorRequest ?r) \<in> set (snd (snd (angleUnit env a ctx an angle idx w)))"
    using g by (cases x) (auto simp: angleUnit_def Let_def)
  moreover have "taskOf ?r = TextPart (''TASK: ''
         @ anglePrompt (replace (runArguments.customPrompt a) ''<BodyType>''
              (selectedBodyType a)) angle
         @ ''\<newline>'' @ (strictBodyInstruction (selectedBodyType a)
         @ ''\<newline>\<newline>IMPORTANT - PRESERVE THESE DETECTED PRODUCT DETAILS:\<newline>''
         @ description an))"
    by (simp add: taskOf_def anglePromptWithAnalysis_def)
  ultimately show ?thesis by blast
qed

text \<open>
  In a run with a credential over readable source images, at least one, every unit
  sends its request to the generator: each source image is in a request, each angle has
  a request with its instruction, the composite has its request.
\<close>

lemma run_generates_every_unit:
  assumes "truthy (runArguments.apiKey a)" "runArguments.sourceImages a \<noteq> []"
    "readable (runArguments.sourceImages a)"
  shows "if presetId a = GHOST_MANNEQUIN
     then \<forall>img \<in> set (runArguments.sourceImages a). \<exists>p r.
            fileToGenerativePart (imageFile img) = Inr p
            \<and> Remote (GeneratorRequest r) \<in> set (snd (snd (processImagesWithGemini env a w)))
            \<and> p \<in> set (contents r)
     else if presetId a = ANGLES
     then \<forall>angle \<in> set (anglesToGenerate (targetAngles a)). \<exists>r rest.
            Remote (GeneratorRequest r) \<in> set (snd (snd (processImagesWithGemini env a w)))
            \<and> taskOf r = TextPart (''TASK: ''
                @ anglePrompt (replace (runArguments.customPrompt a) ''<BodyType>''
                     (selectedBodyType a)) angle
                @ ''\<newline>'' @ rest)
     else \<exists>r. Remote (GeneratorRequest r) \<in> set (snd (snd (processImagesWithGemini env a w)))"
proof (cases "presetId a = GHOST_MANNEQUIN")
  case True
  have "\<forall>img \<in> set (runArguments.sourceImages a). \<exists>p r.
            fileToGenerativePart (imageFile img) = Inr p
            \<and> Remote (GeneratorRequest r) \<in> set (snd (snd (processImagesWithGemini env a w)))
            \<and> p \<in> set (contents r)"
  proof
    fix img assume img: "img \<in> set (runArguments.sourceImages a)"
    from readable_file[OF assms(3) img] obtain p where
      p: "fileToGenerativePart (imageFile img) = Inr p" by blast
    from mapAsync_unit_events[OF img, of "ghostUnit env a" 0 w] obtain j w' where
      sub: "set (snd (snd (ghostUnit env a img j w')))
        \<subseteq> set (snd (snd (mapAsync (ghostUnit env a) (runArguments.sourceImages a) 0 w)))"
      by blast
    from ghostUnit_request[OF assms(1) p, of env j w'] obtain r where
      "Remote (GeneratorRequest r) \<in> set (snd (snd (ghostUnit env a img j w')))"
      "p \<in> set (contents r)" by blast
    with sub have "Remote (GeneratorRequest r)
        \<in> set (snd (snd (mapAsync (ghostUnit env a) (runArguments.sourceImages a) 0 w)))"
      by blast
    with True have "Remote (GeneratorRequest r)
        \<in> set (snd (snd (processImagesWithGemini env a w)))"
      by (simp add: processImagesWithGemini_cases case_prod_beta)
    with p \<open>p \<in> set (contents r)\<close>
    show "\<exists>p r. fileToGenerativePart (imageFile img) = Inr p
            \<and> Remote (GeneratorRequest r) \<in> set (snd (snd (processImagesWithGemini env a w)))
            \<and> p \<in> set (contents r)"
      by blast
  qed
  with True show ?thesis by simp
next
  case False
  obtain p where p: "primaryImg (runArguments.sourceImages a) = Some p"
    using primaryImg_some[OF assms(2)] by blast
  obtain an w1 t1 where an: "analyzeProductFeatures env (imageFile p) (runArguments.apiKey a)
      (onStatusUpdate a) w = (an, w1, t1)"
    by (cases "analyzeProductFeatures env (imageFile p) (runArguments.apiKey a)
      (onStatusUpdate a) w") auto
  obtain ctx t2 where ctx: "contextParts a = (Inr ctx, t2)"
    using readable_contextParts[OF assms(3)] by blast
  show ?thesis
  proof (cases "presetId a = ANGLES")
    case True
    have "\<forall>angle \<in> set (anglesToGenerate (targetAngles a)). \<exists>r rest.
            Remote (GeneratorRequest r) \<in> set (snd (snd (processImagesWithGemini env a w)))
            \<and> taskOf r = TextPart (''TASK: ''
                @ anglePrompt (replace (runArguments.customPrompt a) ''<BodyType>''
                     (selectedBodyType a)) angle
                @ ''\<newline>'' @ rest)"
    proof
      fix angle assume angle: "angle \<in> set (anglesToGenerate (targetAngles a))"
      from mapAsync_unit_events[OF angle, of "angleUnit env a ctx an" 0 w1] obtain j w' where
        sub: "set (snd (snd (angleUnit env a ctx an angle j w')))
          \<subseteq> set (snd (snd (mapAsync (angleUnit env a ctx an)
                 (anglesToGenerate (targetAngles a)) 0 w1)))"
        by blast
      from angleUnit_request[OF assms(1), of env ctx an angle j w'] obtain r rest where
        r: "Remote (GeneratorRequest r) \<in> set (snd (snd (angleUnit env a ctx an angle j w')))"
        and t: "taskOf r = TextPart (''TASK: ''
                @ anglePrompt (replace (runArguments.customPrompt a) ''<BodyType>''
                     (selectedBodyType a)) angle
                @ ''\<newline>'' @ rest)"
        by blast
      from r sub have "Remote (GeneratorRequest r)
          \<in> set (snd (snd (mapAsync (angleUnit env a ctx an)
                 (anglesToGenerate (targetAngles a)) 0 w1)))"
        by blast
      with True False p an ctx have "Remote (GeneratorRequest r)
          \<in> set (snd (snd (processImagesWithGemini env a w)))"
        by (simp add: processImagesWithGemini_cases multiImage_def Let_def case_prod_beta)
      with t show "\<exists>r rest.
            Remote (GeneratorRequest r) \<in> set (snd (snd (processImagesWithGemini env a w)))
            \<and> taskOf r = TextPart (''TASK: ''
                @ anglePrompt (replace (runArguments.customPrompt a) ''<BodyType>''
                     (selectedBodyType a)) angle
                @ ''\<newline>'' @ rest)"
        by blast
    qed
    with True False show ?thesis by simp
  next
    case notAngles: False
    from singleGeneration_generates[OF assms(1), of env ctx an w1] obtain r where
      "Remote (GeneratorRequest r) \<in> set (snd (snd (singleGeneration env a ctx an w1)))"
      by blast
    with notAngles False p an ctx have "Remote (GeneratorRequest r)
        \<in> set (snd (snd (processImagesWithGemini env a w)))"
      by (simp add: processImagesWithGemini_cases multiImage_def Let_def case_prod_beta)
    with notAngles False show ?thesis by auto
  qed
qed

lemma analysis_failed_defaults:
  assumes "truthy key" "fst (runWithRetry (analyzeAttempt env f (the key)) sink 10 w) = Inl e"
  shows "fst (analyzeProductFeatures env f key sink w)
       = \<lparr>description = '''', filename = ''processed-product''\<rparr>"
  using assms by (auto simp: analyzeProductFeatures_def split: prod.splits sum.splits)

text \<open>An operation that fails on every invocation makes the loop fail.\<close>

lemma runWithRetryFrom_always_fails:
  assumes "\<forall>w. \<exists>e. fst (fn w) = Inl e"
  shows "d = retries - attempt \<Longrightarrow> \<exists>e. fst (runWithRetryFrom attempt fn s retries w) = Inl e"
proof (induction d arbitrary: attempt w)
  case 0
  obtain res w1 rs where f: "fn w = (res, w1, rs)" by (cases "fn w") auto
  from assms obtain e where "fst (fn w) = Inl e" by blast
  with f have "fn w = (Inl e, w1, rs)" by simp
  moreover from 0 have "retries \<le> attempt" by simp
  ultimately show ?case by (simp add: retry_step_exhausted)
next
  case (Suc d)
  obtain res w1 rs where f: "fn w = (res, w1, rs)" by (cases "fn w") auto
  from assms obtain e where fe: "fst (fn w) = Inl e" by blast
  with f have f': "fn w = (Inl e, w1, rs)" by simp
  from Suc have lt: "attempt < retries" and d: "d = retries - Suc attempt" by auto
  show ?case
  proof (cases "isTransient e")
    case False
    then show ?thesis using f' by (simp add: retry_step_terminal)
  next
    case True
    show ?thesis
      using retry_step_transient[where fn=fn and w=w and e=e and attempt=attempt
            and retries=retries and s=s] fe True lt Suc.IH[OF d, of "nextWorld fn w"]
      by (auto split: prod.splits)
  qed
qed

lemma analyzeAttempt_always_fails:
  assumes "\<forall>ps w. \<exists>e. fst (analyzerModel env k ps w) = Inl e"
  shows "\<forall>w. \<exists>e. fst (analyzeAttempt env f k w) = Inl e"
proof
  fix w
  show "\<exists>e. fst (analyzeAttempt env f k w) = Inl e"
  proof (cases "fileToGenerativePart f")
    case (Inl e)
    then show ?thesis by (simp add: analyzeAttempt_def)
  next
    case (Inr p)
    obtain x w1 where a: "analyzerModel env k [p, TextPart ANALYSIS_PROMPT] w = (x, w1)"
      by (cases "analyzerModel env k [p, TextPart ANALYSIS_PROMPT] w") auto
    from assms obtain e where "fst (analyzerModel env k [p, TextPart ANALYSIS_PROMPT] w) = Inl e"
      by blast
    with a have "x = Inl e" by simp
    with a Inr show ?thesis by (simp add: analyzeAttempt_def)
  qed
qed

text \<open>
  Claim C9. The analysis adapter never throws: when the retried analysis ends in an
  error, whatever the error, the adapter answers with the empty description and the stem
  ``processed-product''. That is so when every request to the analyzer fails, whether
  the loop gives up at once or after its retries, and for a response whose text
  \<^verbatim>\<open>JSON.parse\<close> rejects, where the adapter gives up after the one request. So the
  analysis cannot fail a run. In a run with a credential over readable source images,
  at least one, whatever the analyzer and \<^verbatim>\<open>JSON.parse\<close> do: every unit sends its
  request to the generator (each source image is in a request, each angle has a request
  with its instruction, the composite has its request), and there are at least as many
  requests to the generator as units; an error of the run is an error that a call of
  the generation adapter returned; and when the generator answers every request with an
  image, the run succeeds with one image for each unit, after exactly one request to
  the generator for each unit.
\<close>

theorem analysis_degrades_gracefully:
  "(truthy key \<and> fst (runWithRetry (analyzeAttempt env f (the key)) sink 10 w) = Inl e
      \<longrightarrow> fst (analyzeProductFeatures env f key sink w)
          = \<lparr>description = '''', filename = ''processed-product''\<rparr>)
   \<and> (truthy key \<and> (\<forall>ps w0. \<exists>e0. fst (analyzerModel env (the key) ps w0) = Inl e0)
      \<longrightarrow> fst (analyzeProductFeatures env f key sink w)
          = \<lparr>description = '''', filename = ''processed-product''\<rparr>)
   \<and> (truthy key \<and> fileToGenerativePart f = Inr p
        \<and> analyzerModel env (the key) [p, TextPart ANALYSIS_PROMPT] w = (Inr answer, w1)
        \<and> jsonParse env (orDefault answer ''{}'') = Inl e2 \<and> \<not> isTransient e2
      \<longrightarrow> analyzeProductFeatures env f key sink w
          = (\<lparr>description = '''', filename = ''processed-product''\<rparr>, w1,
             notify sink ''Analyzing product identity...''
             @ [Invoked, Remote (AnalyzerRequest [p, TextPart ANALYSIS_PROMPT])]))
   \<and> (truthy (runArguments.apiKey a) \<and> runArguments.sourceImages a \<noteq> []
        \<and> readable (runArguments.sourceImages a)
      \<longrightarrow> (if presetId a = GHOST_MANNEQUIN
           then \<forall>img \<in> set (runArguments.sourceImages a). \<exists>p r.
                  fileToGenerativePart (imageFile img) = Inr p
                  \<and> Remote (GeneratorRequest r)
                      \<in> set (snd (snd (processImagesWithGemini env a w')))
                  \<and> p \<in> set (contents r)
           else if presetId a = ANGLES
           then \<forall>angle \<in> set (anglesToGenerate (targetAngles a)). \<exists>r rest.
                  Remote (GeneratorRequest r)
                    \<in> set (snd (snd (processImagesWithGemini env a w')))
                  \<and> taskOf r = TextPart (''TASK: ''
                      @ anglePrompt (replace (runArguments.customPrompt a) ''<BodyType>''
                           (selectedBodyType a)) angle
                      @ ''\<newline>'' @ rest)
           else \<exists>r. Remote (GeneratorRequest r)
                  \<in> set (snd (snd (processImagesWithGemini env a w'))))
          \<and> generationUnits a
            \<le> length (generatorRequests (snd (snd (processImagesWithGemini env a w'))))
          \<and> (\<forall>e'. fst (processImagesWithGemini env a w') = Inl e'
                \<longrightarrow> (\<exists>ps ratio w''. fst (callGeminiGenerator env ps (runArguments.apiKey a)
                         (runArguments.imageQuality a) (onStatusUpdate a) ratio w'') = Inl e'))
          \<and> (alwaysAnswers env r \<and> extractImage r = Inr u
                \<longrightarrow> (\<exists>imgs. fst (processImagesWithGemini env a w') = Inr imgs
                       \<and> length imgs = generationUnits a
                       \<and> (\<forall>img \<in> set imgs. url img = u)
                       \<and> length (generatorRequests
                             (snd (snd (processImagesWithGemini env a w'))))
                           = generationUnits a)))"
proof (intro conjI impI allI)
  assume "truthy key \<and> fst (runWithRetry (analyzeAttempt env f (the key)) sink 10 w) = Inl e"
  then show "fst (analyzeProductFeatures env f key sink w)
          = \<lparr>description = '''', filename = ''processed-product''\<rparr>"
    by (intro analysis_failed_defaults[where e=e]) auto
next
  assume h: "truthy key \<and> (\<forall>ps w0. \<exists>e0. fst (analyzerModel env (the key) ps w0) = Inl e0)"
  then have "\<forall>w. \<exists>e. fst (analyzeAttempt env f (the key) w) = Inl e"
    by (intro analyzeAttempt_always_fails) blast
  from runWithRetryFrom_always_fails[OF this refl, where retries=10 and attempt=0 and s=sink
      and w=w]
  obtain e' where "fst (runWithRetry (analyzeAttempt env f (the key)) sink 10 w) = Inl e'"
    by (auto simp: runWithRetry_def)
  with h show "fst (analyzeProductFeatures env f key sink w)
          = \<lparr>description = '''', filename = ''processed-product''\<rparr>"
    by (intro analysis_failed_defaults[where e=e']) auto
next
  assume h: "truthy key \<and> fileToGenerativePart f = Inr p
        \<and> analyzerModel env (the key) [p, TextPart ANALYSIS_PROMPT] w = (Inr answer, w1)
        \<and> jsonParse env (orDefault answer ''{}'') = Inl e2 \<and> \<not> isTransient e2"
  then have att: "analyzeAttempt env f (the key) w
      = (Inl e2, w1, [AnalyzerRequest [p, TextPart ANALYSIS_PROMPT]])"
    by (simp add: analyzeAttempt_def)
  from h have nt: "\<not> isTransient e2" by blast
  have "runWithRetryFrom 0 (analyzeAttempt env f (the key)) sink 10 w
      = (Inl e2, w1, Invoked # map Remote [AnalyzerRequest [p, TextPart ANALYSIS_PROMPT]])"
    using att nt by (rule retry_step_terminal)
  then have "runWithRetry (analyzeAttempt env f (the key)) sink 10 w
      = (Inl e2, w1, [Invoked, Remote (AnalyzerRequest [p, TextPart ANALYSIS_PROMPT])])"
    by (simp add: runWithRetry_def)
  then show "analyzeProductFeatures env f key sink w
          = (\<lparr>description = '''', filename = ''processed-product''\<rparr>, w1,
             notify sink ''Analyzing product identity...''
             @ [Invoked, Remote (AnalyzerRequest [p, TextPart ANALYSIS_PROMPT])])"
    using h by (simp add: analyzeProductFeatures_def)
next
  assume "truthy (runArguments.apiKey a) \<and> runArguments.sourceImages a \<noteq> []
        \<and> readable (runArguments.sourceImages a)"
  then show "if presetId a = GHOST_MANNEQUIN
           then \<forall>img \<in> set (runArguments.sourceImages a). \<exists>p r.
                  fileToGenerativePart (imageFile img) = Inr p
                  \<and> Remote (GeneratorRequest r)
                      \<in> set (snd (snd (processImagesWithGemini env a w')))
                  \<and> p \<in> set (contents r)
           else if presetId a = ANGLES
           then \<forall>angle \<in> set (anglesToGenerate (targetAngles a)). \<exists>r rest.
                  Remote (GeneratorRequest r)
                    \<in> set (snd (snd (processImagesWithGemini env a w')))
                  \<and> taskOf r = TextPart (''TASK: ''
                      @ anglePrompt (replace (runArguments.customPrompt a) ''<BodyType>''
                           (selectedBodyType a)) angle
                      @ ''\<newline>'' @ rest)
           else \<exists>r. Remote (GeneratorRequest r)
                  \<in> set (snd (snd (processImagesWithGemini env a w')))"
    by (intro run_generates_every_unit) auto
next
  assume "truthy (runArguments.apiKey a) \<and> runArguments.sourceImages a \<noteq> []
        \<and> readable (runArguments.sourceImages a)"
  then show "generationUnits a
            \<le> length (generatorRequests (snd (snd (processImagesWithGemini env a w'))))"
    by (intro run_generates_each) auto
next
  fix e'
  assume "truthy (runArguments.apiKey a) \<and> runArguments.sourceImages a \<noteq> []
        \<and> readable (runArguments.sourceImages a)"
    and "fst (processImagesWithGemini env a w') = Inl e'"
  then show "\<exists>ps ratio w''. fst (callGeminiGenerator env ps (runArguments.apiKey a)
                         (runArguments.imageQuality a) (onStatusUpdate a) ratio w'') = Inl e'"
    by (intro run_error_source[where w=w']) auto
next
  assume "truthy (runArguments.apiKey a) \<and> runArguments.sourceImages a \<noteq> []
        \<and> readable (runArguments.sourceImages a)"
    and "alwaysAnswers env r \<and> extractImage r = Inr u"
  then show "\<exists>imgs. fst (processImagesWithGemini env a w') = Inr imgs
                       \<and> length imgs = generationUnits a
                       \<and> (\<forall>img \<in> set imgs. url img = u)
                       \<and> length (generatorRequests
                             (snd (snd (processImagesWithGemini env a w'))))
                           = generationUnits a"
    by (intro run_answers[where r=r]) auto
qed

theorem analysis_degrades_gracefully_witness:
  "truthy (Some ''key'')
   \<and> fst (runWithRetry (analyzeAttempt (envAnalyzer (Inl (Error ''fetch failed'')))
             (imageFile imageA) (the (Some ''key''))) True 10 0)
       = Inl (Error ''fetch failed'')
   \<and> fst (analyzeProductFeatures (envAnalyzer (Inl (Error ''fetch failed''))) (imageFile imageA)
             (Some ''key'') True 0)
       = \<lparr>description = '''', filename = ''processed-product''\<rparr>
   \<and> (\<forall>ps w0. \<exists>e0. fst (analyzerModel (envAnalyzer (Inl serviceUnavailable))
          (the (Some ''key'')) ps w0) = Inl e0)
   \<and> fst (analyzeProductFeatures (envAnalyzer (Inl serviceUnavailable)) (imageFile imageA)
             (Some ''key'') True 0)
       = \<lparr>description = '''', filename = ''processed-product''\<rparr>
   \<and> fileToGenerativePart (imageFile imageA) = Inr (InlineData (Some ''QUFB'') ''image/png'')
   \<and> analyzerModel (envAnalyzer (Inr (Some ''not json''))) (the (Some ''key''))
         [InlineData (Some ''QUFB'') ''image/png'', TextPart ANALYSIS_PROMPT] 0
       = (Inr (Some ''not json''), 1)
   \<and> jsonParse (envAnalyzer (Inr (Some ''not json''))) (orDefault (Some ''not json'') ''{}'')
       = Inl (Error ''Unexpected token'')
   \<and> \<not> isTransient (Error ''Unexpected token'')
   \<and> analyzeProductFeatures (envAnalyzer (Inr (Some ''not json''))) (imageFile imageA)
         (Some ''key'') True 0
       = (\<lparr>description = '''', filename = ''processed-product''\<rparr>, 1,
          [Status ''Analyzing product identity...'', Invoked,
           Remote (AnalyzerRequest
             [InlineData (Some ''QUFB'') ''image/png'', TextPart ANALYSIS_PROMPT])])
   \<and> truthy (runArguments.apiKey (sampleRun GHOST_MANNEQUIN [imageA, imageB] ''Show it''))
   \<and> runArguments.sourceImages (sampleRun GHOST_MANNEQUIN [imageA, imageB] ''Show it'') \<noteq> []
   \<and> readable (runArguments.sourceImages
         (sampleRun GHOST_MANNEQUIN [imageA, imageB] ''Show it''))
   \<and> generationUnits (sampleRun GHOST_MANNEQUIN [imageA, imageB] ''Show it'') = 2
   \<and> alwaysAnswers (envAnalyzer (Inl (Error ''fetch failed''))) (imageResponse ''QUJD'')
   \<and> extractImage (imageResponse ''QUJD'') = Inr ''data:image/png;base64,QUJD''
   \<and> fst (processImagesWithGemini (envAnalyzer (Inl (Error ''fetch failed'')))
            (sampleRun GHOST_MANNEQUIN [imageA, imageB] ''Show it'') 0)
       = Inr [\<lparr>url = ''data:image/png;base64,QUJD'', filename = ''processed-product''\<rparr>,
              \<lparr>url = ''data:image/png;base64,QUJD'', filename = ''processed-product''\<rparr>]
   \<and> length (generatorRequests (snd (snd (processImagesWithGemini
         (envAnalyzer (Inl (Error ''fetch failed'')))
         (sampleRun GHOST_MANNEQUIN [imageA, imageB] ''Show it'') 0)))) = 2
   \<and> presetId (sampleRun GHOST_MANNEQUIN [imageA, imageB] ''Show it'') = GHOST_MANNEQUIN
   \<and> imageB \<in> set (runArguments.sourceImages
         (sampleRun GHOST_MANNEQUIN [imageA, imageB] ''Show it''))
   \<and> (\<exists>p r. fileToGenerativePart (imageFile imageB) = Inr p
         \<and> Remote (GeneratorRequest r)
             \<in> set (snd (snd (processImagesWithGemini (envAnalyzer (Inl serviceUnavailable))
                   (sampleRun GHOST_MANNEQUIN [imageA, imageB] ''Show it'') 0)))
         \<and> p \<in> set (contents r))
   \<and> alwaysAnswers (envAnalyzer (Inl serviceUnavailable)) (imageResponse ''QUJD'')
   \<and> (\<exists>imgs. fst (processImagesWithGemini (envAnalyzer (Inl serviceUnavailable))
            (sampleRun GHOST_MANNEQUIN [imageA, imageB] ''Show it'') 0) = Inr imgs
         \<and> length imgs = 2)
   \<and> length (generatorRequests (snd (snd (processImagesWithGemini
         (envAnalyzer (Inl serviceUnavailable))
         (sampleRun GHOST_MANNEQUIN [imageA, imageB] ''Show it'') 0)))) = 2"
proof -
  let ?a = "sampleRun GHOST_MANNEQUIN [imageA, imageB] ''Show it''"
  have k: "truthy (Some ''key'')" by (simp add: truthy_def)
  have r1: "fst (runWithRetry (analyzeAttempt (envAnalyzer (Inl (Error ''fetch failed'')))
             (imageFile imageA) (the (Some ''key''))) True 10 0)
       = Inl (Error ''fetch failed'')"
    by code_simp
  have af: "\<forall>ps w0. \<exists>e0. fst (analyzerModel (envAnalyzer (Inl serviceUnavailable))
          (the (Some ''key'')) ps w0) = Inl e0"
    by (simp add: envAnalyzer_def)
  have f: "fileToGenerativePart (imageFile imageA)
      = Inr (InlineData (Some ''QUFB'') ''image/png'')"
    by code_simp
  have am: "analyzerModel (envAnalyzer (Inr (Some ''not json''))) (the (Some ''key''))
         [InlineData (Some ''QUFB'') ''image/png'', TextPart ANALYSIS_PROMPT] 0
       = (Inr (Some ''not json''), 1)"
    by (simp add: envAnalyzer_def)
  have jp: "jsonParse (envAnalyzer (Inr (Some ''not json''))) (orDefault (Some ''not json'') ''{}'')
       = Inl (Error ''Unexpected token'')"
    by code_simp
  have nt: "\<not> isTransient (Error ''Unexpected token'')" by code_simp
  have a: "truthy (runArguments.apiKey ?a)"
    and si: "runArguments.sourceImages ?a \<noteq> []"
    and rd: "readable (runArguments.sourceImages ?a)"
    and gu: "generationUnits ?a = 2"
    by (simp_all add: sampleRun_def truthy_def readable_def imageA_def imageB_def
        generationUnits_def)
  have aa: "\<And>x. alwaysAnswers (envAnalyzer x) (imageResponse ''QUJD'')"
    by (simp add: alwaysAnswers_def envAnalyzer_def)
  have ex: "extractImage (imageResponse ''QUJD'') = Inr ''data:image/png;base64,QUJD''"
    by code_simp
  have run: "fst (processImagesWithGemini (envAnalyzer (Inl (Error ''fetch failed''))) ?a 0)
       = Inr [\<lparr>url = ''data:image/png;base64,QUJD'', filename = ''processed-product''\<rparr>,
              \<lparr>url = ''data:image/png;base64,QUJD'', filename = ''processed-product''\<rparr>]"
    by code_simp
  have n: "notify True ''Analyzing product identity...''
      = [Status ''Analyzing product identity...'']"
    by (simp add: notify_def)
  note i1 = analysis_degrades_gracefully
        [where key="Some ''key''" and env="envAnalyzer (Inl (Error ''fetch failed''))"
          and f="imageFile imageA" and sink=True and w=0 and e="Error ''fetch failed''"
          and a="?a" and w'=0 and r="imageResponse ''QUJD''"
          and u="''data:image/png;base64,QUJD''"]
  note i2 = analysis_degrades_gracefully
        [where key="Some ''key''" and env="envAnalyzer (Inl serviceUnavailable)"
          and f="imageFile imageA" and sink=True and w=0
          and a="?a" and w'=0 and r="imageResponse ''QUJD''"
          and u="''data:image/png;base64,QUJD''"]
  note i3 = analysis_degrades_gracefully
        [where key="Some ''key''" and env="envAnalyzer (Inr (Some ''not json''))"
          and f="imageFile imageA" and sink=True and w=0
          and p="InlineData (Some ''QUFB'') ''image/png''" and answer="Some ''not json''"
          and ?w1.0=1 and ?e2.0="Error ''Unexpected token''"]
  have c1: "fst (analyzeProductFeatures (envAnalyzer (Inl (Error ''fetch failed'')))
             (imageFile imageA) (Some ''key'') True 0)
       = \<lparr>description = '''', filename = ''processed-product''\<rparr>"
    using i1 k r1 by blast
  have "\<exists>imgs. fst (processImagesWithGemini (envAnalyzer (Inl (Error ''fetch failed''))) ?a 0)
           = Inr imgs
         \<and> length imgs = generationUnits ?a
         \<and> (\<forall>img \<in> set imgs. url img = ''data:image/png;base64,QUJD'')
         \<and> length (generatorRequests (snd (snd (processImagesWithGemini
               (envAnalyzer (Inl (Error ''fetch failed''))) ?a 0)))) = generationUnits ?a"
    using i1 a si rd aa[of "Inl (Error ''fetch failed'')"] ex by blast
  then have c1n: "length (generatorRequests (snd (snd (processImagesWithGemini
         (envAnalyzer (Inl (Error ''fetch failed''))) ?a 0)))) = 2"
    unfolding gu by blast
  have c2: "fst (analyzeProductFeatures (envAnalyzer (Inl serviceUnavailable))
             (imageFile imageA) (Some ''key'') True 0)
       = \<lparr>description = '''', filename = ''processed-product''\<rparr>"
    using i2 k af by blast
  have "\<exists>imgs. fst (processImagesWithGemini (envAnalyzer (Inl serviceUnavailable)) ?a 0)
           = Inr imgs
         \<and> length imgs = generationUnits ?a
         \<and> (\<forall>img \<in> set imgs. url img = ''data:image/png;base64,QUJD'')
         \<and> length (generatorRequests (snd (snd (processImagesWithGemini
               (envAnalyzer (Inl serviceUnavailable)) ?a 0)))) = generationUnits ?a"
    using i2 a si rd aa[of "Inl serviceUnavailable"] ex by blast
  then have c2r: "\<exists>imgs. fst (processImagesWithGemini (envAnalyzer (Inl serviceUnavailable)) ?a 0)
         = Inr imgs \<and> length imgs = 2"
    and c2n: "length (generatorRequests (snd (snd (processImagesWithGemini
         (envAnalyzer (Inl serviceUnavailable)) ?a 0)))) = 2"
    unfolding gu by blast+
  have pg: "presetId ?a = GHOST_MANNEQUIN"
    and ib: "imageB \<in> set (runArguments.sourceImages ?a)"
    by (simp_all add: sampleRun_def)
  have "if presetId ?a = GHOST_MANNEQUIN
           then \<forall>img \<in> set (runArguments.sourceImages ?a). \<exists>p r.
                  fileToGenerativePart (imageFile img) = Inr p
                  \<and> Remote (GeneratorRequest r)
                      \<in> set (snd (snd (processImagesWithGemini
                            (envAnalyzer (Inl serviceUnavailable)) ?a 0)))
                  \<and> p \<in> set (contents r)
           else if presetId ?a = ANGLES
           then \<forall>angle \<in> set (anglesToGenerate (targetAngles ?a)). \<exists>r rest.
                  Remote (GeneratorRequest r)
                    \<in> set (snd (snd (processImagesWithGemini
                          (envAnalyzer (Inl serviceUnavailable)) ?a 0)))
                  \<and> taskOf r = TextPart (''TASK: ''
                      @ anglePrompt (replace (runArguments.customPrompt ?a) ''<BodyType>''
                           (selectedBodyType ?a)) angle
                      @ ''\<newline>'' @ rest)
           else \<exists>r. Remote (GeneratorRequest r)
                  \<in> set (snd (snd (processImagesWithGemini
                        (envAnalyzer (Inl serviceUnavailable)) ?a 0)))"
    using i2 a si rd by blast
  then have c2u: "\<exists>p r. fileToGenerativePart (imageFile imageB) = Inr p
         \<and> Remote (GeneratorRequest r)
             \<in> set (snd (snd (processImagesWithGemini (envAnalyzer (Inl serviceUnavailable))
                   ?a 0)))
         \<and> p \<in> set (contents r)"
    using pg ib by (simp only: if_True)
  from i3 k f am jp nt n
  have c3: "analyzeProductFeatures (envAnalyzer (Inr (Some ''not json''))) (imageFile imageA)
         (Some ''key'') True 0
       = (\<lparr>description = '''', filename = ''processed-product''\<rparr>, 1,
          [Status ''Analyzing product identity...'', Invoked,
           Remote (AnalyzerRequest
             [InlineData (Some ''QUFB'') ''image/png'', TextPart ANALYSIS_PROMPT])])"
    by simp
  show ?thesis
    using k r1 c1 af c2 f am jp nt c3 a si rd gu aa[of "Inl (Error ''fetch failed'')"]
      aa[of "Inl serviceUnavailable"] ex run c1n c2r c2n pg ib c2u
    by blast
qed



section \<open>The requests a run sends to the generator\<close>

lemma ghostUnit_remote:
  assumes "Remote (GeneratorRequest r) \<in> set (snd (snd (ghostUnit env a img idx w)))"
  shows "\<exists>p. fileToGenerativePart (imageFile img) = Inr p
      \<and> r = \<lparr>contents = ghostRequestParts a p
                (description (fst (analyzeProductFeatures env (imageFile img)
                   (runArguments.apiKey a) (onStatusUpdate a) w))),
             imageSize = runArguments.imageQuality a, aspectRatio = ''3:4''\<rparr>"
proof -
  obtain an w1 t2 where an: "analyzeProductFeatures env (imageFile img) (runArguments.apiKey a)
      (onStatusUpdate a) w = (an, w1, t2)"
    by (cases "analyzeProductFeatures env (imageFile img) (runArguments.apiKey a)
      (onStatusUpdate a) w") auto
  have t2: "Remote (GeneratorRequest r) \<notin> set t2"
    using analyzeProductFeatures_remote[of "GeneratorRequest r" env "imageFile img"
        "runArguments.apiKey a" "onStatusUpdate a" w] an by auto
  show ?thesis
  proof (cases "fileToGenerativePart (imageFile img)")
    case (Inl e)
    with assms an t2 show ?thesis
      by (auto simp: ghostUnit_def Let_def notify_not_remote)
  next
    case (Inr p)
    let ?ps = "ghostRequestParts a p (description an)"
    obtain x w2 t4 where g: "callGeminiGenerator env ?ps
        (runArguments.apiKey a) (runArguments.imageQuality a) (onStatusUpdate a) ''3:4'' w1
        = (x, w2, t4)"
      by (cases "callGeminiGenerator env ?ps
        (runArguments.apiKey a) (runArguments.imageQuality a) (onStatusUpdate a) ''3:4'' w1") auto
    from assms an Inr g t2 have "Remote (GeneratorRequest r) \<in> set t4"
      by (cases x) (auto simp: ghostUnit_def Let_def notify_not_remote)
    then have "Remote (GeneratorRequest r) \<in> set (snd (snd (callGeminiGenerator env ?ps
        (runArguments.apiKey a) (runArguments.imageQuality a) (onStatusUpdate a) ''3:4'' w1)))"
      using g by simp
    from callGeminiGenerator_remote[OF this] Inr an show ?thesis by simp
  qed
qed

lemma angleUnit_remote:
  assumes "Remote (GeneratorRequest r) \<in> set (snd (snd (angleUnit env a ctx an angle idx w)))"
  shows "r = \<lparr>contents = ctx @ [TextPart (''TASK: ''
                     @ anglePromptWithAnalysis (runArguments.customPrompt a)
                         (selectedBodyType a) angle (description an))],
             imageSize = runArguments.imageQuality a, aspectRatio = ''3:4''\<rparr>"
proof -
  let ?ps = "ctx @ [TextPart (''TASK: ''
                     @ anglePromptWithAnalysis (runArguments.customPrompt a)
                         (selectedBodyType a) angle (description an))]"
  obtain x w2 t4 where g: "callGeminiGenerator env ?ps
      (runArguments.apiKey a) (runArguments.imageQuality a) (onStatusUpdate a) ''3:4'' w
      = (x, w2, t4)"
    by (cases "callGeminiGenerator env ?ps
      (runArguments.apiKey a) (runArguments.imageQuality a) (onStatusUpdate a) ''3:4'' w") auto
  from assms g have "Remote (GeneratorRequest r) \<in> set t4"
    by (cases x) (auto simp: angleUnit_def Let_def notify_not_remote)
  then have "Remote (GeneratorRequest r) \<in> set (snd (snd (callGeminiGenerator env ?ps
      (runArguments.apiKey a) (runArguments.imageQuality a) (onStatusUpdate a) ''3:4'' w)))"
    using g by simp
  from callGeminiGenerator_remote[OF this] show ?thesis by simp
qed

lemma singleGeneration_remote:
  assumes "Remote (GeneratorRequest r) \<in> set (snd (snd (singleGeneration env a ctx an w)))"
  shows "r = \<lparr>contents = ctx @ [TextPart (''TASK: '' @ finalPromptWithAnalysis a (description an))],
             imageSize = runArguments.imageQuality a, aspectRatio = targetAspectRatio a\<rparr>"
proof -
  let ?ps = "ctx @ [TextPart (''TASK: '' @ finalPromptWithAnalysis a (description an))]"
  obtain x w2 t4 where g: "callGeminiGenerator env ?ps
      (runArguments.apiKey a) (runArguments.imageQuality a) (onStatusUpdate a)
      (targetAspectRatio a) w = (x, w2, t4)"
    by (cases "callGeminiGenerator env ?ps
      (runArguments.apiKey a) (runArguments.imageQuality a) (onStatusUpdate a)
      (targetAspectRatio a) w") auto
  from assms g have "Remote (GeneratorRequest r) \<in> set t4"
    by (cases x) (auto simp: singleGeneration_def Let_def notify_not_remote)
  then have "Remote (GeneratorRequest r) \<in> set (snd (snd (callGeminiGenerator env ?ps
      (runArguments.apiKey a) (runArguments.imageQuality a) (onStatusUpdate a)
      (targetAspectRatio a) w)))"
    using g by simp
  from callGeminiGenerator_remote[OF this] show ?thesis by simp
qed

text \<open>
  In the cases with a shared context every request to the generator is built on the
  context and on the one analysis of the primary image.
\<close>

lemma multiImage_remote:
  assumes "Remote (GeneratorRequest r) \<in> set (snd (snd (multiImage env a w)))"
  shows "\<exists>p ctx t. primaryImg (runArguments.sourceImages a) = Some p
      \<and> contextParts a = (Inr ctx, t)
      \<and> (if presetId a = ANGLES
          then \<exists>angle \<in> set (anglesToGenerate (targetAngles a)).
                 r = \<lparr>contents = ctx @ [TextPart (''TASK: ''
                          @ anglePromptWithAnalysis (runArguments.customPrompt a)
                              (selectedBodyType a) angle
                              (description (fst (analyzeProductFeatures env (imageFile p)
                                 (runArguments.apiKey a) (onStatusUpdate a) w))))],
                        imageSize = runArguments.imageQuality a, aspectRatio = ''3:4''\<rparr>
          else r = \<lparr>contents = ctx @ [TextPart (''TASK: ''
                          @ finalPromptWithAnalysis a
                              (description (fst (analyzeProductFeatures env (imageFile p)
                                 (runArguments.apiKey a) (onStatusUpdate a) w))))],
                      imageSize = runArguments.imageQuality a,
                      aspectRatio = targetAspectRatio a\<rparr>)"
proof (cases "primaryImg (runArguments.sourceImages a)")
  case None
  with assms show ?thesis by (simp add: multiImage_def Let_def notify_not_remote)
next
  case (Some p)
  obtain an w1 t1 where an: "analyzeProductFeatures env (imageFile p) (runArguments.apiKey a)
      (onStatusUpdate a) w = (an, w1, t1)"
    by (cases "analyzeProductFeatures env (imageFile p) (runArguments.apiKey a)
      (onStatusUpdate a) w") auto
  have t1: "Remote (GeneratorRequest r) \<notin> set t1"
    using analyzeProductFeatures_remote[of "GeneratorRequest r" env "imageFile p"
        "runArguments.apiKey a" "onStatusUpdate a" w] an by auto
  obtain c t2 where c: "contextParts a = (c, t2)" by (cases "contextParts a") auto
  have t2: "Remote (GeneratorRequest r) \<notin> set t2"
    using contextParts_not_remote[of "GeneratorRequest r" a] c by simp
  show ?thesis
  proof (cases c)
    case (Inl e)
    with assms Some an c t1 t2 show ?thesis
      by (simp add: multiImage_def Let_def notify_not_remote)
  next
    case (Inr ctx)
    show ?thesis
    proof (cases "presetId a = ANGLES")
      case True
      with assms Some an c Inr t1 t2
      have "Remote (GeneratorRequest r) \<in> set (snd (snd (mapAsync (angleUnit env a ctx an)
          (anglesToGenerate (targetAngles a)) 0 w1)))"
        by (simp add: multiImage_def Let_def notify_not_remote case_prod_beta)
      from mapAsync_events[OF this] obtain angle j w' where
        angle: "angle \<in> set (anglesToGenerate (targetAngles a))"
        and ev: "Remote (GeneratorRequest r) \<in> set (snd (snd (angleUnit env a ctx an angle j w')))"
        by blast
      from angleUnit_remote[OF ev] angle True Some c Inr an show ?thesis by auto
    next
      case False
      with assms Some an c Inr t1 t2
      have "Remote (GeneratorRequest r) \<in> set (snd (snd (singleGeneration env a ctx an w1)))"
        by (simp add: multiImage_def Let_def notify_not_remote case_prod_beta)
      from singleGeneration_remote[OF this] False Some c Inr an show ?thesis by auto
    qed
  qed
qed

lemma run_remote_ghost:
  assumes "presetId a = GHOST_MANNEQUIN"
    and "Remote (GeneratorRequest r) \<in> set (snd (snd (processImagesWithGemini env a w)))"
  shows "\<exists>img \<in> set (runArguments.sourceImages a). \<exists>p d.
      r = \<lparr>contents = ghostRequestParts a p d,
           imageSize = runArguments.imageQuality a, aspectRatio = ''3:4''\<rparr>"
proof -
  from assms have "Remote (GeneratorRequest r) \<in> set (snd (snd (mapAsync (ghostUnit env a)
      (runArguments.sourceImages a) 0 w)))"
    by (simp add: processImagesWithGemini_cases case_prod_beta)
  from mapAsync_events[OF this] obtain img j w' where
    "img \<in> set (runArguments.sourceImages a)"
    "Remote (GeneratorRequest r) \<in> set (snd (snd (ghostUnit env a img j w')))"
    by blast
  with ghostUnit_remote[of r env a img j w'] show ?thesis by blast
qed

lemma run_remote_ratio:
  assumes "Remote (GeneratorRequest r) \<in> set (snd (snd (processImagesWithGemini env a w)))"
  shows "aspectRatio r =
     (if presetId a = GHOST_MANNEQUIN \<or> presetId a = ANGLES then ''3:4''
      else targetAspectRatio a)"
proof (cases "presetId a = GHOST_MANNEQUIN")
  case True
  from run_remote_ghost[OF True assms] True show ?thesis by auto
next
  case False
  with assms have "Remote (GeneratorRequest r) \<in> set (snd (snd (multiImage env a w)))"
    by (simp add: processImagesWithGemini_cases)
  from multiImage_remote[OF this] False show ?thesis by (auto split: if_splits)
qed



text \<open>
  Claim C3, as the code has it. Whatever run \<^verbatim>\<open>handleProcess\<close> starts, every request it
  sends to the generator carries the ratio ``3:4'' for the per-image and the per-angle
  strategy. For the lifestyle composite the caller's ratio family and the portrait flag
  decide: ``1:1'' gives ``1:1'', ``4:3'' gives ``3:4'' in portrait and ``4:3'' in landscape,
  ``16:9'' gives ``9:16'' in portrait and ``16:9'' in landscape, and any other family gives
  ``1:1''. For the other composite, the background removal, the ratio is ``1:1'' whatever
  the family and the flag.
\<close>

theorem aspect_ratio_resolution:
  assumes "handleProcess env st w = Some out"
    and "Remote (GeneratorRequest r) \<in> set (snd (snd out))"
  shows "aspectRatio r =
     (if selectedPreset st = Some GHOST_MANNEQUIN \<or> selectedPreset st = Some ANGLES
      then ''3:4''
      else if selectedPreset st = Some LIFESTYLE then
        (if lifestyleRatio st = ''1:1'' then ''1:1''
         else if lifestyleRatio st = ''4:3'' then (if isPortrait st then ''3:4'' else ''4:3'')
         else if lifestyleRatio st = ''16:9'' then (if isPortrait st then ''9:16'' else ''16:9'')
         else ''1:1'')
      else ''1:1'')"
proof -
  from assms(1) obtain preset where preset: "selectedPreset st = Some preset"
    by (auto simp: handleProcess_def split: if_splits)
  let ?a = "\<lparr>sourceImages = appState.sourceImages st,
              presetId = preset,
              customPrompt = appState.customPrompt st,
              apiKey = Some (appState.apiKey st),
              imageQuality = appState.imageQuality st,
              onStatusUpdate = True,
              referenceImageBase64 = referenceImage st,
              targetAngles = Some (selectedAngles st),
              bodyType = Some (appState.bodyType st),
              targetAspectRatio = resolveAspectRatio preset (lifestyleRatio st) (isPortrait st),
              environment = Some (lifestyleEnv st),
              additionalContext = Some (lifestyleContext st)\<rparr>"
  from assms(1) preset have out: "out = processImagesWithGemini env ?a w"
    by (auto simp: handleProcess_def split: if_splits)
  from run_remote_ratio[of r env ?a w] assms(2) out
  have "aspectRatio r = (if preset = GHOST_MANNEQUIN \<or> preset = ANGLES then ''3:4''
      else resolveAspectRatio preset (lifestyleRatio st) (isPortrait st))"
    by simp
  then show ?thesis
    using preset by (cases preset) (simp_all add: resolveAspectRatio_def)
qed

theorem aspect_ratio_resolution_witness:
  "handleProcess envByImage (sampleState LIFESTYLE ''4:3'' True) 0
     = Some (the (handleProcess envByImage (sampleState LIFESTYLE ''4:3'' True) 0))
   \<and> Remote (GeneratorRequest (hd (generatorRequests (snd (snd
         (the (handleProcess envByImage (sampleState LIFESTYLE ''4:3'' True) 0)))))))
       \<in> set (snd (snd (the (handleProcess envByImage (sampleState LIFESTYLE ''4:3'' True) 0))))
   \<and> aspectRatio (hd (generatorRequests (snd (snd
         (the (handleProcess envByImage (sampleState LIFESTYLE ''4:3'' True) 0))))))
       = ''3:4''"
proof -
  let ?out = "the (handleProcess envByImage (sampleState LIFESTYLE ''4:3'' True) 0)"
  have h1: "handleProcess envByImage (sampleState LIFESTYLE ''4:3'' True) 0 = Some ?out"
    by code_simp
  have h2: "Remote (GeneratorRequest (hd (generatorRequests (snd (snd ?out)))))
      \<in> set (snd (snd ?out))"
    by code_simp
  have st: "selectedPreset (sampleState LIFESTYLE ''4:3'' True) = Some LIFESTYLE"
    "lifestyleRatio (sampleState LIFESTYLE ''4:3'' True) = ''4:3''"
    "isPortrait (sampleState LIFESTYLE ''4:3'' True)"
    by (simp_all add: sampleState_def)
  from aspect_ratio_resolution[OF h1 h2]
  have "aspectRatio (hd (generatorRequests (snd (snd ?out)))) = ''3:4''"
    using st by simp
  with h1 h2 show ?thesis by blast
qed

text \<open>
  Claim C3 as stated fails for the second composite strategy: \<^verbatim>\<open>handleProcess\<close>
  resolves the family and the flag only when the preset is the lifestyle one. With the
  background removal preset, the family ``4:3'' and the portrait flag, the one request
  to the generator carries ``1:1'', not ``3:4''.
\<close>

theorem composite_ratio_counterexample:
  "selectedPreset (sampleState BG_REMOVE_REPAIR ''4:3'' True) = Some BG_REMOVE_REPAIR
   \<and> lifestyleRatio (sampleState BG_REMOVE_REPAIR ''4:3'' True) = ''4:3''
   \<and> isPortrait (sampleState BG_REMOVE_REPAIR ''4:3'' True)
   \<and> map aspectRatio (generatorRequests (snd (snd
         (the (handleProcess envByImage (sampleState BG_REMOVE_REPAIR ''4:3'' True) 0)))))
       = [''1:1'']"
  by code_simp






section \<open>The results of the per-angle strategy\<close>

lemma angleUnit_filename:
  assumes "fst (angleUnit env a ctx an angle idx w) = Inr img"
  shows "filename img = analysis.filename an @ ''-'' @ angleSuffix angle"
  using assms
  by (auto simp: angleUnit_def Let_def split: prod.splits sum.splits)

lemma angles_run_results:
  assumes "presetId a = ANGLES"
    and "fst (processImagesWithGemini env a w) = Inr imgs"
  shows "length imgs = length (anglesToGenerate (targetAngles a))
     \<and> (\<exists>p. primaryImg (runArguments.sourceImages a) = Some p
          \<and> (\<forall>i < length (anglesToGenerate (targetAngles a)).
                filename (imgs ! i)
                = analysis.filename (fst (analyzeProductFeatures env (imageFile p)
                     (runArguments.apiKey a) (onStatusUpdate a) w))
                  @ ''-'' @ angleSuffix (anglesToGenerate (targetAngles a) ! i)))"
proof -
  let ?angles = "anglesToGenerate (targetAngles a)"
  from assms have m: "fst (multiImage env a w) = Inr imgs"
    by (simp add: processImagesWithGemini_cases)
  then obtain p where p: "primaryImg (runArguments.sourceImages a) = Some p"
    by (cases "primaryImg (runArguments.sourceImages a)") (auto simp: multiImage_def Let_def)
  obtain an w1 t1 where an: "analyzeProductFeatures env (imageFile p) (runArguments.apiKey a)
      (onStatusUpdate a) w = (an, w1, t1)"
    by (cases "analyzeProductFeatures env (imageFile p) (runArguments.apiKey a)
      (onStatusUpdate a) w") auto
  obtain c t2 where c: "contextParts a = (c, t2)" by (cases "contextParts a") auto
  from m p an c obtain ctx where ctx: "c = Inr ctx"
    by (cases c) (auto simp: multiImage_def Let_def)
  let ?rs = "fst (mapAsync (angleUnit env a ctx an) ?angles 0 w1)"
  from m p an c ctx assms(1) have pa: "Promise_all ?rs = Inr imgs"
    by (simp add: multiImage_def Let_def case_prod_beta)
  then have rs: "?rs = map Inr imgs" by (rule Promise_all_Inr)
  then have len: "length imgs = length ?angles"
    using mapAsync_length[of "angleUnit env a ctx an" ?angles 0 w1] by (metis length_map)
  have "\<forall>i < length ?angles. filename (imgs ! i)
      = analysis.filename an @ ''-'' @ angleSuffix (?angles ! i)"
  proof (intro allI impI)
    fix i assume i: "i < length ?angles"
    from mapAsync_nth[OF i, of "angleUnit env a ctx an" 0 w1] obtain w' where
      "?rs ! i = fst (angleUnit env a ctx an (?angles ! i) (0 + i) w')" by blast
    moreover have "?rs ! i = Inr (imgs ! i)" using rs i len by simp
    ultimately have "fst (angleUnit env a ctx an (?angles ! i) (0 + i) w') = Inr (imgs ! i)"
      by simp
    then show "filename (imgs ! i) = analysis.filename an @ ''-'' @ angleSuffix (?angles ! i)"
      by (rule angleUnit_filename)
  qed
  with len p an show ?thesis by simp
qed










lemma run_targetAngles_default:
  assumes "targetAngles a = None \<or> targetAngles a = Some []"
  shows "processImagesWithGemini env a w
       = processImagesWithGemini env (a\<lparr>targetAngles := Some DEFAULT_ANGLES\<rparr>) w"
proof -
  let ?b = "a\<lparr>targetAngles := Some DEFAULT_ANGLES\<rparr>"
  have g: "ghostUnit env ?b = ghostUnit env a"
    by (intro ext) (simp add: ghostUnit_def ghostRequestParts_def useReferenceImage_def
        selectedBodyType_def Let_def case_prod_beta cong: sum.case_cong)
  have u: "\<And>ctx an. angleUnit env ?b ctx an = angleUnit env a ctx an"
    by (intro ext) (simp add: angleUnit_def selectedBodyType_def Let_def case_prod_beta
        cong: sum.case_cong)
  have s: "\<And>ctx an. singleGeneration env ?b ctx an = singleGeneration env a ctx an"
    by (intro ext) (simp add: singleGeneration_def finalPromptWithAnalysis_def cleanPrompt_def
        sceneAddenda_def selectedBodyType_def Let_def case_prod_beta cong: sum.case_cong)
  have c: "contextParts ?b = contextParts a"
    by (simp add: contextParts_def useReferenceImage_def Let_def cong: sum.case_cong)
  have t: "anglesToGenerate (targetAngles ?b) = anglesToGenerate (targetAngles a)"
    using assms by (auto simp: anglesToGenerate_def DEFAULT_ANGLES_def)
  have m: "multiImage env ?b w = multiImage env a w"
    unfolding multiImage_def u s c t
    by (simp add: Let_def case_prod_beta cong: option.case_cong sum.case_cong if_cong)
  show ?thesis
    unfolding processImagesWithGemini_cases g m by (simp cong: if_cong)
qed

text \<open>
  Claim C5, as the code has it. A run whose angle selection is absent or empty is the
  run with the selection ``Front View'', ``Side View'', ``3/4 Perspective View'': no error
  is raised for the missing selection, and a successful per-angle run returns three
  images.
\<close>

theorem empty_angle_selection_falls_back:
  assumes "targetAngles a = None \<or> targetAngles a = Some []"
  shows "processImagesWithGemini env a w
       = processImagesWithGemini env
           (a\<lparr>targetAngles := Some [''Front View'', ''Side View'', ''3/4 Perspective View'']\<rparr>) w
     \<and> (presetId a = ANGLES \<and> fst (processImagesWithGemini env a w) = Inr imgs
        \<longrightarrow> length imgs = 3)"
proof -
  have "anglesToGenerate (targetAngles a) = DEFAULT_ANGLES"
    using assms by (auto simp: anglesToGenerate_def)
  then have "presetId a = ANGLES \<and> fst (processImagesWithGemini env a w) = Inr imgs
        \<longrightarrow> length imgs = 3"
    using angles_run_results[of a env w imgs] by (auto simp: DEFAULT_ANGLES_def)
  with run_targetAngles_default[OF assms, of env w] show ?thesis
    by (simp add: DEFAULT_ANGLES_def)
qed

theorem empty_angle_selection_falls_back_witness:
  "targetAngles (sampleRun ANGLES [imageA] ''Show it'') = None
   \<and> processImagesWithGemini envByImage (sampleRun ANGLES [imageA] ''Show it'') 0
       = processImagesWithGemini envByImage
           ((sampleRun ANGLES [imageA] ''Show it'')
              \<lparr>targetAngles := Some [''Front View'', ''Side View'', ''3/4 Perspective View'']\<rparr>) 0
   \<and> presetId (sampleRun ANGLES [imageA] ''Show it'') = ANGLES
   \<and> fst (processImagesWithGemini envByImage (sampleRun ANGLES [imageA] ''Show it'') 0)
       = Inr [\<lparr>url = ''data:image/png;base64,QUJD'',
                filename = ''Acme-Runner-Red-Sneakers-front''\<rparr>,
              \<lparr>url = ''data:image/png;base64,QUJD'',
                filename = ''Acme-Runner-Red-Sneakers-side''\<rparr>,
              \<lparr>url = ''data:image/png;base64,QUJD'',
                filename = ''Acme-Runner-Red-Sneakers-3/4''\<rparr>]"
proof -
  let ?a = "sampleRun ANGLES [imageA] ''Show it''"
  have c1: "targetAngles ?a = None" and c2: "presetId ?a = ANGLES"
    by (simp_all add: sampleRun_def)
  have c3: "fst (processImagesWithGemini envByImage ?a 0)
       = Inr [\<lparr>url = ''data:image/png;base64,QUJD'',
                filename = ''Acme-Runner-Red-Sneakers-front''\<rparr>,
              \<lparr>url = ''data:image/png;base64,QUJD'',
                filename = ''Acme-Runner-Red-Sneakers-side''\<rparr>,
              \<lparr>url = ''data:image/png;base64,QUJD'',
                filename = ''Acme-Runner-Red-Sneakers-3/4''\<rparr>]"
    by code_simp
  from empty_angle_selection_falls_back[of ?a envByImage 0] c1 c2 c3
  show ?thesis by simp
qed

text \<open>
  Claim C5 as stated fails: a per-angle run with the empty selection raises nothing. It
  sends three requests to the generator and resolves with the three default views.
\<close>

theorem empty_angle_selection_counterexample:
  "presetId ((sampleRun ANGLES [imageA] ''Show it'')\<lparr>targetAngles := Some []\<rparr>) = ANGLES
   \<and> targetAngles ((sampleRun ANGLES [imageA] ''Show it'')\<lparr>targetAngles := Some []\<rparr>)
       = Some []
   \<and> fst (processImagesWithGemini envByImage
         ((sampleRun ANGLES [imageA] ''Show it'')\<lparr>targetAngles := Some []\<rparr>) 0)
       = Inr [\<lparr>url = ''data:image/png;base64,QUJD'',
                filename = ''Acme-Runner-Red-Sneakers-front''\<rparr>,
              \<lparr>url = ''data:image/png;base64,QUJD'',
                filename = ''Acme-Runner-Red-Sneakers-side''\<rparr>,
              \<lparr>url = ''data:image/png;base64,QUJD'',
                filename = ''Acme-Runner-Red-Sneakers-3/4''\<rparr>]
   \<and> length (generatorRequests (snd (snd (processImagesWithGemini envByImage
         ((sampleRun ANGLES [imageA] ''Show it'')\<lparr>targetAngles := Some []\<rparr>) 0)))) = 3"
  by code_simp



section \<open>The body type placeholder\<close>




lemma replace_absent: "indexOf s p = None \<Longrightarrow> replace s p r = s"
  by (simp add: replace_def)






end
